(* ===== verification/C_Prelude.thy ===== *)
theory C_Prelude
  imports Main "HOL-Library.Word"
begin

text \<open>
  Shared vocabulary of the development: the C integer types of the 32-bit ARM kernel the
  drivers are written for (the Raspberry Pi of the README), the faults a C operation can run
  into, the results of operations that can fault, runs of a step function over a list of
  events, big-endian bytes, and the generic contracts (locales) the components share:
  machines that keep an invariant, codecs, registries, iterations, and values in a block of memory.
\<close>

unbundle bit_operations_syntax

named_theorems fault_simps "unfolding of fallible results"

section \<open>Machine integers\<close>

type_synonym u8 = "8 word"
type_synonym s8 = "8 word"
type_synonym u16 = "16 word"
type_synonym u32 = "32 word"
type_synonym u64 = "64 word"
type_synonym s64 = "64 word"
type_synonym bytes = "8 word list"

text \<open>A \<open>word\<close> is never larger than its own maximum; the two forms used below.\<close>

lemma unat_u8_less [simp]: "unat (x :: u8) < 256"
  using unsigned_less [of x] by simp

lemma unat_u16_less [simp]: "unat (x :: u16) < 65536"
  using unsigned_less [of x] by simp

lemma unat_u32_less [simp]: "unat (x :: u32) < 4294967296"
  using unsigned_less [of x] by simp

lemma unat_u32_less_64 [simp]: "unat (x :: u32) < 18446744073709551616"
  by (rule order_less_trans [OF unat_u32_less]) simp

lemma unat_u64_less [simp]: "unat (x :: u64) < 18446744073709551616"
  using unsigned_less [of x] by simp

text \<open>Peeling the first index off an interval; used with \<open>upt_Suc\<close> deleted.\<close>

lemma upt_add_Suc: "[l..<Suc (l + n)] = l # [Suc l..<Suc (l + n)]"
  by (simp add: upt_conv_Cons del: upt_Suc)

section \<open>Faults and fallible results\<close>

text \<open>
  What the C abstract machine has no answer for. An operation of the model returns
  \<open>Inl\<close> of the fault where the source would run into it, and \<open>Inr\<close> of its result
  otherwise; error codes of the drivers are ordinary results.
\<close>

datatype fault =
    Null_pointer
  | Use_after_free
  | Out_of_bounds
  | Division_by_zero
  | Pointer_clobbered
  | Deadlock
  | Endless_loop

type_synonym 'a res = "fault + 'a"

definition bind_res :: "'a res \<Rightarrow> ('a \<Rightarrow> 'b res) \<Rightarrow> 'b res" where
  "bind_res m f = (case m of Inl e \<Rightarrow> Inl e | Inr x \<Rightarrow> f x)"

lemma bind_res_Inl [simp, fault_simps]: "bind_res (Inl e) f = Inl e"
  by (simp add: bind_res_def)

lemma bind_res_Inr [simp, fault_simps]: "bind_res (Inr x) f = f x"
  by (simp add: bind_res_def)

lemma bind_res_eq_Inr: "bind_res m f = Inr y \<longleftrightarrow> (\<exists>x. m = Inr x \<and> f x = Inr y)"
  by (cases m) simp_all

lemma bind_res_eq_InrE:
  assumes "bind_res m f = Inr y"
  obtains x where "m = Inr x" and "f x = Inr y"
  using assms by (auto simp: bind_res_eq_Inr)

lemma bind_res_assoc: "bind_res (bind_res m f) g = bind_res m (\<lambda>x. bind_res (f x) g)"
  by (cases m) simp_all

lemma bind_res_cong [fundef_cong]:
  "m = m' \<Longrightarrow> (\<And>x. m' = Inr x \<Longrightarrow> f x = f' x) \<Longrightarrow> bind_res m f = bind_res m' f'"
  by (cases m') simp_all

text \<open>Dereferencing a pointer that may be \<open>NULL\<close>, and indexing an array of known length.\<close>

definition deref :: "'a option \<Rightarrow> 'a res" where
  "deref p = (case p of None \<Rightarrow> Inl Null_pointer | Some a \<Rightarrow> Inr a)"

lemma deref_simps [simp, fault_simps]: "deref None = Inl Null_pointer" "deref (Some a) = Inr a"
  by (simp_all add: deref_def)

definition array_get :: "'a list \<Rightarrow> nat \<Rightarrow> 'a res" where
  "array_get xs i = (if i < length xs then Inr (xs ! i) else Inl Out_of_bounds)"

lemma array_get_ok [simp, fault_simps]: "i < length xs \<Longrightarrow> array_get xs i = Inr (xs ! i)"
  by (simp add: array_get_def)

lemma array_get_eq_Inr: "array_get xs i = Inr x \<longleftrightarrow> i < length xs \<and> x = xs ! i"
  by (auto simp: array_get_def)

text \<open>Writing bytes at an offset of a block of memory.\<close>

definition overlay :: "bytes \<Rightarrow> nat \<Rightarrow> bytes \<Rightarrow> bytes" where
  "overlay buf off bs = take off buf @ bs @ drop (off + length bs) buf"

definition buf_write :: "bytes \<Rightarrow> nat \<Rightarrow> bytes \<Rightarrow> bytes res" where
  "buf_write buf off bs =
     (if bs = [] then Inr buf
      else if off + length bs \<le> length buf then Inr (overlay buf off bs)
      else Inl Out_of_bounds)"

lemma overlay_Nil [simp]: "overlay buf off [] = buf"
  by (simp add: overlay_def)

lemma length_overlay [simp]: "off + length bs \<le> length buf \<Longrightarrow> length (overlay buf off bs) = length buf"
  by (simp add: overlay_def)

lemma overlay_overlay:
  "off + length xs + length ys \<le> length buf \<Longrightarrow>
     overlay (overlay buf off xs) (off + length xs) ys = overlay buf off (xs @ ys)"
  by (simp add: overlay_def add.commute add.left_commute)

lemma overlay_start: "overlay buf 0 bs = bs @ drop (length bs) buf"
  by (simp add: overlay_def)

lemma buf_write_Nil [simp]: "buf_write buf off [] = Inr buf"
  by (simp add: buf_write_def)

lemma buf_write_ok [simp]:
  "off + length bs \<le> length buf \<Longrightarrow> buf_write buf off bs = Inr (overlay buf off bs)"
  by (simp add: buf_write_def)

lemma buf_write_length: "buf_write buf off bs = Inr buf' \<Longrightarrow> length buf' = length buf"
  by (auto simp: buf_write_def split: if_splits)

section \<open>Running a step function over a list of events\<close>

fun run_steps :: "('s \<Rightarrow> 'e \<Rightarrow> 's res) \<Rightarrow> 's \<Rightarrow> 'e list \<Rightarrow> 's res" where
  "run_steps f s [] = Inr s"
| "run_steps f s (e # es) = bind_res (f s e) (\<lambda>s'. run_steps f s' es)"

lemma run_steps_append:
  "run_steps f s (xs @ ys) = bind_res (run_steps f s xs) (\<lambda>s'. run_steps f s' ys)"
  by (induction xs arbitrary: s) (simp_all add: bind_res_assoc)

text \<open>
  The contract of a stateful component: its operation keeps an invariant (it may still
  fault), and, in the extended contract, never faults on the events its caller may send.
\<close>

locale invariant_machine =
  fixes step :: "'s \<Rightarrow> 'e \<Rightarrow> 's res"
    and invar :: "'s \<Rightarrow> bool"
  assumes step_invar: "invar s \<Longrightarrow> step s e = Inr s' \<Longrightarrow> invar s'"
begin

lemma run_invar: "invar s \<Longrightarrow> run_steps step s es = Inr s' \<Longrightarrow> invar s'"
  by (induction es arbitrary: s) (auto elim!: bind_res_eq_InrE dest: step_invar)

end

text \<open>An operation that keeps its invariant, and never faults, on the events its caller may send.\<close>

locale serving_machine =
  fixes step :: "'s \<Rightarrow> 'e \<Rightarrow> 's res" and invar :: "'s \<Rightarrow> bool" and allowed :: "'e \<Rightarrow> bool"
  assumes step_serves: "invar s \<Longrightarrow> allowed e \<Longrightarrow> \<exists>s'. step s e = Inr s' \<and> invar s'"
begin

lemma run_total:
  "invar s \<Longrightarrow> (\<And>e. e \<in> set es \<Longrightarrow> allowed e) \<Longrightarrow>
    \<exists>s'. run_steps step s es = Inr s' \<and> invar s'"
proof (induction es arbitrary: s)
  case Nil
  then show ?case by simp
next
  case (Cons e es)
  then obtain s1 where s1: "step s e = Inr s1" "invar s1"
    using step_serves by fastforce
  with Cons.IH [of s1] Cons.prems(2) show ?case by simp
qed

end

text \<open>
  A run of an abstract specification, and the contract of a component that implements it: each step it is asked for does
  what the specification allows, as the abstraction shows it, or it is a hazard the contract names and faults.
\<close>

inductive spec_run :: "('a \<Rightarrow> 'e \<Rightarrow> 'a \<Rightarrow> bool) \<Rightarrow> 'a \<Rightarrow> 'e list \<Rightarrow> 'a \<Rightarrow> bool" for spec where
  stop: "spec_run spec a [] a"
| step: "spec a e b \<Longrightarrow> spec_run spec b es c \<Longrightarrow> spec_run spec a (e # es) c"

inductive_simps spec_run_simps: "spec_run spec a [] c" "spec_run spec a (e # es) c"

locale refining_machine =
  fixes step :: "'s \<Rightarrow> 'e \<Rightarrow> 's res" and invar :: "'s \<Rightarrow> bool" and allowed :: "'e \<Rightarrow> bool"
    and abs :: "'s \<Rightarrow> 'a" and spec :: "'a \<Rightarrow> 'e \<Rightarrow> 'a \<Rightarrow> bool" and hazard :: "'s \<Rightarrow> 'e \<Rightarrow> fault \<Rightarrow> bool"
  assumes step_refines: "invar s \<Longrightarrow> allowed e \<Longrightarrow>
    (\<exists>s'. step s e = Inr s' \<and> invar s' \<and> spec (abs s) e (abs s')) \<or> (\<exists>f. step s e = Inl f \<and> hazard s e f)"
begin

lemma run_refines:
  "invar s \<Longrightarrow> (\<And>e. e \<in> set es \<Longrightarrow> allowed e) \<Longrightarrow>
    (\<exists>s'. run_steps step s es = Inr s' \<and> invar s' \<and> spec_run spec (abs s) es (abs s')) \<or>
    (\<exists>before e rest s' f. es = before @ e # rest \<and> run_steps step s before = Inr s' \<and> spec_run spec (abs s) before (abs s') \<and>
       hazard s' e f \<and> run_steps step s es = Inl f)"
proof (induction es arbitrary: s)
  case Nil
  then show ?case by (simp add: spec_run.stop)
next
  case (Cons e es)
  from step_refines [OF Cons.prems(1), of e] Cons.prems(2) consider
    (goes) s1 where "step s e = Inr s1" "invar s1" "spec (abs s) e (abs s1)"
    | (stops) f where "step s e = Inl f" "hazard s e f" by auto
  then show ?case
  proof cases
    case goes
    from Cons.IH [OF goes(2)] Cons.prems(2) consider
      s' where "run_steps step s1 es = Inr s'" "invar s'" "spec_run spec (abs s1) es (abs s')"
      | before e' rest s' f where "es = before @ e' # rest" "run_steps step s1 before = Inr s'" "spec_run spec (abs s1) before (abs s')"
        "hazard s' e' f" "run_steps step s1 es = Inl f" by fastforce
    then show ?thesis
    proof cases
      case 1
      with goes show ?thesis by (auto intro: spec_run.step)
    next
      case 2
      with goes have "e # es = (e # before) @ e' # rest" "run_steps step s (e # before) = Inr s'"
        "spec_run spec (abs s) (e # before) (abs s')" "run_steps step s (e # es) = Inl f" by (auto intro: spec_run.step)
      with 2(4) show ?thesis by blast
    qed
  next
    case stops
    then show ?thesis
      by (intro disjI2 exI [of _ "[]"] exI [of _ e] exI [of _ es] exI [of _ s] exI [of _ f]) (simp add: spec_run.stop)
  qed
qed

end

locale total_machine = invariant_machine +
  fixes allowed :: "'e \<Rightarrow> bool"
  assumes step_total: "invar s \<Longrightarrow> allowed e \<Longrightarrow> \<exists>s'. step s e = Inr s'"

sublocale total_machine \<subseteq> serving_machine step invar allowed
proof (unfold_locales, goal_cases)
  case (1 s e)
  then show ?case using step_total [of s e] step_invar [of s e] by blast
qed


section \<open>Codecs of a stream of messages\<close>

text \<open>
  An encoder with a state (a running status, a clock) turns a message into bytes; a decoder
  with the same state takes one message off the front of a stream. The contract: what was
  encoded is decoded, whatever follows it. The encoder of a list, and the decoder that reads
  to the end of the stream, with a bound on the number of messages as fuel.
\<close>

fun enc_list :: "('s \<Rightarrow> 'm \<Rightarrow> bytes \<times> 's) \<Rightarrow> 's \<Rightarrow> 'm list \<Rightarrow> bytes \<times> 's" where
  "enc_list enc s [] = ([], s)"
| "enc_list enc s (m # ms) =
     (let (bs, s') = enc s m; (bs', s'') = enc_list enc s' ms in (bs @ bs', s''))"

fun dec_list :: "('s \<Rightarrow> bytes \<Rightarrow> ('m \<times> 's \<times> bytes) option) \<Rightarrow> nat \<Rightarrow> 's \<Rightarrow> bytes \<Rightarrow> 'm list option" where
  "dec_list dec 0 s bs = (if bs = [] then Some [] else None)"
| "dec_list dec (Suc n) s bs =
     (if bs = [] then Some []
      else case dec s bs of
        None \<Rightarrow> None
      | Some (m, s', rest) \<Rightarrow> map_option ((#) m) (dec_list dec n s' rest))"

fun valid_list :: "('s \<Rightarrow> 'm \<Rightarrow> bytes \<times> 's) \<Rightarrow> ('s \<Rightarrow> 'm \<Rightarrow> bool) \<Rightarrow> 's \<Rightarrow> 'm list \<Rightarrow> bool" where
  "valid_list enc valid s [] = True"
| "valid_list enc valid s (m # ms) = (valid s m \<and> valid_list enc valid (snd (enc s m)) ms)"

locale stream_codec =
  fixes enc :: "'s \<Rightarrow> 'm \<Rightarrow> bytes \<times> 's"
    and dec :: "'s \<Rightarrow> bytes \<Rightarrow> ('m \<times> 's \<times> bytes) option"
    and valid :: "'s \<Rightarrow> 'm \<Rightarrow> bool"
    and invar :: "'s \<Rightarrow> bool"
    and max_len :: nat
  assumes dec_enc: "invar s \<Longrightarrow> valid s m \<Longrightarrow> enc s m = (bs, s') \<Longrightarrow> dec s (bs @ rest) = Some (m, s', rest)"
    and enc_invar: "invar s \<Longrightarrow> valid s m \<Longrightarrow> enc s m = (bs, s') \<Longrightarrow> invar s'"
    and enc_length: "invar s \<Longrightarrow> valid s m \<Longrightarrow> enc s m = (bs, s') \<Longrightarrow> 0 < length bs \<and> length bs \<le> max_len"
begin

lemma dec_enc_list:
  "invar s \<Longrightarrow> valid_list enc valid s ms \<Longrightarrow> length ms \<le> n \<Longrightarrow>
     dec_list dec n s (fst (enc_list enc s ms)) = Some ms"
proof (induction ms arbitrary: s n)
  case Nil
  then show ?case by (cases n) simp_all
next
  case (Cons m ms)
  obtain bs s' where e: "enc s m = (bs, s')" by (cases "enc s m")
  obtain k where n: "n = Suc k" and k: "length ms \<le> k" using Cons.prems(3) by (cases n) auto
  have s': "invar s'" "bs \<noteq> []" using enc_invar [OF _ _ e] enc_length [OF _ _ e] Cons.prems by auto
  obtain bs' s'' where e': "enc_list enc s' ms = (bs', s'')" by (cases "enc_list enc s' ms")
  have "dec_list dec k s' bs' = Some ms"
    using Cons.IH [OF s'(1) _ k] Cons.prems(2) e e' by simp
  with s'(2) dec_enc [OF Cons.prems(1) _ e, of bs'] Cons.prems(2) e' show ?case
    by (simp add: n e)
qed

lemma enc_list_length:
  "invar s \<Longrightarrow> valid_list enc valid s ms \<Longrightarrow> length (fst (enc_list enc s ms)) \<le> max_len * length ms"
proof (induction ms arbitrary: s)
  case (Cons m ms)
  obtain bs s' where e: "enc s m = (bs, s')" by (cases "enc s m")
  obtain bs' s'' where e': "enc_list enc s' ms = (bs', s'')" by (cases "enc_list enc s' ms")
  have "invar s'" "length bs \<le> max_len"
    using enc_invar [OF _ _ e] enc_length [OF _ _ e] Cons.prems by auto
  with Cons.IH [of s'] Cons.prems(2) e e' show ?case by simp
qed simp

lemma enc_list_nonempty:
  "invar s \<Longrightarrow> valid_list enc valid s ms \<Longrightarrow> length ms \<le> length (fst (enc_list enc s ms))"
proof (induction ms arbitrary: s)
  case (Cons m ms)
  obtain bs s' where e: "enc s m = (bs, s')" by (cases "enc s m")
  obtain bs' s'' where e': "enc_list enc s' ms = (bs', s'')" by (cases "enc_list enc s' ms")
  have "invar s'" "1 \<le> length bs"
    using enc_invar [OF _ _ e] enc_length [OF _ _ e] Cons.prems by (auto simp: Suc_le_eq)
  moreover from this(1) have "length ms \<le> length bs'"
    using Cons.IH [of s'] Cons.prems(2) e e' by simp
  ultimately show ?case using e e' by simp
qed simp

end


section \<open>Registries\<close>

text \<open>
  A bounded table of objects that are looked up by a key. Adding may fail when the table is
  full; an object that may be added is not yet in the table.
\<close>

locale keyed_registry =
  fixes add :: "'s \<Rightarrow> 'p \<Rightarrow> 's option"
    and remove :: "'s \<Rightarrow> 'p \<Rightarrow> 's option"
    and find :: "'s \<Rightarrow> 'k \<Rightarrow> 'p option"
    and members :: "'s \<Rightarrow> 'p set"
    and key :: "'s \<Rightarrow> 'p \<Rightarrow> 'k"
    and invar :: "'s \<Rightarrow> bool"
    and addable :: "'s \<Rightarrow> 'p \<Rightarrow> bool"
    and capacity :: nat
  assumes find_SomeD: "invar s \<Longrightarrow> find s k = Some p \<Longrightarrow> p \<in> members s \<and> key s p = k"
    and find_NoneD: "invar s \<Longrightarrow> find s k = None \<Longrightarrow> p \<in> members s \<Longrightarrow> key s p \<noteq> k"
    and add_SomeD: "invar s \<Longrightarrow> addable s p \<Longrightarrow> add s p = Some s' \<Longrightarrow>
          invar s' \<and> members s' = insert p (members s) \<and> (\<forall>q \<in> members s'. key s' q = key s q)"
    and add_None_iff: "invar s \<Longrightarrow> addable s p \<Longrightarrow> add s p = None \<longleftrightarrow> card (members s) = capacity"
    and remove_ex: "invar s \<Longrightarrow> p \<in> members s \<Longrightarrow> \<exists>s'. remove s p = Some s'"
    and remove_SomeD: "invar s \<Longrightarrow> p \<in> members s \<Longrightarrow> remove s p = Some s' \<Longrightarrow>
          invar s' \<and> members s' = members s - {p} \<and> (\<forall>q \<in> members s'. key s' q = key s q)"
    and addable_new: "addable s p \<Longrightarrow> p \<notin> members s"
begin

lemma find_add_new:
  assumes "invar s" and "addable s p" and "add s p = Some s'"
    and "\<forall>q \<in> members s. key s q \<noteq> key s p"
  shows "find s' (key s p) = Some p"
proof (cases "find s' (key s p)")
  case None
  with add_SomeD [OF assms(1-3)] find_NoneD [of s' "key s p" p] show ?thesis by auto
next
  case (Some q)
  with add_SomeD [OF assms(1-3)] find_SomeD [of s' "key s p" q] assms(4) show ?thesis by auto
qed

lemma find_after_remove:
  assumes "invar s" and "p \<in> members s" and "remove s p = Some s'"
    and "inj_on (key s) (members s)"
  shows "find s' (key s p) = None"
proof (cases "find s' (key s p)")
  case (Some q)
  with remove_SomeD [OF assms(1-3)] find_SomeD [of s' "key s p" q]
  have "q \<in> members s" "q \<noteq> p" "key s q = key s p" by auto
  with assms(2,4) show ?thesis by (auto dest: inj_onD)
qed simp

lemma remove_after_add:
  assumes "invar s" and "addable s p" and "add s p = Some s'"
  shows "\<exists>s''. remove s' p = Some s'' \<and> members s'' = members s \<and> invar s''"
proof -
  have s': "invar s'" "members s' = insert p (members s)"
    using add_SomeD [OF assms] by auto
  then obtain s'' where "remove s' p = Some s''" using remove_ex by fastforce
  with remove_SomeD [OF s'(1) _ this] s'(2) addable_new [OF assms(2)] show ?thesis by auto
qed

end

text \<open>
  Iterating over a collection with a cursor: \<open>next\<close> of no cursor is the first element, and of
  an element its successor. \<open>visit\<close> follows the cursor, with fuel.
\<close>

fun visit :: "('s \<Rightarrow> 'p option \<Rightarrow> 'p option) \<Rightarrow> nat \<Rightarrow> 's \<Rightarrow> 'p option \<Rightarrow> 'p list" where
  "visit nxt 0 s c = []"
| "visit nxt (Suc n) s c = (case nxt s c of None \<Rightarrow> [] | Some p \<Rightarrow> p # visit nxt n s (Some p))"

locale cursor_iteration =
  fixes nxt :: "'s \<Rightarrow> 'p option \<Rightarrow> 'p option"
    and elements :: "'s \<Rightarrow> 'p list"
    and invar :: "'s \<Rightarrow> bool"
  assumes nxt_None: "invar s \<Longrightarrow> nxt s None = (case elements s of [] \<Rightarrow> None | p # _ \<Rightarrow> Some p)"
    and nxt_Some: "invar s \<Longrightarrow> elements s = ps @ p # qs \<Longrightarrow>
          nxt s (Some p) = (case qs of [] \<Rightarrow> None | q # _ \<Rightarrow> Some q)"
begin

lemma visit_from:
  "invar s \<Longrightarrow> elements s = ps @ p # qs \<Longrightarrow> length qs < n \<Longrightarrow> visit nxt n s (Some p) = qs"
proof (induction qs arbitrary: ps p n)
  case Nil
  then show ?case by (cases n) (simp_all add: nxt_Some)
next
  case (Cons q qs)
  obtain k where n: "n = Suc k" "length qs < k" using Cons.prems(3) by (cases n) auto
  have "visit nxt k s (Some q) = qs"
    using Cons.IH [of "ps @ [p]" q k] Cons.prems(1,2) n(2) by simp
  then show ?case using nxt_Some [OF Cons.prems(1,2)] by (simp add: n(1))
qed

lemma visit_all: "invar s \<Longrightarrow> length (elements s) < n \<Longrightarrow> visit nxt n s None = elements s"
proof (cases "elements s")
  case Nil
  assume "invar s" "length (elements s) < n"
  with Nil show ?thesis by (cases n) (simp_all add: nxt_None)
next
  case (Cons p ps)
  assume i: "invar s" and "length (elements s) < n"
  then obtain k where k: "n = Suc k" "length ps < k" using Cons by (cases n) auto
  have "visit nxt k s (Some p) = ps" using visit_from [OF i, of "[]" p ps k] Cons k(2) by simp
  then show ?thesis using i Cons by (simp add: k(1) nxt_None)
qed

end


section \<open>Big-endian numbers\<close>

definition be16 :: "u16 \<Rightarrow> bytes" where
  "be16 v = [ucast (drop_bit 8 v AND 0xff), ucast (v AND 0xff)]"

definition be32 :: "u32 \<Rightarrow> bytes" where
  "be32 v = [ucast (drop_bit 24 v AND 0xff), ucast (drop_bit 16 v AND 0xff),
             ucast (drop_bit 8 v AND 0xff), ucast (v AND 0xff)]"

definition be16_of :: "u8 \<Rightarrow> u8 \<Rightarrow> u16" where
  "be16_of a b = push_bit 8 (ucast a) OR ucast b"

definition be32_of :: "u8 \<Rightarrow> u8 \<Rightarrow> u8 \<Rightarrow> u8 \<Rightarrow> u32" where
  "be32_of a b c d = push_bit 24 (ucast a) OR push_bit 16 (ucast b) OR push_bit 8 (ucast c) OR ucast d"

lemma mask_8: "(0xff :: 'a :: len word) = mask 8"
  by (simp add: mask_eq_exp_minus_1)

lemma be16_inverse: "be16_of (ucast (drop_bit 8 v AND 0xff)) (ucast (v AND 0xff)) = v"
proof (rule bit_word_eqI)
  fix n assume "n < LENGTH(16)"
  then show "bit (be16_of (ucast (drop_bit 8 v AND 0xff)) (ucast (v AND 0xff))) n = bit v n"
    by (cases "n < 8") (auto simp: be16_of_def mask_8 bit_simps)
qed

lemma be32_inverse:
  "be32_of (ucast (drop_bit 24 v AND 0xff)) (ucast (drop_bit 16 v AND 0xff))
     (ucast (drop_bit 8 v AND 0xff)) (ucast (v AND 0xff)) = v"
proof (rule bit_word_eqI)
  fix n assume "n < LENGTH(32)"
  then show "bit (be32_of (ucast (drop_bit 24 v AND 0xff)) (ucast (drop_bit 16 v AND 0xff))
     (ucast (drop_bit 8 v AND 0xff)) (ucast (v AND 0xff))) n = bit v n"
    by (cases "n < 8"; cases "n < 16"; cases "n < 24") (auto simp: be32_of_def mask_8 bit_simps)
qed

lemma length_be [simp]: "length (be16 v) = 2" "length (be32 w) = 4"
  by (simp_all add: be16_def be32_def)

section \<open>Values in a block of memory\<close>

text \<open>
  Little-endian layout of the target, and the contract of a type of values that are stored in
  a block: reading gives what was written, and a write elsewhere does not change it. The
  members of a union are such values at offsets of one block.
\<close>

definition le32 :: "u32 \<Rightarrow> bytes" where "le32 v = rev (be32 v)"

fun le32_of :: "bytes \<Rightarrow> u32" where
  "le32_of [a, b, c, d] = be32_of d c b a"
| "le32_of _ = 0"

definition le64 :: "u64 \<Rightarrow> bytes" where "le64 v = le32 (ucast v) @ le32 (ucast (drop_bit 32 v))"

definition le64_of :: "bytes \<Rightarrow> u64" where
  "le64_of bs = push_bit 32 (ucast (le32_of (drop 4 bs))) OR ucast (le32_of (take 4 bs))"

definition block_get :: "nat \<Rightarrow> (bytes \<Rightarrow> 'v) \<Rightarrow> nat \<Rightarrow> bytes \<Rightarrow> 'v" where
  "block_get n dec off d = dec (take n (drop off d))"

definition block_put :: "('v \<Rightarrow> bytes) \<Rightarrow> nat \<Rightarrow> 'v \<Rightarrow> bytes \<Rightarrow> bytes" where
  "block_put enc off v d = overlay d off (enc v)"

lemma slice_overlay_same:
  "length bs = n \<Longrightarrow> off + n \<le> length d \<Longrightarrow> take n (drop off (overlay d off bs)) = bs"
  by (simp add: overlay_def)

lemma slice_overlay_other:
  assumes "o1 + n \<le> o2 \<or> o2 + length bs \<le> o1" and "o2 + length bs \<le> length d"
  shows "take n (drop o1 (overlay d o2 bs)) = take n (drop o1 d)"
  using assms(1)
proof
  assume "o1 + n \<le> o2"
  then show ?thesis using assms(2) by (simp add: overlay_def drop_take)
next
  assume "o2 + length bs \<le> o1"
  then show ?thesis using assms(2) by (simp add: overlay_def)
qed

locale stored_value =
  fixes width :: nat
    and enc :: "'v \<Rightarrow> bytes"
    and dec :: "bytes \<Rightarrow> 'v"
  assumes enc_width: "length (enc v) = width"
    and dec_enc: "dec (enc v) = v"
begin

lemma get_put: "off + width \<le> length d \<Longrightarrow> block_get width dec off (block_put enc off v d) = v"
  by (simp add: block_get_def block_put_def slice_overlay_same enc_width dec_enc)

lemma get_overlay:
  "off + width \<le> o2 \<or> o2 + length bs \<le> off \<Longrightarrow> o2 + length bs \<le> length d \<Longrightarrow>
     block_get width dec off (overlay d o2 bs) = block_get width dec off d"
  by (simp add: block_get_def slice_overlay_other)

lemma put_slice:
  "o1 + n \<le> off \<or> off + width \<le> o1 \<Longrightarrow> off + width \<le> length d \<Longrightarrow>
     take n (drop o1 (block_put enc off v d)) = take n (drop o1 d)"
  by (simp add: block_put_def slice_overlay_other enc_width)

lemma put_length: "off + width \<le> length d \<Longrightarrow> length (block_put enc off v d) = length d"
  by (simp add: block_put_def enc_width)

end

lemma le32_inverse: "le32_of (le32 v) = v"
  by (simp add: le32_def be32_def be32_inverse)

interpretation word32: stored_value 4 le32 le32_of
  by unfold_locales (simp_all add: le32_inverse, simp add: le32_def)

lemma le64_inverse: "le64_of (le64 v) = v"
proof -
  have "le64_of (le64 v) = push_bit 32 (ucast (ucast (drop_bit 32 v) :: u32)) OR ucast (ucast v :: u32)"
    by (simp add: le64_of_def le64_def word32.enc_width le32_inverse)
  also have "... = v"
  proof (rule bit_word_eqI)
    fix n assume "n < LENGTH(64)"
    then show "bit (push_bit 32 (ucast (ucast (drop_bit 32 v) :: u32)) OR ucast (ucast v :: u32) :: u64) n = bit v n"
      by (cases "n < 32") (auto simp: bit_simps)
  qed
  finally show ?thesis .
qed

interpretation word64: stored_value 8 le64 le64_of
  by unfold_locales (simp_all add: le64_inverse, simp add: le64_def word32.enc_width)

end
