(* ===== verification/Rtp_Session.thy ===== *)
theory Rtp_Session
  imports C_Prelude
begin

text \<open>
  Peers and sessions of the RTP layer of the AppleMIDI driver (\<open>applemidi/rtp.c\<close>, without the
  sending of packets). Peers live in a heap, a map from addresses, since they are shared and
  reference-counted; an address that is not in the map was freed. A buffer is a block of a
  memory of bytes, and a pointer to data is \<open>NULL\<close> or a block and an offset. What \<open>kmalloc\<close>
  returns is a parameter: the address, and the old contents of the object, of which the code
  sets the fields it sets. \<open>unsigned long\<close> and \<open>size_t\<close> have 32 bits.
\<close>

section \<open>Data\<close>

definition RTP_MAX_PEERS :: nat where "RTP_MAX_PEERS = 16"
definition RTP_BUF_LEN :: u32 where "RTP_BUF_LEN = 512"
definition RTP_IOV_LEN :: nat where "RTP_IOV_LEN = 16"

lemmas rtp_sizes = RTP_MAX_PEERS_def RTP_BUF_LEN_def RTP_IOV_LEN_def

datatype mem_ptr = Null | In_block nat nat

type_synonym memory = "nat \<rightharpoonup> bytes"

definition read_mem :: "memory \<Rightarrow> mem_ptr \<Rightarrow> nat \<Rightarrow> bytes res" where
  "read_mem mem p n =
     (if n = 0 then Inr []
      else case p of
        Null \<Rightarrow> Inl Null_pointer
      | In_block b off \<Rightarrow>
          (case mem b of
             None \<Rightarrow> Inl Use_after_free
           | Some bs \<Rightarrow> if off + n \<le> length bs then Inr (take n (drop off bs)) else Inl Out_of_bounds))"

record iovec =
  iov_base :: mem_ptr
  iov_len :: u32

record sockaddr_in =
  sin_family :: u16
  sin_addr :: u32
  sin_port :: u16

record RTPAddress =
  ssrc :: u32
  addr_size :: int
  addr :: sockaddr_in

record RTPPeer =
  peer_refs :: u32
  address :: RTPAddress
  in_timestamp :: u32
  out_timestamp :: u32
  in_seqnum :: u32
  out_seqnum :: u32
  peer_info :: mem_ptr

type_synonym peer_ptr = nat
type_synonym peer_heap = "peer_ptr \<rightharpoonup> RTPPeer"

record RTPPacketInfo =
  info_peer :: "peer_ptr option"
  padding :: u8
  extension :: u8
  csrc_count :: u8
  marker :: u8
  payload_type :: u8
  sequence_number :: u16
  info_timestamp :: u32
  info_ssrc :: u32
  csrc :: "u32 list"
  total_size :: u32
  payload_size :: u32
  iovlen :: u32
  info_iov :: "iovec list"

record RTPSession =
  session_refs :: u32
  socket :: "nat option"
  self :: RTPAddress
  peers :: "peer_ptr option list"
  session_info :: RTPPacketInfo
  session_iov :: "iovec list"
  buflen :: u32
  buffer :: mem_ptr

section \<open>Peers\<close>

definition get_peer :: "peer_heap \<Rightarrow> peer_ptr \<Rightarrow> RTPPeer res" where
  "get_peer h p = (case h p of None \<Rightarrow> Inl Use_after_free | Some r \<Rightarrow> Inr r)"

text \<open>\<open>fresh\<close> is the result of \<open>kmalloc\<close>; the code does not compare it with \<open>NULL\<close>.\<close>

definition RTPPeerCreate ::
    "peer_ptr option \<Rightarrow> u32 \<Rightarrow> int \<Rightarrow> sockaddr_in \<Rightarrow> peer_heap \<Rightarrow> (peer_ptr \<times> peer_heap) res" where
  "RTPPeerCreate fresh s sz a h =
     bind_res (deref fresh) (\<lambda>p.
       Inr (p, h(p \<mapsto> \<lparr>peer_refs = 1, address = \<lparr>ssrc = s, addr_size = sz, addr = a\<rparr>,
                        in_timestamp = 0, out_timestamp = 0, in_seqnum = 0, out_seqnum = 0,
                        peer_info = Null\<rparr>)))"

definition RTPPeerRetain :: "peer_ptr \<Rightarrow> peer_heap \<Rightarrow> peer_heap res" where
  "RTPPeerRetain p h =
     bind_res (get_peer h p) (\<lambda>r. Inr (h(p \<mapsto> r\<lparr>peer_refs := peer_refs r + 1\<rparr>)))"

definition RTPPeerDestroy :: "peer_ptr \<Rightarrow> peer_heap \<Rightarrow> peer_heap" where
  "RTPPeerDestroy p h = h(p := None)"

definition RTPPeerRelease :: "peer_ptr \<Rightarrow> peer_heap \<Rightarrow> peer_heap res" where
  "RTPPeerRelease p h =
     bind_res (get_peer h p) (\<lambda>r.
       let n = peer_refs r - 1;
           h = h(p \<mapsto> r\<lparr>peer_refs := n\<rparr>)
       in Inr (if n = 0 then RTPPeerDestroy p h else h))"

text \<open>The two result pointers are given by whether they are \<open>NULL\<close>.\<close>

definition RTPPeerGetAddress ::
    "peer_ptr \<Rightarrow> bool \<Rightarrow> bool \<Rightarrow> peer_heap \<Rightarrow> (int \<times> (int \<times> sockaddr_in) option) res" where
  "RTPPeerGetAddress p size_null addr_null h =
     (if size_null \<or> addr_null then Inr (1, None)
      else bind_res (get_peer h p) (\<lambda>r.
             Inr (0, Some (addr_size (address r), addr (address r)))))"

section \<open>The table of peers\<close>

text \<open>
  The probing loop \<open>for (i = 0; i < RTP_MAX_PEERS; i++)\<close> over the slots \<open>(i + off) % RTP_MAX_PEERS\<close>:
  the first slot the test accepts, with \<open>n\<close> iterations left.
\<close>

fun probe :: "(nat \<Rightarrow> bool res) \<Rightarrow> nat \<Rightarrow> nat \<Rightarrow> nat \<Rightarrow> nat option res" where
  "probe test off i 0 = Inr None"
| "probe test off i (Suc n) =
     (let p = (i + off) mod RTP_MAX_PEERS in
      bind_res (test p) (\<lambda>t. if t then Inr (Some p) else probe test off (Suc i) n))"

definition slot_start :: "u32 \<Rightarrow> nat" where
  "slot_start s = unat s mod RTP_MAX_PEERS"

definition RTPSessionAddPeer ::
    "RTPSession \<Rightarrow> peer_ptr \<Rightarrow> peer_heap \<Rightarrow> (int \<times> RTPSession \<times> peer_heap) res" where
  "RTPSessionAddPeer session peer h =
     bind_res (get_peer h peer) (\<lambda>r.
     bind_res (probe (\<lambda>p. Inr (peers session ! p = None)) (slot_start (ssrc (address r))) 0 RTP_MAX_PEERS) (\<lambda>slot.
       case slot of
         None \<Rightarrow> Inr (1, session, h)
       | Some p \<Rightarrow>
           bind_res (RTPPeerRetain peer h) (\<lambda>h.
             Inr (0, session\<lparr>peers := (peers session)[p := Some peer]\<rparr>, h))))"

definition RTPSessionRemovePeer ::
    "RTPSession \<Rightarrow> peer_ptr \<Rightarrow> peer_heap \<Rightarrow> (int \<times> RTPSession \<times> peer_heap) res" where
  "RTPSessionRemovePeer session peer h =
     bind_res (get_peer h peer) (\<lambda>r.
     bind_res (probe (\<lambda>p. Inr (peers session ! p = Some peer)) (slot_start (ssrc (address r))) 0 RTP_MAX_PEERS) (\<lambda>slot.
       case slot of
         None \<Rightarrow> Inr (1, session, h)
       | Some p \<Rightarrow>
           bind_res (RTPPeerRelease peer h) (\<lambda>h.
             Inr (0, session\<lparr>peers := (peers session)[p := None]\<rparr>, h))))"

text \<open>The peer found, \<open>None\<close> where \<open>*peer\<close> is left alone.\<close>

definition RTPSessionFindPeerBySSRC ::
    "RTPSession \<Rightarrow> u32 \<Rightarrow> peer_heap \<Rightarrow> (int \<times> peer_ptr option) res" where
  "RTPSessionFindPeerBySSRC session s h =
     bind_res (probe (\<lambda>p. case peers session ! p of
                        None \<Rightarrow> Inr False
                      | Some q \<Rightarrow> bind_res (get_peer h q) (\<lambda>r. Inr (ssrc (address r) = s)))
                (slot_start s) 0 RTP_MAX_PEERS) (\<lambda>slot.
       case slot of
         None \<Rightarrow> Inr (1, None)
       | Some p \<Rightarrow> Inr (0, peers session ! p))"

definition RTPSessionGetSSRC :: "RTPSession \<Rightarrow> bool \<Rightarrow> int \<times> u32 option" where
  "RTPSessionGetSSRC session ssrc_null =
     (if ssrc_null then (1, None) else (0, Some (ssrc (self session))))"

text \<open>
  \<open>RTPSessionNextPeer\<close>: the index of the given peer, then the first slot behind it that is not
  \<open>NULL\<close>. The outer option is the pointer to the caller's variable.
\<close>

fun slot_of :: "peer_ptr option list \<Rightarrow> nat \<Rightarrow> peer_ptr option \<Rightarrow> nat option" where
  "slot_of [] i peer = None"
| "slot_of (q # qs) i peer = (if q = peer then Some i else slot_of qs (Suc i) peer)"

fun first_peer :: "peer_ptr option list \<Rightarrow> peer_ptr option" where
  "first_peer [] = None"
| "first_peer (q # qs) = (if q = None then first_peer qs else q)"

definition next_peer :: "RTPSession \<Rightarrow> peer_ptr option \<Rightarrow> int \<times> peer_ptr option" where
  "next_peer session peer =
     (if peer = None then (0, first_peer (peers session))
      else case slot_of (peers session) 0 peer of
        None \<Rightarrow> (1, peer)
      | Some i \<Rightarrow> (0, first_peer (drop (Suc i) (peers session))))"

definition RTPSessionNextPeer :: "RTPSession \<Rightarrow> peer_ptr option option \<Rightarrow> int \<times> peer_ptr option option" where
  "RTPSessionNextPeer session peer =
     (case peer of
        None \<Rightarrow> (1, None)
      | Some p \<Rightarrow> map_prod id Some (next_peer session p))"

section \<open>Sessions\<close>

definition init_addr_with_socket :: "RTPAddress \<Rightarrow> RTPAddress" where
  "init_addr_with_socket a = a\<lparr>ssrc := 0, addr_size := 16\<rparr>"

definition session_randomize_ssrc :: "u32 \<Rightarrow> RTPSession \<Rightarrow> RTPSession" where
  [simp]: "session_randomize_ssrc random session = session\<lparr>self := (self session)\<lparr>ssrc := random\<rparr>\<rparr>"

text \<open>
  \<open>raw\<close> is the object \<open>kmalloc\<close> returned, with arrays of the declared lengths, \<open>buf\<close> the block it
  returned for the buffer, if any, and \<open>random\<close> the random number.
\<close>

definition RTPSessionCreate ::
    "RTPSession option \<Rightarrow> (nat \<times> bytes) option \<Rightarrow> u32 \<Rightarrow> nat option \<Rightarrow> memory \<Rightarrow> (RTPSession \<times> memory) res" where
  "RTPSessionCreate raw buf random sock mem =
     bind_res (deref raw) (\<lambda>session.
       let session = session\<lparr>session_refs := 1, socket := sock, self := init_addr_with_socket (self session),
             peers := replicate RTP_MAX_PEERS None, buflen := RTP_BUF_LEN\<rparr>;
           (session, mem) =
             (case buf of
                None \<Rightarrow> (session\<lparr>buffer := Null, buflen := 0\<rparr>, mem)
              | Some (b, bs) \<Rightarrow> (session\<lparr>buffer := In_block b 0\<rparr>, mem(b \<mapsto> bs)));
           iov = session_iov session;
           iov = iov[0 := (iov ! 0)\<lparr>iov_base := buffer session\<rparr>];
           iov = iov[9 := (iov ! 9)\<lparr>iov_len := buflen session\<rparr>];
           iov = take 1 iov @ replicate (RTP_IOV_LEN - 1) \<lparr>iov_base = Null, iov_len = 0\<rparr>;
           session = session_randomize_ssrc random (session\<lparr>session_iov := iov\<rparr>);
           info = (session_info session)\<lparr>info_peer := None, padding := 0, extension := 0, csrc_count := 0,
             marker := 0, payload_type := 0, info_ssrc := ssrc (self session),
             iovlen := of_nat RTP_IOV_LEN, info_iov := iov\<rparr>
       in Inr (session\<lparr>session_info := info\<rparr>, mem))"

fun release_peers :: "peer_ptr option list \<Rightarrow> peer_heap \<Rightarrow> peer_heap res" where
  "release_peers [] h = Inr h"
| "release_peers (None # qs) h = release_peers qs h"
| "release_peers (Some q # qs) h = bind_res (RTPPeerRelease q h) (\<lambda>h. release_peers qs h)"

definition mem_free :: "mem_ptr \<Rightarrow> memory \<Rightarrow> memory" where
  "mem_free p mem = (case p of Null \<Rightarrow> mem | In_block b off \<Rightarrow> mem(b := None))"

definition RTPSessionDestroy :: "RTPSession \<Rightarrow> peer_heap \<Rightarrow> memory \<Rightarrow> (peer_heap \<times> memory) res" where
  "RTPSessionDestroy session h mem =
     bind_res (release_peers (peers session) h) (\<lambda>h. Inr (h, mem_free (buffer session) mem))"

definition RTPSessionRetain :: "RTPSession \<Rightarrow> RTPSession" where
  "RTPSessionRetain session = session\<lparr>session_refs := session_refs session + 1\<rparr>"

text \<open>The session is \<open>None\<close> once it was freed.\<close>

definition RTPSessionRelease ::
    "RTPSession \<Rightarrow> peer_heap \<Rightarrow> memory \<Rightarrow> (RTPSession option \<times> peer_heap \<times> memory) res" where
  "RTPSessionRelease session h mem =
     (let n = session_refs session - 1;
          session = session\<lparr>session_refs := n\<rparr>
      in if n = 0
         then bind_res (RTPSessionDestroy session h mem) (\<lambda>(h, mem). Inr (None, h, mem))
         else Inr (Some session, h, mem))"


section \<open>Probing\<close>

lemma probe_cases:
  assumes "\<And>p. p < RTP_MAX_PEERS \<Longrightarrow> test p = Inr (P p)"
  shows "(\<exists>k < n. P ((i + k + off) mod RTP_MAX_PEERS) \<and>
            probe test off i n = Inr (Some ((i + k + off) mod RTP_MAX_PEERS))) \<or>
         ((\<forall>k < n. \<not> P ((i + k + off) mod RTP_MAX_PEERS)) \<and> probe test off i n = Inr None)"
proof (induction n arbitrary: i)
  case 0
  then show ?case by simp
next
  case (Suc n)
  have "(i + off) mod RTP_MAX_PEERS < RTP_MAX_PEERS" by (simp add: rtp_sizes)
  note t = assms [OF this]
  show ?case
  proof (cases "P ((i + off) mod RTP_MAX_PEERS)")
    case True
    with t show ?thesis by (intro disjI1 exI [of _ 0]) simp
  next
    case False
    have shift: "Suc i + k + off = i + Suc k + off" for k by simp
    have step: "probe test off i (Suc n) = probe test off (Suc i) n" using t False by (simp add: Let_def)
    from Suc [of "Suc i", unfolded shift] show ?thesis
    proof
      assume "\<exists>k<n. P ((i + Suc k + off) mod RTP_MAX_PEERS) \<and>
        probe test off (Suc i) n = Inr (Some ((i + Suc k + off) mod RTP_MAX_PEERS))"
      then show ?thesis using Suc_mono unfolding step by blast
    next
      assume none: "(\<forall>k<n. \<not> P ((i + Suc k + off) mod RTP_MAX_PEERS)) \<and> probe test off (Suc i) n = Inr None"
      have "\<not> P ((i + k + off) mod RTP_MAX_PEERS)" if "k < Suc n" for k
        using that none False by (cases k) auto
      with none show ?thesis unfolding step by blast
    qed
  qed
qed

lemma probe_reaches: "p < RTP_MAX_PEERS \<Longrightarrow> \<exists>k < RTP_MAX_PEERS. (k + off) mod RTP_MAX_PEERS = p"
proof -
  assume p: "p < RTP_MAX_PEERS"
  let ?k = "(p + (RTP_MAX_PEERS - off mod RTP_MAX_PEERS)) mod RTP_MAX_PEERS"
  have "off mod RTP_MAX_PEERS < RTP_MAX_PEERS" by (simp add: rtp_sizes)
  then have "p + (RTP_MAX_PEERS - off mod RTP_MAX_PEERS) + off mod RTP_MAX_PEERS = p + RTP_MAX_PEERS" by simp
  then have "(?k + off) mod RTP_MAX_PEERS = p"
    using p by (metis mod_add_left_eq mod_add_right_eq mod_add_self2 mod_less)
  moreover have "?k < RTP_MAX_PEERS" by (simp add: rtp_sizes)
  ultimately show ?thesis by blast
qed

text \<open>A full round of the loop finds a slot the test accepts exactly if there is one.\<close>

lemma probe_full:
  assumes "\<And>p. p < RTP_MAX_PEERS \<Longrightarrow> test p = Inr (P p)"
  obtains p where "p < RTP_MAX_PEERS" and "P p" and "probe test off 0 RTP_MAX_PEERS = Inr (Some p)"
  | "\<forall>p < RTP_MAX_PEERS. \<not> P p" and "probe test off 0 RTP_MAX_PEERS = Inr None"
proof -
  have m: "x mod RTP_MAX_PEERS < RTP_MAX_PEERS" for x by (simp add: rtp_sizes)
  from probe_cases [of test P RTP_MAX_PEERS 0 off, OF assms] show thesis
  proof
    assume "\<exists>k<RTP_MAX_PEERS. P ((0 + k + off) mod RTP_MAX_PEERS) \<and>
        probe test off 0 RTP_MAX_PEERS = Inr (Some ((0 + k + off) mod RTP_MAX_PEERS))"
    then show thesis using that(1) m by blast
  next
    assume none: "(\<forall>k<RTP_MAX_PEERS. \<not> P ((0 + k + off) mod RTP_MAX_PEERS)) \<and>
        probe test off 0 RTP_MAX_PEERS = Inr None"
    have "\<not> P p" if "p < RTP_MAX_PEERS" for p
      using probe_reaches [OF that, of off] none by auto
    with none show thesis using that(2) by blast
  qed
qed

section \<open>Well-formed tables\<close>

text \<open>The peers of a session; every slot holds another peer, and all of them are alive.\<close>

fun occupied :: "'a option list \<Rightarrow> 'a list" where
  "occupied [] = []"
| "occupied (None # xs) = occupied xs"
| "occupied (Some x # xs) = x # occupied xs"

lemma occupied_append [simp]: "occupied (xs @ ys) = occupied xs @ occupied ys"
  by (induction xs rule: occupied.induct) simp_all

lemma occupied_Cons: "occupied (x # xs) = (case x of None \<Rightarrow> [] | Some y \<Rightarrow> [y]) @ occupied xs"
  by (cases x) simp_all

lemma set_occupied: "q \<in> set (occupied xs) \<longleftrightarrow> Some q \<in> set xs"
  by (induction xs rule: occupied.induct) auto

lemma length_occupied: "length (occupied xs) \<le> length xs"
  by (induction xs rule: occupied.induct) auto

lemma occupied_full: "length (occupied xs) = length xs \<longleftrightarrow> None \<notin> set xs"
proof (induction xs rule: occupied.induct)
  case (2 xs)
  then show ?case using length_occupied [of xs] by simp
qed auto

definition peer_list :: "RTPSession \<Rightarrow> peer_ptr list" where
  "peer_list session = occupied (peers session)"

definition members :: "RTPSession \<Rightarrow> peer_ptr set" where
  "members session = set (peer_list session)"

definition table_ok :: "RTPSession \<Rightarrow> peer_heap \<Rightarrow> bool" where
  "table_ok session h \<longleftrightarrow> length (peers session) = RTP_MAX_PEERS \<and> distinct (peer_list session) \<and>
     (\<forall>q \<in> members session. \<exists>r. h q = Some r \<and> 0 < unat (peer_refs r) \<and> unat (peer_refs r) < 4294967295)"

lemma members_nth: "q \<in> members session \<longleftrightarrow> (\<exists>p < length (peers session). peers session ! p = Some q)"
  unfolding members_def peer_list_def set_occupied by (auto simp: in_set_conv_nth)

lemma table_okD:
  assumes "table_ok session h" and "q \<in> members session"
  obtains r where "h q = Some r" and "0 < unat (peer_refs r)" and "unat (peer_refs r) < 4294967295"
  using assms by (auto simp: table_ok_def)


section \<open>Adding, removing and finding\<close>

lemma occupied_update:
  assumes "slot < length xs"
  shows "xs ! slot = None \<Longrightarrow> set (occupied (xs[slot := Some p])) = insert p (set (occupied xs))"
    and "xs ! slot = None \<Longrightarrow> p \<notin> set (occupied xs) \<Longrightarrow> distinct (occupied xs) \<Longrightarrow>
      distinct (occupied (xs[slot := Some p]))"
    and "xs ! slot = Some p \<Longrightarrow> distinct (occupied xs) \<Longrightarrow>
      set (occupied (xs[slot := None])) = set (occupied xs) - {p} \<and> distinct (occupied (xs[slot := None]))"
proof -
  let ?xs = "take slot xs" and ?ys = "drop (Suc slot) xs"
  have s: "occupied xs = occupied ?xs @ occupied (xs ! slot # ?ys)"
    using id_take_nth_drop [OF assms] by (metis occupied_append)
  have u: "xs[slot := x] = ?xs @ x # ?ys" for x
    using assms by (rule upd_conv_take_nth_drop)
  show "set (occupied (xs[slot := Some p])) = insert p (set (occupied xs))" if "xs ! slot = None"
    using that by (simp add: u s)
  show "distinct (occupied (xs[slot := Some p]))"
    if "xs ! slot = None" "p \<notin> set (occupied xs)" "distinct (occupied xs)"
    using that by (simp add: u s)
  show "set (occupied (xs[slot := None])) = set (occupied xs) - {p} \<and> distinct (occupied (xs[slot := None]))"
    if "xs ! slot = Some p" "distinct (occupied xs)"
    using that by (auto simp: u s)
qed

lemmas table_defs = members_def peer_list_def table_ok_def

text \<open>The three operations on a well-formed table.\<close>

lemma add_peer_cases:
  assumes "table_ok session h" and "h q = Some r"
  obtains (added) slot where "slot < RTP_MAX_PEERS" and "peers session ! slot = None"
      and "RTPSessionAddPeer session q h =
        Inr (0, session\<lparr>peers := (peers session)[slot := Some q]\<rparr>, h(q \<mapsto> r\<lparr>peer_refs := peer_refs r + 1\<rparr>))"
    | (full) "\<forall>p < RTP_MAX_PEERS. peers session ! p \<noteq> None"
      and "RTPSessionAddPeer session q h = Inr (1, session, h)"
proof (rule probe_full [of "\<lambda>p. Inr (peers session ! p = None)" "\<lambda>p. peers session ! p = None"
      "slot_start (ssrc (address r))"], goal_cases)
  case (2 p)
  then show thesis
    using assms(2) by (intro added) (auto simp: RTPSessionAddPeer_def RTPPeerRetain_def get_peer_def)
next
  case 3
  then show thesis
    using assms(2) by (intro full) (auto simp: RTPSessionAddPeer_def get_peer_def)
qed simp

lemma remove_peer_cases:
  assumes "table_ok session h" and "h q = Some r"
  obtains (removed) slot where "slot < RTP_MAX_PEERS" and "peers session ! slot = Some q"
      and "RTPSessionRemovePeer session q h =
        Inr (0, session\<lparr>peers := (peers session)[slot := None]\<rparr>,
             if peer_refs r = 1 then h(q := None) else h(q \<mapsto> r\<lparr>peer_refs := peer_refs r - 1\<rparr>))"
    | (missing) "q \<notin> members session" and "RTPSessionRemovePeer session q h = Inr (1, session, h)"
proof (rule probe_full [of "\<lambda>p. Inr (peers session ! p = Some q)" "\<lambda>p. peers session ! p = Some q"
      "slot_start (ssrc (address r))"], goal_cases)
  case (2 p)
  then show thesis
    using assms(2)
    by (intro removed)
       (auto simp: RTPSessionRemovePeer_def RTPPeerRelease_def RTPPeerDestroy_def get_peer_def Let_def)
next
  case 3
  then show thesis
    using assms
    by (intro missing) (auto simp: RTPSessionRemovePeer_def get_peer_def members_nth table_ok_def)
qed simp

definition peer_ssrc :: "peer_heap \<Rightarrow> peer_ptr \<Rightarrow> u32" where
  "peer_ssrc h q = (case h q of Some r \<Rightarrow> ssrc (address r) | None \<Rightarrow> 0)"

lemma find_peer_cases:
  assumes "table_ok session h"
  obtains (found) q where "q \<in> members session" and "peer_ssrc h q = s"
      and "RTPSessionFindPeerBySSRC session s h = Inr (0, Some q)"
    | (missing) "\<forall>q \<in> members session. peer_ssrc h q \<noteq> s"
      and "RTPSessionFindPeerBySSRC session s h = Inr (1, None)"
proof -
  let ?t = "\<lambda>p. case peers session ! p of None \<Rightarrow> Inr False
      | Some q \<Rightarrow> bind_res (get_peer h q) (\<lambda>r. Inr (ssrc (address r) = s))"
  let ?P = "\<lambda>p. \<exists>q. peers session ! p = Some q \<and> peer_ssrc h q = s"
  have t: "?t p = Inr (?P p)" if "p < RTP_MAX_PEERS" for p
  proof (cases "peers session ! p")
    case (Some q)
    then have "q \<in> members session" using that assms by (auto simp: members_nth table_ok_def)
    with Some show ?thesis by (auto elim: table_okD [OF assms] simp: get_peer_def peer_ssrc_def)
  qed simp
  show thesis
  proof (rule probe_full [OF t, where off = "slot_start s"])
    fix p assume p: "p < RTP_MAX_PEERS" "?P p" "probe ?t (slot_start s) 0 RTP_MAX_PEERS = Inr (Some p)"
    then obtain q where "peers session ! p = Some q" "peer_ssrc h q = s" by blast
    with p assms show thesis
      by (intro found) (auto simp: RTPSessionFindPeerBySSRC_def members_nth table_ok_def)
  next
    assume n: "\<forall>p < RTP_MAX_PEERS. \<not> ?P p" "probe ?t (slot_start s) 0 RTP_MAX_PEERS = Inr None"
    have "peer_ssrc h q \<noteq> s" if "q \<in> members session" for q
      using that n(1) assms unfolding members_nth table_ok_def by auto
    moreover have "RTPSessionFindPeerBySSRC session s h = Inr (1, None)"
      using n(2) by (simp add: RTPSessionFindPeerBySSRC_def)
    ultimately show thesis by (intro missing) auto
  qed
qed


section \<open>The table as a registry and as a collection to iterate over\<close>

type_synonym table = "RTPSession \<times> peer_heap"

fun table_add :: "table \<Rightarrow> peer_ptr \<Rightarrow> table option" where
  "table_add (s, h) p =
     (case RTPSessionAddPeer s p h of
        Inr (r, s', h') \<Rightarrow> if r = 0 then Some (s', h') else None
      | Inl _ \<Rightarrow> None)"

fun table_remove :: "table \<Rightarrow> peer_ptr \<Rightarrow> table option" where
  "table_remove (s, h) p =
     (case RTPSessionRemovePeer s p h of
        Inr (r, s', h') \<Rightarrow> if r = 0 then Some (s', h') else None
      | Inl _ \<Rightarrow> None)"

fun table_find :: "table \<Rightarrow> u32 \<Rightarrow> peer_ptr option" where
  "table_find (s, h) k = (case RTPSessionFindPeerBySSRC s k h of Inr (r, q) \<Rightarrow> q | Inl _ \<Rightarrow> None)"

fun table_addable :: "table \<Rightarrow> peer_ptr \<Rightarrow> bool" where
  "table_addable (s, h) p =
     (p \<notin> members s \<and> (case h p of None \<Rightarrow> False | Some r \<Rightarrow> unat (peer_refs r) < 4294967294))"

fun table_invar :: "table \<Rightarrow> bool" where "table_invar (s, h) = table_ok s h"
fun table_members :: "table \<Rightarrow> peer_ptr set" where "table_members (s, h) = members s"
fun table_key :: "table \<Rightarrow> peer_ptr \<Rightarrow> u32" where "table_key (s, h) p = peer_ssrc h p"

lemma unat_plus_1: "unat (x :: u32) < 4294967295 \<Longrightarrow> unat (x + 1) = unat x + 1"
  by (simp add: unat_word_ariths(1))

lemma full_table_card:
  assumes "table_ok session h"
  shows "(\<forall>p < RTP_MAX_PEERS. peers session ! p \<noteq> None) \<longleftrightarrow> card (members session) = RTP_MAX_PEERS"
proof -
  have "card (members session) = length (occupied (peers session))"
    using assms unfolding table_defs by (metis distinct_card)
  moreover have "None \<notin> set (peers session) \<longleftrightarrow> (\<forall>p < RTP_MAX_PEERS. peers session ! p \<noteq> None)"
    using assms by (auto simp: table_ok_def in_set_conv_nth)
  ultimately show ?thesis
    using assms occupied_full [of "peers session"] by (metis table_ok_def)
qed

lemma table_add_result:
  assumes "table_invar t" and "table_addable t p"
  shows "table_add t p = Some t' \<Longrightarrow>
      table_invar t' \<and> table_members t' = insert p (table_members t) \<and> (\<forall>q. table_key t' q = table_key t q)"
    and "table_add t p = None \<longleftrightarrow> card (table_members t) = RTP_MAX_PEERS"
proof -
  obtain session h where t: "t = (session, h)" by (cases t)
  have ok: "table_ok session h" using assms(1) by (simp add: t)
  obtain r where r: "h p = Some r" "unat (peer_refs r) < 4294967294" and p: "p \<notin> members session"
    using assms(2) by (auto simp: t split: option.splits)
  have len: "length (peers session) = RTP_MAX_PEERS" using ok by (simp add: table_ok_def)
  show "table_invar t' \<and> table_members t' = insert p (table_members t) \<and> (\<forall>q. table_key t' q = table_key t q)"
    if "table_add t p = Some t'"
  proof (cases rule: add_peer_cases [OF ok r(1)])
    case (1 slot)
    let ?h = "h(p \<mapsto> r\<lparr>peer_refs := peer_refs r + 1\<rparr>)"
    have t': "t' = (session\<lparr>peers := (peers session)[slot := Some p]\<rparr>, ?h)"
      using that 1(3) by (simp add: t)
    have "slot < length (peers session)" using 1(1) len by simp
    note u = occupied_update [OF this]
    have "\<exists>r. ?h q = Some r \<and> 0 < unat (peer_refs r) \<and> unat (peer_refs r) < 4294967295"
      if "q \<in> insert p (members session)" for q
      using that r unat_plus_1 [of "peer_refs r"] ok by (auto simp: table_ok_def)
    then show ?thesis
      using u(1,2) [OF 1(2)] ok p len
      by (auto simp: t t' table_defs peer_ssrc_def r(1))
  qed (use that in \<open>simp add: t\<close>)
  show "table_add t p = None \<longleftrightarrow> card (table_members t) = RTP_MAX_PEERS"
  proof (cases rule: add_peer_cases [OF ok r(1)])
    case (1 slot)
    then show ?thesis using full_table_card [OF ok] by (auto simp: t)
  next
    case 2
    then show ?thesis using full_table_card [OF ok] by (auto simp: t)
  qed
qed

lemma table_remove_result:
  assumes "table_invar t" and "p \<in> table_members t"
  shows "\<exists>t'. table_remove t p = Some t'"
    and "table_remove t p = Some t' \<Longrightarrow>
      table_invar t' \<and> table_members t' = table_members t - {p} \<and>
      (\<forall>q \<in> table_members t'. table_key t' q = table_key t q)"
proof -
  obtain session h where t: "t = (session, h)" by (cases t)
  have ok: "table_ok session h" and p: "p \<in> members session" using assms by (simp_all add: t)
  obtain r where r: "h p = Some r" using table_okD [OF ok p] .
  have len: "length (peers session) = RTP_MAX_PEERS" using ok by (simp add: table_ok_def)
  let ?h = "if peer_refs r = 1 then h(p := None) else h(p \<mapsto> r\<lparr>peer_refs := peer_refs r - 1\<rparr>)"
  from remove_peer_cases [OF ok r] p obtain slot where slot: "slot < RTP_MAX_PEERS" "peers session ! slot = Some p"
    and res: "RTPSessionRemovePeer session p h = Inr (0, session\<lparr>peers := (peers session)[slot := None]\<rparr>, ?h)"
    by metis
  then show "\<exists>t'. table_remove t p = Some t'" by (simp add: t)
  show "table_invar t' \<and> table_members t' = table_members t - {p} \<and>
      (\<forall>q \<in> table_members t'. table_key t' q = table_key t q)" if "table_remove t p = Some t'"
  proof -
    have t': "t' = (session\<lparr>peers := (peers session)[slot := None]\<rparr>, ?h)"
      using that res by (simp add: t)
    have "slot < length (peers session)" using slot(1) len by simp
    note u = occupied_update(3) [OF this slot(2)]
    have d: "distinct (occupied (peers session))" using ok by (simp add: table_defs)
    have "?h q = h q" if "q \<noteq> p" for q using that by simp
    then show ?thesis
      using u [OF d] ok len by (auto simp: t t' table_defs peer_ssrc_def)
  qed
qed

lemma table_find_result:
  assumes "table_invar t"
  shows "table_find t k = Some p \<Longrightarrow> p \<in> table_members t \<and> table_key t p = k"
    and "table_find t k = None \<Longrightarrow> p \<in> table_members t \<Longrightarrow> table_key t p \<noteq> k"
proof -
  obtain session h where t: "t = (session, h)" by (cases t)
  have ok: "table_ok session h" using assms by (simp add: t)
  show "p \<in> table_members t \<and> table_key t p = k" if "table_find t k = Some p"
    by (cases rule: find_peer_cases [OF ok, of k]) (use that in \<open>auto simp: t\<close>)
  show "table_key t p \<noteq> k" if "table_find t k = None" "p \<in> table_members t"
    by (cases rule: find_peer_cases [OF ok, of k]) (use that in \<open>auto simp: t\<close>)
qed

interpretation peer_table: keyed_registry table_add table_remove table_find table_members table_key
  table_invar table_addable RTP_MAX_PEERS
proof (unfold_locales, goal_cases)
  case (1 t k p)
  then show ?case by (rule table_find_result(1))
next
  case (2 t k p)
  then show ?case by (rule table_find_result(2))
next
  case (3 t p t')
  from table_add_result(1) [OF this] show ?case by simp
next
  case (4 t p)
  then show ?case by (rule table_add_result(2))
next
  case (5 t p)
  then show ?case by (rule table_remove_result(1))
next
  case (6 t p t')
  then show ?case by (rule table_remove_result(2))
next
  case (7 t p)
  then show ?case by (cases t) simp
qed


text \<open>Iteration: the cursor of \<open>RTPSessionNextPeer\<close> runs over the peers in the order of their slots.\<close>

definition table_next :: "RTPSession \<Rightarrow> peer_ptr option \<Rightarrow> peer_ptr option" where
  "table_next session c = snd (next_peer session c)"

lemma first_peer_eq: "first_peer xs = (case occupied xs of [] \<Rightarrow> None | q # _ \<Rightarrow> Some q)"
  by (induction xs rule: occupied.induct) auto

lemma slot_of_append:
  "Some p \<notin> set xs \<Longrightarrow> slot_of (xs @ Some p # ys) i (Some p) = Some (i + length xs)"
  by (induction xs arbitrary: i) auto

lemma slot_of_None: "slot_of xs i c = None \<longleftrightarrow> c \<notin> set xs"
  by (induction xs arbitrary: i) auto

lemma occupied_split:
  assumes "occupied xs = ps @ p # qs" and "distinct (occupied xs)"
  obtains ys zs where "xs = ys @ Some p # zs" and "Some p \<notin> set ys" and "occupied ys = ps" and "occupied zs = qs"
proof -
  have "Some p \<in> set xs" using assms(1) by (simp flip: set_occupied)
  then obtain ys zs where xs: "xs = ys @ Some p # zs" "Some p \<notin> set ys" by (meson split_list_first)
  then have e: "occupied ys @ p # occupied zs = ps @ p # qs" using assms(1) by simp
  have "p \<notin> set (occupied ys)" "p \<notin> set (occupied zs)" using xs assms(2) by auto
  with e have "occupied ys = ps \<and> occupied zs = qs" by (simp add: append_Cons_eq_iff)
  with xs that show thesis by blast
qed

interpretation peer_cursor: cursor_iteration table_next peer_list "\<lambda>s. distinct (peer_list s)"
proof (unfold_locales, goal_cases)
  case (1 s)
  show ?case by (simp add: table_next_def next_peer_def first_peer_eq peer_list_def)
next
  case (2 s ps p qs)
  from 2 obtain ys zs where "peers s = ys @ Some p # zs" "Some p \<notin> set ys" "occupied zs = qs"
    using occupied_split [of "peers s" ps p qs] unfolding peer_list_def by metis
  then show ?case by (simp add: table_next_def next_peer_def slot_of_append first_peer_eq)
qed

lemma next_peer_stale: "q \<notin> members session \<Longrightarrow> next_peer session (Some q) = (1, Some q)"
  using slot_of_None [of "peers session" 0 "Some q"]
  by (simp add: next_peer_def members_def peer_list_def set_occupied)

section \<open>The end of a session\<close>

lemma release_peers_last:
  "distinct (occupied xs) \<Longrightarrow> (\<forall>q \<in> set (occupied xs). \<exists>r. h q = Some r \<and> peer_refs r = 1) \<Longrightarrow>
     release_peers xs h = Inr (h |` (- set (occupied xs)))"
proof (induction xs h rule: release_peers.induct)
  case (3 q qs h)
  then obtain r where r: "h q = Some r" "peer_refs r = 1" by auto
  then have rel: "RTPPeerRelease q h = Inr (h(q := None))"
    by (simp add: RTPPeerRelease_def RTPPeerDestroy_def get_peer_def Let_def)
  have live: "\<forall>q' \<in> set (occupied qs). \<exists>r. (h(q := None)) q' = Some r \<and> peer_refs r = 1"
    using "3.prems" by auto
  have "distinct (occupied qs)" using "3.prems"(1) by simp
  then have "release_peers qs (h(q := None)) = Inr (h(q := None) |` (- set (occupied qs)))"
    using live by (rule "3.IH" [OF rel])
  moreover have "h(q := None) |` (- set (occupied qs)) = h |` (- set (occupied (Some q # qs)))"
    by (rule ext) (auto simp: restrict_map_def)
  moreover have "release_peers (Some q # qs) h = release_peers qs (h(q := None))"
    by (simp only: release_peers.simps rel bind_res_Inr)
  ultimately show ?case by metis
qed auto

section \<open>Properties\<close>

definition sample_addr :: sockaddr_in where
  "sample_addr = \<lparr>sin_family = 2, sin_addr = 0xC0A80002, sin_port = 5004\<rparr>"

definition sample_raw_info :: RTPPacketInfo where
  "sample_raw_info = \<lparr>info_peer = None, padding = 0, extension = 0, csrc_count = 0, marker = 0,
     payload_type = 0, sequence_number = 0, info_timestamp = 0, info_ssrc = 0, csrc = replicate 16 0,
     total_size = 0, payload_size = 0, iovlen = 0, info_iov = []\<rparr>"

definition sample_session :: RTPSession where
  "sample_session = \<lparr>session_refs = 1, socket = Some 3,
     self = \<lparr>ssrc = 0xCAFE, addr_size = 16, addr = sample_addr\<rparr>, peers = replicate 16 None,
     session_info = sample_raw_info, session_iov = [], buflen = 512, buffer = In_block 0 0\<rparr>"

lemma occupied_replicate [simp]: "occupied (replicate n None) = []"
  by (induction n) simp_all

lemma sample_session_ok [simp]: "table_ok sample_session h" "members sample_session = {}"
  by (simp_all add: table_defs sample_session_def rtp_sizes)

text \<open>
  C17. Life of a peer: a peer that is created, added to a table with a free slot and given up by
  its creator is alive and is the one found by its SSRC (when no other peer has that SSRC);
  removing it from the table frees it and leaves table and heap as they were before.
\<close>

theorem peer_lifecycle:
  assumes "table_ok session h" and "card (members session) < RTP_MAX_PEERS"
    and "h p = None" and "\<forall>q \<in> members session. peer_ssrc h q \<noteq> s"
  shows "\<exists>h1 session2 h2 h3 session4.
    RTPPeerCreate (Some p) s sz a h = Inr (p, h1) \<and>
    RTPSessionAddPeer session p h1 = Inr (0, session2, h2) \<and>
    RTPPeerRelease p h2 = Inr h3 \<and>
    RTPSessionFindPeerBySSRC session2 s h3 = Inr (0, Some p) \<and>
    RTPSessionRemovePeer session2 p h3 = Inr (0, session4, h) \<and>
    members session4 = members session"
proof -
  let ?r = "\<lparr>peer_refs = 1, address = \<lparr>ssrc = s, addr_size = sz, addr = a\<rparr>, in_timestamp = 0,
    out_timestamp = 0, in_seqnum = 0, out_seqnum = 0, peer_info = Null\<rparr>"
  let ?h1 = "h(p \<mapsto> ?r)"
  have p: "p \<notin> members session" using assms(1,3) by (auto elim: table_okD)
  then have keep: "?h1 q = h q" if "q \<in> members session" for q using that by auto
  have ok1: "table_ok session ?h1" using assms(1) keep by (simp add: table_ok_def)
  obtain slot where slot: "slot < RTP_MAX_PEERS" "peers session ! slot = None"
    and add: "RTPSessionAddPeer session p ?h1 =
      Inr (0, session\<lparr>peers := (peers session)[slot := Some p]\<rparr>, ?h1(p \<mapsto> ?r\<lparr>peer_refs := 2\<rparr>))"
    using add_peer_cases [OF ok1, of p ?r] full_table_card [OF assms(1)] assms(2) by fastforce
  let ?s2 = "session\<lparr>peers := (peers session)[slot := Some p]\<rparr>"
  let ?h2 = "?h1(p \<mapsto> ?r\<lparr>peer_refs := 2\<rparr>)"
  have rel: "RTPPeerRelease p ?h2 = Inr ?h1"
    by (simp add: RTPPeerRelease_def get_peer_def Let_def)
  have add': "table_add (session, ?h1) p = Some (?s2, ?h2)" by (simp add: add)
  have t2: "table_ok ?s2 ?h2 \<and> members ?s2 = insert p (members session)"
    using peer_table.add_SomeD [OF _ _ add'] ok1 p by simp
  then have ok2: "table_ok ?s2 ?h1" by (auto simp: table_ok_def split: if_splits)
  have "peer_ssrc ?h1 q \<noteq> s" if "q \<in> members session" for q
    using that keep [OF that] assms(4) by (simp add: peer_ssrc_def)
  then have find: "RTPSessionFindPeerBySSRC ?s2 s ?h1 = Inr (0, Some p)"
    using find_peer_cases [OF ok2, of s] t2 by (force simp: peer_ssrc_def)
  have len: "slot < length (peers session)" using slot(1) assms(1) by (simp add: table_ok_def)
  obtain s4 where rem: "RTPSessionRemovePeer ?s2 p ?h1 = Inr (0, s4, ?h1(p := None))"
    using remove_peer_cases [OF ok2, of p ?r] t2 by fastforce
  have "table_remove (?s2, ?h1) p = Some (s4, ?h1(p := None))" by (simp add: rem)
  then have "members s4 = members session"
    using peer_table.remove_SomeD [of "(?s2, ?h1)" p] ok2 t2 p by auto
  moreover have "?h1(p := None) = h" using assms(3) by auto
  ultimately show ?thesis
    using add rel find rem by (auto simp: RTPPeerCreate_def)
qed

lemma peer_lifecycle_witness:
  "\<exists>h1 session2 h2 h3 session4.
    RTPPeerCreate (Some 40) 0x1234 16 sample_addr Map.empty = Inr (40, h1) \<and>
    RTPSessionAddPeer sample_session 40 h1 = Inr (0, session2, h2) \<and>
    RTPPeerRelease 40 h2 = Inr h3 \<and>
    RTPSessionFindPeerBySSRC session2 0x1234 h3 = Inr (0, Some 40) \<and>
    RTPSessionRemovePeer session2 40 h3 = Inr (0, session4, Map.empty) \<and>
    members session4 = members sample_session"
  using peer_lifecycle [of sample_session Map.empty 40 "0x1234" 16 sample_addr]
  by (simp add: rtp_sizes)


text \<open>
  C25. Iteration: starting without a peer, \<open>RTPSessionNextPeer\<close> yields every peer of a well-formed
  table exactly once, in the order of the slots, and ends after at most sixteen peers; given a
  peer that is not in the table any more it fails and leaves the caller with that peer.
\<close>

theorem next_peer_visits_all:
  assumes "table_ok session h"
  shows "visit (\<lambda>s c. snd (next_peer s c)) (RTP_MAX_PEERS + 1) session None = peer_list session \<and>
    distinct (peer_list session) \<and> set (peer_list session) = members session \<and>
    length (peer_list session) \<le> RTP_MAX_PEERS \<and>
    (\<forall>q. q \<notin> members session \<longrightarrow> RTPSessionNextPeer session (Some (Some q)) = (1, Some (Some q)))"
proof -
  have "length (peer_list session) \<le> RTP_MAX_PEERS"
    using assms length_occupied [of "peers session"] by (simp add: table_defs)
  moreover have "distinct (peer_list session)" using assms by (simp add: table_ok_def)
  moreover have "visit table_next (RTP_MAX_PEERS + 1) session None = peer_list session"
    using peer_cursor.visit_all [OF calculation(2), of "RTP_MAX_PEERS + 1"] calculation(1) by simp
  ultimately show ?thesis
    by (simp add: table_next_def [abs_def] members_def [symmetric] RTPSessionNextPeer_def next_peer_stale)
qed

definition sample_table :: RTPSession where
  "sample_table = sample_session\<lparr>peers := (peers sample_session)[3 := Some 40, 9 := Some 41]\<rparr>"

definition sample_peer :: "u32 \<Rightarrow> RTPPeer" where
  "sample_peer s = \<lparr>peer_refs = 1, address = \<lparr>ssrc = s, addr_size = 16, addr = sample_addr\<rparr>,
     in_timestamp = 0, out_timestamp = 0, in_seqnum = 0, out_seqnum = 0, peer_info = Null\<rparr>"

definition sample_heap :: peer_heap where
  "sample_heap = [40 \<mapsto> sample_peer 3, 41 \<mapsto> sample_peer 9]"

lemma sample_table_simps [simp]:
  "peer_list sample_table = [40, 41]" "members sample_table = {40, 41}"
  "length (peers sample_table) = 16" "session_refs sample_table = 1" "buffer sample_table = In_block 0 0"
  by (simp_all add: sample_table_def sample_session_def members_def peer_list_def eval_nat_numeral)

lemma sample_table_ok [simp]: "table_ok sample_table sample_heap"
  by (simp add: table_ok_def rtp_sizes sample_heap_def sample_peer_def)

lemma next_peer_visits_all_witness:
  "visit (\<lambda>s c. snd (next_peer s c)) (RTP_MAX_PEERS + 1) sample_table None = [40, 41] \<and>
   RTPSessionNextPeer sample_table (Some (Some 7)) = (1, Some (Some 7))"
  using next_peer_visits_all [OF sample_table_ok] by simp

text \<open>
  Releasing the last reference to a session frees the session, its buffer and exactly those
  of its peers nobody else holds, here all of them; releasing an earlier one frees nothing.
\<close>

theorem session_release:
  assumes "table_ok session h" and "\<forall>q \<in> members session. \<exists>r. h q = Some r \<and> peer_refs r = 1"
    and "buffer session = In_block b off" and "0 < unat (session_refs session)"
  shows "RTPSessionRelease session h mem =
    (if session_refs session = 1 then Inr (None, h |` (- members session), mem(b := None))
     else Inr (Some (session\<lparr>session_refs := session_refs session - 1\<rparr>), h, mem))"
  using assms release_peers_last [of "peers session" h]
  by (auto simp: RTPSessionRelease_def RTPSessionDestroy_def mem_free_def table_defs Let_def)

lemma session_release_witness:
  "RTPSessionRelease sample_table sample_heap [0 \<mapsto> replicate 512 0] = Inr (None, Map.empty, Map.empty)"
proof -
  have "sample_heap |` (- {40, 41}) = Map.empty"
    by (rule ext) (auto simp: sample_heap_def restrict_map_def)
  moreover have "[0 \<mapsto> replicate 512 (0 :: u8)](0 := None) = Map.empty" by auto
  ultimately show ?thesis
    using session_release [OF sample_table_ok, of 0 0 "[0 \<mapsto> replicate 512 0]"]
    by (simp add: sample_heap_def sample_peer_def)
qed

end
