(* ===== verification/Rtp_Packet.thy ===== *)
theory Rtp_Packet
  imports Rtp_Session
begin

text \<open>
  Sending an RTP packet (\<open>applemidi/rtp.c\<close>): the header, the extension, the padding, and
  \<open>RTPSessionSendPacket\<close>. The socket is a parameter: it is given the address and the bytes and
  answers with the number of bytes sent, or a negative error, and the flags of the message.
  The header extension and the padding are encoded into \<open>&buffer\<close>, the address of the local
  pointer, so whatever they write destroys that pointer, which is the fault
  \<open>Pointer_clobbered\<close>.
\<close>

section \<open>Encoding\<close>

fun csrc_bytes :: "u32 list \<Rightarrow> nat \<Rightarrow> nat \<Rightarrow> bytes res" where
  "csrc_bytes xs i 0 = Inr []"
| "csrc_bytes xs i (Suc n) =
     bind_res (array_get xs i) (\<lambda>c. bind_res (csrc_bytes xs (Suc i) n) (\<lambda>bs. Inr (be32 c @ bs)))"

definition rtp_encode_header :: "RTPPacketInfo \<Rightarrow> u32 \<Rightarrow> (int \<times> bytes) res" where
  "rtp_encode_header info sz =
     (let header_size = 12 + ucast (csrc_count info) * 4 :: u32 in
      if sz < header_size then Inr (1, [])
      else bind_res (csrc_bytes (csrc info) 0 (unat (csrc_count info))) (\<lambda>cs.
        Inr (0, [0x80 OR (if padding info \<noteq> 0 then 0x20 else 0) OR
                   (if extension info \<noteq> 0 then 0x10 else 0) OR (csrc_count info AND 0x0f),
                 (payload_type info AND 0x7f) OR (if marker info \<noteq> 0 then 0x80 else 0x00)] @
                be16 (sequence_number info) @ be32 (info_timestamp info) @ be32 (info_ssrc info) @ cs)))"

text \<open>The writes of the two other encoders, relative to the pointer they are given.\<close>

definition rtp_encode_extension ::
    "memory \<Rightarrow> RTPPacketInfo \<Rightarrow> u32 \<Rightarrow> (int \<times> u32 option \<times> (nat \<times> u8) list) res" where
  "rtp_encode_extension mem info sz =
     (if extension info \<noteq> 0 then
        (if iovlen info < 1 then Inr (1, None, [])
         else
           bind_res (array_get (info_iov info) 0) (\<lambda>v.
           let ext_header_size = iov_len v;
               ext_header_size = (if ext_header_size mod 4 \<noteq> 0 \<or> ext_header_size = 0
                 then ext_header_size + (4 - iov_len v mod 4) else ext_header_size)
           in bind_res (read_mem mem (iov_base v) (unat (iov_len v))) (\<lambda>bs.
                let i = ext_header_size div 4
                in Inr (0, Some ext_header_size,
                        zip [0..<length bs] bs @ [(2, ucast (drop_bit 8 i AND 0xff)), (3, ucast (i AND 0xff))]))))
      else Inr (0, Some 0, []))"

definition rtp_encode_padding :: "RTPPacketInfo \<Rightarrow> u32 \<Rightarrow> int \<times> u32 option \<times> (nat \<times> u8) list" where
  "rtp_encode_padding info sz =
     (if padding info \<noteq> 0 then
        (if sz < ucast (padding info) then (1, None, [])
         else (0, Some (ucast (padding info)), [(unat (padding info) - 1, padding info)]))
      else (0, Some (ucast (padding info)), []))"

section \<open>Sending\<close>

type_synonym sendmsg = "nat \<Rightarrow> sockaddr_in \<Rightarrow> int \<Rightarrow> bytes \<Rightarrow> int \<times> int"

definition advance_ptr :: "mem_ptr \<Rightarrow> u32 \<Rightarrow> mem_ptr" where
  "advance_ptr p n = (case p of Null \<Rightarrow> Null | In_block b off \<Rightarrow> In_block b (off + unat n))"

definition write_mem :: "memory \<Rightarrow> mem_ptr \<Rightarrow> bytes \<Rightarrow> memory res" where
  "write_mem mem p bs =
     (if bs = [] then Inr mem
      else case p of
        Null \<Rightarrow> Inl Null_pointer
      | In_block b off \<Rightarrow>
          (case mem b of
             None \<Rightarrow> Inl Use_after_free
           | Some buf \<Rightarrow> bind_res (buf_write buf off bs) (\<lambda>buf. Inr (mem(b \<mapsto> buf)))))"

text \<open>The loop that appends the payload: elements \<open>i\<close> to \<open>i + n - 1\<close> of the caller's vector.\<close>

fun append_payload :: "iovec list \<Rightarrow> nat \<Rightarrow> nat \<Rightarrow> iovec list res" where
  "append_payload xs i 0 = Inr []"
| "append_payload xs i (Suc n) =
     bind_res (array_get xs i) (\<lambda>v. bind_res (append_payload xs (Suc i) n) (\<lambda>vs. Inr (v # vs)))"

fun read_iov :: "memory \<Rightarrow> iovec list \<Rightarrow> bytes res" where
  "read_iov mem [] = Inr []"
| "read_iov mem (v # vs) =
     bind_res (read_mem mem (iov_base v) (unat (iov_len v))) (\<lambda>bs.
     bind_res (read_iov mem vs) (\<lambda>bs'. Inr (bs @ bs')))"

type_synonym packet = "sockaddr_in \<times> bytes"

text \<open>An encoder called with \<open>&buffer\<close>: any byte it writes lands in the pointer itself.\<close>

definition encode_into_pointer ::
    "int \<times> u32 option \<times> (nat \<times> u8) list \<Rightarrow> u32 \<Rightarrow> u32 res" where
  "encode_into_pointer res written =
     (case res of (r, w, writes) \<Rightarrow>
        if writes \<noteq> [] then Inl Pointer_clobbered
        else Inr (case w of None \<Rightarrow> written | Some w \<Rightarrow> w))"

text \<open>The rest of the buffer after some of its bytes were used, and a vector with one more part.\<close>

definition rtp_advance_buffer :: "u32 \<times> mem_ptr \<Rightarrow> u32 \<Rightarrow> u32 \<times> mem_ptr" where
  [simp]: "rtp_advance_buffer rest n = (fst rest - n, advance_ptr (snd rest) n)"

definition append_iov :: "iovec list \<Rightarrow> u32 \<Rightarrow> mem_ptr \<Rightarrow> iovec list" where
  [simp]: "append_iov iov n buf = iov @ [\<lparr>iov_base = buf, iov_len = n\<rparr>]"

text \<open>The result is the return code, the packet info, the heap, the memory and what was sent.\<close>

definition RTPSessionSendPacket ::
    "sendmsg \<Rightarrow> RTPSession \<Rightarrow> RTPPacketInfo option \<Rightarrow> peer_heap \<Rightarrow> memory \<Rightarrow>
     (int \<times> RTPPacketInfo option \<times> peer_heap \<times> memory \<times> packet list) res" where
  "RTPSessionSendPacket sock_sendmsg session info h mem =
     (case info of
        None \<Rightarrow> Inr (1, None, h, mem, [])
      | Some info \<Rightarrow>
          (case info_peer info of
             None \<Rightarrow> Inr (1, Some info, h, mem, [])
           | Some peer \<Rightarrow>
               if iovlen info > of_nat RTP_IOV_LEN then Inr (1, Some info, h, mem, [])
               else
                 let sz = buflen session; buf = buffer session in
                 bind_res (get_peer h peer) (\<lambda>r.
                 let info = info\<lparr>info_ssrc := ssrc (self session), sequence_number := ucast (out_seqnum r + 1),
                                 total_size := 0\<rparr> in
                 bind_res (rtp_encode_header info sz) (\<lambda>(rc, hb).
                 bind_res (write_mem mem buf hb) (\<lambda>mem.
                 let written = of_nat (length hb);
                     iov = append_iov [] written buf;
                     (sz, buf) = rtp_advance_buffer (sz, buf) written;
                     total = written in
                 bind_res (if extension info \<noteq> 0 then
                             bind_res (rtp_encode_extension mem info sz) (\<lambda>res.
                             bind_res (encode_into_pointer res written) (\<lambda>written.
                               Inr (append_iov iov written buf, rtp_advance_buffer (sz, buf) written, total + written, written)))
                           else Inr (iov, (sz, buf), total, written)) (\<lambda>(iov, (sz, buf), total, written).
                 let first = length iov - 1 in
                 bind_res (append_payload (info_iov info) first (unat (iovlen info) - first)) (\<lambda>pl.
                 let psize = sum_list (map iov_len pl);
                     info = info\<lparr>payload_size := psize\<rparr>;
                     iov = iov @ pl;
                     total = total + psize in
                 bind_res (if padding info \<noteq> 0 then
                             bind_res (encode_into_pointer (rtp_encode_padding info sz) written) (\<lambda>written.
                               Inr (append_iov iov written buf, total + written))
                           else Inr (iov, total)) (\<lambda>(iov, total).
                 let info = info\<lparr>total_size := total\<rparr> in
                 bind_res (read_iov mem iov) (\<lambda>bytes.
                 bind_res (deref (socket session)) (\<lambda>sock.
                 let (sent, flags) = sock_sendmsg sock (addr (address r)) (addr_size (address r)) bytes;
                     out = [(addr (address r), bytes)]
                 in if word_of_int sent \<noteq> total then Inr (sent, Some info, h, mem, out)
                    else if flags \<noteq> 0 then Inr (1, Some info, h, mem, out)
                    else Inr (0, Some info,
                              h(peer \<mapsto> r\<lparr>out_seqnum := ucast (sequence_number info),
                                          out_timestamp := info_timestamp info\<rparr>),
                              mem, out)))))))))))"


section \<open>Reading a packet\<close>

text \<open>
  The receiver's side for the packets the driver sends, without padding, extension and
  contributing sources: payload type, marker, sequence number, time, source and payload.
\<close>

record rtp_packet =
  pk_payload_type :: u8
  pk_marker :: bool
  pk_seq :: u16
  pk_timestamp :: u32
  pk_ssrc :: u32
  pk_payload :: bytes

definition dec_rtp :: "bytes \<Rightarrow> rtp_packet option" where
  "dec_rtp bs =
     (if 12 \<le> length bs \<and> bs ! 0 = 0x80 then
        Some \<lparr>pk_payload_type = bs ! 1 AND 0x7f, pk_marker = (bs ! 1 AND 0x80 \<noteq> 0),
          pk_seq = be16_of (bs ! 2) (bs ! 3),
          pk_timestamp = be32_of (bs ! 4) (bs ! 5) (bs ! 6) (bs ! 7),
          pk_ssrc = be32_of (bs ! 8) (bs ! 9) (bs ! 10) (bs ! 11),
          pk_payload = drop 12 bs\<rparr>
      else None)"

definition plain_info :: "RTPPacketInfo \<Rightarrow> bool" where
  "plain_info info \<longleftrightarrow> padding info = 0 \<and> extension info = 0 \<and> csrc_count info = 0"

definition plain_header :: "RTPPacketInfo \<Rightarrow> bytes" where
  "plain_header info =
     [0x80, (payload_type info AND 0x7f) OR (if marker info \<noteq> 0 then 0x80 else 0x00)] @
     be16 (sequence_number info) @ be32 (info_timestamp info) @ be32 (info_ssrc info)"

lemma length_plain_header [simp]: "length (plain_header info) = 12"
  by (simp add: plain_header_def)

lemma encode_plain_header:
  "plain_info info \<Longrightarrow> 12 \<le> unat sz \<Longrightarrow> rtp_encode_header info sz = Inr (0, plain_header info)"
  by (simp add: plain_info_def rtp_encode_header_def plain_header_def word_less_nat_alt Let_def)

lemma payload_type_byte:
  "((t AND 0x7f) OR (if m then 0x80 else 0x00)) AND 0x7f = t AND (0x7f :: u8)"
  "((t AND 0x7f) OR (if m then 0x80 else 0x00)) AND 0x80 \<noteq> (0 :: u8) \<longleftrightarrow> m"
  by (simp_all add: word_ao_dist and.assoc)

lemma dec_plain_header:
  "dec_rtp (plain_header info @ payload) =
     Some \<lparr>pk_payload_type = payload_type info AND 0x7f, pk_marker = (marker info \<noteq> 0),
       pk_seq = sequence_number info, pk_timestamp = info_timestamp info, pk_ssrc = info_ssrc info,
       pk_payload = payload\<rparr>"
  using payload_type_byte [of "payload_type info" "marker info \<noteq> 0"]
  by (simp add: dec_rtp_def plain_header_def be16_def be32_def be16_inverse be32_inverse)

section \<open>The payload vector\<close>

lemma append_payload_eq:
  "i + n \<le> length xs \<Longrightarrow> append_payload xs i n = Inr (take n (drop i xs))"
proof (induction n arbitrary: i)
  case (Suc n)
  then have "drop i xs = xs ! i # drop (Suc i) xs" by (simp add: Cons_nth_drop_Suc)
  with Suc show ?case by simp
qed simp

lemma read_mem_length: "read_mem mem p n = Inr bs \<Longrightarrow> length bs = n"
  by (auto simp: read_mem_def split: if_splits mem_ptr.splits option.splits)

lemma read_iov_total:
  "read_iov mem vs = Inr bs \<Longrightarrow> sum_list (map iov_len vs) = of_nat (length bs)"
proof (induction vs arbitrary: bs)
  case (Cons v vs)
  then obtain x y where "read_mem mem (iov_base v) (unat (iov_len v)) = Inr x" "read_iov mem vs = Inr y"
    "bs = x @ y" by (auto simp: bind_res_eq_Inr)
  with Cons.IH [of y] read_mem_length show ?case by fastforce
qed simp

definition avoids_block :: "nat \<Rightarrow> iovec \<Rightarrow> bool" where
  "avoids_block b v = (case iov_base v of Null \<Rightarrow> True | In_block c off \<Rightarrow> c \<noteq> b)"

lemma read_iov_frame:
  "list_all (avoids_block b) vs \<Longrightarrow> read_iov (mem(b := x)) vs = read_iov mem vs"
proof (induction vs)
  case (Cons v vs)
  then have "read_mem (mem(b := x)) (iov_base v) n = read_mem mem (iov_base v) n" for n
    by (auto simp: read_mem_def avoids_block_def split: mem_ptr.splits)
  with Cons show ?case by (simp del: fun_upd_apply)
qed simp


section \<open>What is sent\<close>

text \<open>The conditions under which a packet can be built and the state after a complete send.\<close>

definition sendable :: "RTPSession \<Rightarrow> RTPPacketInfo \<Rightarrow> memory \<Rightarrow> nat \<Rightarrow> bytes \<Rightarrow> bytes \<Rightarrow> bool" where
  "sendable session info mem b buf payload \<longleftrightarrow> plain_info info \<and>
     unat (iovlen info) \<le> RTP_IOV_LEN \<and> unat (iovlen info) \<le> length (info_iov info) \<and>
     buffer session = In_block b 0 \<and> mem b = Some buf \<and> 12 \<le> unat (buflen session) \<and> 12 \<le> length buf \<and>
     list_all (avoids_block b) (info_iov info) \<and>
     read_iov mem (take (unat (iovlen info)) (info_iov info)) = Inr payload"

lemma send_packet_result:
  assumes "info_peer info = Some p" and "h p = Some r" and "sendable session info mem b buf payload"
    and "socket session = Some sock"
  defines "seq \<equiv> ucast (out_seqnum r + 1) :: u16"
  shows "\<exists>info' mem'. let
      pkt = plain_header (info\<lparr>info_ssrc := ssrc (self session), sequence_number := seq\<rparr>) @ payload;
      (sent, flags) = sock_sendmsg sock (addr (address r)) (addr_size (address r)) pkt in
    RTPSessionSendPacket sock_sendmsg session (Some info) h mem =
      (if word_of_int sent \<noteq> (of_nat (length pkt) :: u32) then Inr (sent, Some info', h, mem', [(addr (address r), pkt)])
       else if flags \<noteq> 0 then Inr (1, Some info', h, mem', [(addr (address r), pkt)])
       else Inr (0, Some info', h(p \<mapsto> r\<lparr>out_seqnum := ucast seq, out_timestamp := info_timestamp info\<rparr>), mem',
                 [(addr (address r), pkt)])) \<and>
    info_peer info' = Some p \<and> info_iov info' = info_iov info \<and> iovlen info' = iovlen info \<and>
    plain_info info' \<and> info_timestamp info' = info_timestamp info \<and> payload_type info' = payload_type info \<and>
    marker info' = marker info \<and> (\<exists>buf'. mem' = mem(b \<mapsto> buf') \<and> length buf' = length buf)"
proof -
  let ?i = "info\<lparr>info_ssrc := ssrc (self session), sequence_number := seq, total_size := 0\<rparr>"
  let ?hd = "plain_header (info\<lparr>info_ssrc := ssrc (self session), sequence_number := seq\<rparr>)"
  have s: "plain_info info" "unat (iovlen info) \<le> RTP_IOV_LEN" "unat (iovlen info) \<le> length (info_iov info)"
    "buffer session = In_block b 0" "mem b = Some buf" "12 \<le> unat (buflen session)" "12 \<le> length buf"
    "list_all (avoids_block b) (info_iov info)"
    "read_iov mem (take (unat (iovlen info)) (info_iov info)) = Inr payload"
    using assms(3) by (simp_all add: sendable_def)
  have plain: "padding info = 0" "extension info = 0" "csrc_count info = 0" using s(1) by (simp_all add: plain_info_def)
  let ?buf = "overlay buf 0 ?hd"
  let ?mem = "mem(b \<mapsto> ?buf)"
  have hd: "rtp_encode_header ?i (buflen session) = Inr (0, ?hd)"
    using encode_plain_header [of ?i "buflen session"] s(1,6) by (simp add: plain_info_def plain_header_def)
  have ne: "?hd \<noteq> []" using length_plain_header by (metis list.size(3) zero_neq_numeral)
  then have wr: "write_mem mem (In_block b 0) ?hd = Inr ?mem"
    using s(5,7) by (simp add: write_mem_def)
  let ?pl = "take (unat (iovlen info)) (info_iov info)"
  have pl: "append_payload (info_iov info) 0 (unat (iovlen info)) = Inr ?pl"
    using s(3) append_payload_eq [of 0 "unat (iovlen info)" "info_iov info"] by simp
  have "list_all (avoids_block b) ?pl" using s(8) by (auto simp: list_all_iff dest: in_set_takeD)
  then have rpl: "read_iov ?mem ?pl = Inr payload" using s(9) by (simp add: read_iov_frame del: fun_upd_apply)
  have rhd: "read_mem ?mem (In_block b 0) 12 = Inr ?hd"
    using s(7) by (simp add: read_mem_def overlay_start)
  have tot: "sum_list (map iov_len ?pl) = of_nat (length payload)" using read_iov_total [OF rpl] .
  have il: "\<not> iovlen info > of_nat RTP_IOV_LEN"
    using s(2) by (simp add: word_less_nat_alt rtp_sizes)
  have len: "(12 :: u32) + of_nat (length payload) = of_nat (length (?hd @ payload))" by simp
  have bex: "\<exists>buf'. ?mem = mem(b \<mapsto> buf') \<and> length buf' = length buf"
    using s(7) by (intro exI [of _ ?buf]) simp
  show ?thesis
    apply (rule exI [of _ "?i\<lparr>payload_size := of_nat (length payload), total_size := 12 + of_nat (length payload)\<rparr>"])
    apply (rule exI [of _ ?mem])
    using assms(1,2,4) plain s(4) il
    by (simp add: RTPSessionSendPacket_def get_peer_def hd wr pl rpl rhd tot bex Let_def plain_info_def
        advance_ptr_def seq_def [symmetric] split: prod.splits del: fun_upd_apply)
qed


section \<open>Properties\<close>

text \<open>
  C13. A packet on the wire: when the socket takes the whole packet, exactly one packet goes to
  the address of the peer, a receiver reads from it the payload type, the marker, the time,
  the SSRC of the session, the payload vector's bytes and the sequence number that follows
  the last one sent to this peer (modulo \<open>2 ^ 16\<close>), and this number and the time are kept for
  the peer while every other peer is untouched.
\<close>

theorem packet_on_wire:
  assumes "info_peer info = Some p" and "h p = Some r" and "sendable session info mem b buf payload"
    and "socket session = Some sock" and "\<And>pkt. sock_sendmsg sock (addr (address r)) (addr_size (address r)) pkt = (int (length pkt), 0)"
  shows "\<exists>info' h' mem' pkt. RTPSessionSendPacket sock_sendmsg session (Some info) h mem =
      Inr (0, Some info', h', mem', [(addr (address r), pkt)]) \<and>
    dec_rtp pkt = Some \<lparr>pk_payload_type = payload_type info AND 0x7f, pk_marker = (marker info \<noteq> 0),
      pk_seq = ucast (out_seqnum r + 1), pk_timestamp = info_timestamp info,
      pk_ssrc = ssrc (self session), pk_payload = payload\<rparr> \<and>
    h' p = Some (r\<lparr>out_seqnum := ucast (ucast (out_seqnum r + 1) :: u16), out_timestamp := info_timestamp info\<rparr>) \<and>
    (\<forall>q. q \<noteq> p \<longrightarrow> h' q = h q)"
proof -
  let ?i = "info\<lparr>info_ssrc := ssrc (self session), sequence_number := ucast (out_seqnum r + 1)\<rparr>"
  obtain info' mem' where "RTPSessionSendPacket sock_sendmsg session (Some info) h mem =
      Inr (0, Some info', h(p \<mapsto> r\<lparr>out_seqnum := ucast (ucast (out_seqnum r + 1) :: u16),
        out_timestamp := info_timestamp info\<rparr>), mem', [(addr (address r), plain_header ?i @ payload)])"
    using send_packet_result [where h = h, OF assms(1-4), of sock_sendmsg] assms(5) by auto
  then show ?thesis using dec_plain_header [of ?i payload] by auto
qed

definition sample_memory :: memory where
  "sample_memory = [0 \<mapsto> replicate 512 0, 1 \<mapsto> [0x03, 0x90, 60, 100]]"

definition sample_info :: RTPPacketInfo where
  "sample_info = sample_raw_info\<lparr>info_peer := Some 40, payload_type := 97, info_timestamp := 1000,
     iovlen := 1, info_iov := [\<lparr>iov_base = In_block 1 0, iov_len = 4\<rparr>]\<rparr>"

lemma sample_sendable: "sendable sample_table sample_info sample_memory 0 (replicate 512 0) [0x03, 0x90, 60, 100]"
  by (simp add: sendable_def plain_info_def sample_info_def sample_raw_info_def sample_memory_def
      avoids_block_def read_mem_def rtp_sizes sample_table_def sample_session_def)

lemma packet_on_wire_witness:
  "\<exists>info' h' mem' pkt. RTPSessionSendPacket (\<lambda>s a n bs. (int (length bs), 0)) sample_table (Some sample_info)
      sample_heap sample_memory = Inr (0, Some info', h', mem', [(sample_addr, pkt)]) \<and>
    dec_rtp pkt = Some \<lparr>pk_payload_type = 97, pk_marker = False, pk_seq = 1, pk_timestamp = 1000,
      pk_ssrc = 0xCAFE, pk_payload = [0x03, 0x90, 60, 100]\<rparr>"
  using packet_on_wire [of sample_info 40 sample_heap "sample_peer 3", OF _ _ sample_sendable, of 3
        "\<lambda>s a n bs. (int (length bs), 0)"]
  by (auto simp: sample_info_def sample_raw_info_def sample_heap_def sample_peer_def sample_table_def
      sample_session_def)

text \<open>
  A packet the socket does not take whole leaves all peers as they were, so the next packet
  has the same sequence number; the return code is the number the socket answered, which for
  an answer of 0 bytes is the code of success.
\<close>

theorem incomplete_send:
  assumes "info_peer info = Some p" and "h p = Some r" and "sendable session info mem b buf payload"
    and "socket session = Some sock" and "\<And>pkt. sock_sendmsg sock (addr (address r)) (addr_size (address r)) pkt = (sent, 0)"
    and "word_of_int sent \<noteq> (of_nat (12 + length payload) :: u32)"
  shows "\<exists>info' mem' pkt. RTPSessionSendPacket sock_sendmsg session (Some info) h mem =
      Inr (sent, Some info', h, mem', [(addr (address r), pkt)])"
proof -
  have "word_of_int sent \<noteq> (12 + of_nat (length payload) :: u32)" using assms(6) by simp
  with send_packet_result [where h = h, OF assms(1-4), of sock_sendmsg] assms(5) show ?thesis by auto
qed

lemma incomplete_send_witness:
  "\<exists>info' mem' pkt. RTPSessionSendPacket (\<lambda>s a n bs. (0, 0)) sample_table (Some sample_info)
      sample_heap sample_memory = Inr (0, Some info', sample_heap, mem', [(sample_addr, pkt)])"
  using incomplete_send [of sample_info 40 sample_heap "sample_peer 3", OF _ _ sample_sendable, of 3
        "\<lambda>s a n bs. (0, 0)" 0]
  by (auto simp: sample_info_def sample_heap_def sample_peer_def sample_table_def sample_session_def)

end
