(* ===== verification/Apple_Calls.thy ===== *)
theory Apple_Calls
  imports Rtp_Packet
begin

text \<open>
  The services of the kernel the AppleMIDI module uses, as a trace of calls in the order they are
  made, and the counting of the resources they take and give back. Objects whose contents matter
  (peers, sessions, buffers, clocks) live in the heaps of the model and are not in the trace.
\<close>

datatype acall =
    Kmalloc_alsa
  | Kfree_alsa
  | Kmalloc_private
  | Kfree_private
  | Card_create int
  | Card_register
  | Card_free "nat option"
  | Client_create int
  | Client_delete int
  | Port_create int
  | Kmalloc_driver
  | Kfree_driver
  | Sock_create nat
  | Sock_bind nat u16
  | Sock_callback nat
  | Sock_release nat
  | Timer_setup
  | Timer_mod nat
  | Timer_del
  | Send nat packet

text \<open>The balance of a kind of resource: calls that take it less calls that give it back.\<close>

definition balance :: "('c \<Rightarrow> bool) \<Rightarrow> ('c \<Rightarrow> bool) \<Rightarrow> 'c list \<Rightarrow> int" where
  "balance takes gives cs = int (length (filter takes cs)) - int (length (filter gives cs))"

lemma balance_append [simp]: "balance t g (xs @ ys) = balance t g xs + balance t g ys"
  by (simp add: balance_def)

lemma balance_Nil [simp]: "balance t g [] = 0"
  by (simp add: balance_def)

lemma balance_Cons [simp]:
  "balance t g (c # cs) = (if t c then 1 else 0) - (if g c then 1 else 0) + balance t g cs"
  by (simp add: balance_def)

text \<open>
  The resources of the module; for sockets, each by its number. The call for a card and the one for a client carry the result,
  which is negative when nothing was taken.
\<close>

datatype resource = Alsa_object | Private_object | Sound_card | Seq_client | Driver_object | Socket nat | Timer

fun takes :: "resource \<Rightarrow> acall \<Rightarrow> bool" where
  "takes Alsa_object c \<longleftrightarrow> c = Kmalloc_alsa"
| "takes Private_object c \<longleftrightarrow> c = Kmalloc_private"
| "takes Sound_card c \<longleftrightarrow> (\<exists>err \<ge> 0. c = Card_create err)"
| "takes Seq_client c \<longleftrightarrow> (\<exists>n \<ge> 0. c = Client_create n)"
| "takes Driver_object c \<longleftrightarrow> c = Kmalloc_driver"
| "takes (Socket s) c \<longleftrightarrow> c = Sock_create s"
| "takes Timer c \<longleftrightarrow> c = Timer_setup"

fun gives :: "resource \<Rightarrow> acall \<Rightarrow> bool" where
  "gives Alsa_object c \<longleftrightarrow> c = Kfree_alsa"
| "gives Private_object c \<longleftrightarrow> c = Kfree_private"
| "gives Sound_card c \<longleftrightarrow> (\<exists>x. c = Card_free x)"
| "gives Seq_client c \<longleftrightarrow> (\<exists>x. c = Client_delete x)"
| "gives Driver_object c \<longleftrightarrow> c = Kfree_driver"
| "gives (Socket s) c \<longleftrightarrow> c = Sock_release s"
| "gives Timer c \<longleftrightarrow> c = Timer_del"

definition held :: "resource \<Rightarrow> acall list \<Rightarrow> int" where
  "held r cs = balance (takes r) (gives r) cs"

lemma held_append [simp]: "held r (xs @ ys) = held r xs + held r ys"
  by (simp add: held_def)

lemma held_Nil [simp]: "held r [] = 0"
  by (simp add: held_def)

lemma held_Cons: "held r (c # cs) = (if takes r c then 1 else 0) - (if gives r c then 1 else 0) + held r cs"
  by (simp add: held_def)

lemma held_sends [simp]: "held r (map (\<lambda>(s, p). Send s p) ds) = 0"
  by (induction ds) (auto simp: held_Cons split_beta elim: takes.elims gives.elims intro: resource.exhaust [of r])

end
