(* ===== verification/Midi_Message.thy ===== *)
theory Midi_Message
  imports C_Prelude
begin

text \<open>
  MIDI messages of the AppleMIDI driver (\<open>applemidi/message.c\<close>): the note-on/note-off format,
  its properties, and its encoding with a running status. A pointer that may be \<open>NULL\<close> is an
  option; an encoder returns its return code, the running status it leaves and the bytes it
  wrote (the empty list where it wrote none and left \<open>*written\<close> alone). The array \<open>bytes\<close> of
  a message has \<open>MIDI_MESSAGE_DATA_BYTES\<close> elements (\<open>wf_data\<close>).
\<close>

section \<open>Data\<close>

definition MIDI_MESSAGE_DATA_BYTES :: nat where "MIDI_MESSAGE_DATA_BYTES = 4"

record MIDIMessageData =
  bytes :: bytes
  data_size :: u32
  data_ptr :: "nat option"

definition wf_data :: "MIDIMessageData \<Rightarrow> bool" where
  "wf_data d \<longleftrightarrow> length (bytes d) = MIDI_MESSAGE_DATA_BYTES"

text \<open>A pointer to a format is one to an entry of the table of formats, which has one entry.\<close>

datatype MIDIMessageFormat = note_off_on

record MIDIMessage =
  message_refs :: int
  format :: "MIDIMessageFormat option"
  message_data :: MIDIMessageData
  timestamp :: s64

definition MIDIMessageSetTimestamp :: "MIDIMessage \<Rightarrow> s64 \<Rightarrow> MIDIMessage" where
  "MIDIMessageSetTimestamp message ts = message\<lparr>timestamp := ts\<rparr>"

definition MIDIMessageGetTimestamp :: "MIDIMessage \<Rightarrow> s64" where
  "MIDIMessageGetTimestamp message = timestamp message"

section \<open>Running status\<close>

type_synonym running_status = "u8 option"

definition check_encode_running_status :: "u8 \<Rightarrow> running_status \<Rightarrow> bool" where
  "check_encode_running_status byte status =
     (if status = None \<or> status = Some 0 then False
      else if byte \<ge> 0x80 \<and> byte \<le> 0xef then status = Some byte
      else False)"

definition check_decode_running_status :: "u8 \<Rightarrow> running_status \<Rightarrow> bool" where
  "check_decode_running_status byte status =
     (if status = None \<or> status = Some 0 then False else byte < 0x80)"

definition update_running_status :: "MIDIMessageData \<Rightarrow> running_status \<Rightarrow> int \<times> running_status" where
  "update_running_status d status =
     (if status = None then (0, status)
      else if bytes d ! 0 \<ge> 0x80 \<and> bytes d ! 0 \<le> 0xef then (0, Some (bytes d ! 0))
      else if bytes d ! 0 \<ge> 0xf0 \<and> bytes d ! 0 \<le> 0xf7 then (0, Some 0)
      else if bytes d ! 0 \<ge> 0xf8 \<and> bytes d ! 0 \<le> 0xff then (0, status)
      else (1, status))"

definition size_three_bytes :: "MIDIMessageData option \<Rightarrow> u32 option \<Rightarrow> int \<times> u32 option" where
  "size_three_bytes d sz = (if d = None \<or> sz = None then (1, sz) else (0, Some 3))"

definition encode_three_bytes ::
    "MIDIMessageData \<Rightarrow> running_status \<Rightarrow> u32 \<Rightarrow> int \<times> running_status \<times> bytes" where
  "encode_three_bytes d status sz =
     (if check_encode_running_status (bytes d ! 0) status then
        (if sz < 2 then (1, status, []) else (0, status, [bytes d ! 1, bytes d ! 2]))
      else
        (let (r, status') = update_running_status d status in
         if r = 0 then
           (if sz < 3 then (1, status', [])
            else (0, status', [bytes d ! 0, bytes d ! 1, bytes d ! 2]))
         else (0, status', [])))"

text \<open>
  The decoder reads the first byte of the buffer before it looks at the size; \<open>buffer\<close> is the
  memory there is. The last component is the new \<open>*read\<close>, if it was set.
\<close>

definition decode_three_bytes ::
    "MIDIMessageData \<Rightarrow> running_status \<Rightarrow> u32 \<Rightarrow> bytes \<Rightarrow>
     (int \<times> MIDIMessageData \<times> running_status \<times> u32 option) res" where
  "decode_three_bytes d status sz buffer =
     bind_res (array_get buffer 0) (\<lambda>b0.
       if check_decode_running_status b0 status then
         (if sz < 2 then Inr (1, d, status, None)
          else bind_res (array_get buffer 1) (\<lambda>b1.
            let d = d\<lparr>bytes := (bytes d)[0 := the status, 1 := b0, 2 := b1]\<rparr>;
                (r, status') = update_running_status d status
            in Inr (r, d, status', Some 2)))
       else
         (if sz < 3 then Inr (1, d, status, None)
          else bind_res (array_get buffer 1) (\<lambda>b1. bind_res (array_get buffer 2) (\<lambda>b2.
            let d = d\<lparr>bytes := (bytes d)[0 := b0, 1 := b1, 2 := b2]\<rparr>;
                (r, status') = update_running_status d status
            in Inr (r, d, status', Some 3)))))"

section \<open>Formats\<close>

definition MIDI_STATUS_NOTE_OFF :: u8 where "MIDI_STATUS_NOTE_OFF = 0x8"
definition MIDI_STATUS_NOTE_ON :: u8 where "MIDI_STATUS_NOTE_ON = 0x9"

lemmas note_status_defs = MIDI_STATUS_NOTE_OFF_def MIDI_STATUS_NOTE_ON_def

definition test_note_off_on :: "bytes \<Rightarrow> bool res" where
  "test_note_off_on buffer =
     bind_res (array_get buffer 0) (\<lambda>b0.
       Inr (b0 AND 0xf0 = push_bit 4 MIDI_STATUS_NOTE_OFF \<or>
            b0 AND 0xf0 = push_bit 4 MIDI_STATUS_NOTE_ON))"

section \<open>Properties of note messages\<close>

definition MIDI_STATUS :: u16 where "MIDI_STATUS = 0x00"
definition MIDI_CHANNEL :: u16 where "MIDI_CHANNEL = 0x01"
definition MIDI_KEY :: u16 where "MIDI_KEY = 0x02"
definition MIDI_VELOCITY :: u16 where "MIDI_VELOCITY = 0x03"

lemmas property_defs = MIDI_STATUS_def MIDI_CHANNEL_def MIDI_KEY_def MIDI_VELOCITY_def

definition MIDI_NIBBLE_VALUE :: "u8 \<Rightarrow> u8 \<Rightarrow> u8" where
  "MIDI_NIBBLE_VALUE h l = push_bit 4 h OR (l AND 0xf)"

definition MIDI_HIGH_NIBBLE :: "u8 \<Rightarrow> u8" where "MIDI_HIGH_NIBBLE b = drop_bit 4 b AND 0xf"
definition MIDI_LOW_NIBBLE :: "u8 \<Rightarrow> u8" where "MIDI_LOW_NIBBLE b = b AND 0xf"

lemmas nibble_defs = MIDI_NIBBLE_VALUE_def MIDI_HIGH_NIBBLE_def MIDI_LOW_NIBBLE_def

text \<open>All four properties are one byte wide; \<open>value\<close> is the byte behind the pointer.\<close>

definition set_note_off_on ::
    "MIDIMessageData \<Rightarrow> u16 \<Rightarrow> u32 \<Rightarrow> u8 option \<Rightarrow> int \<times> MIDIMessageData" where
  "set_note_off_on d property sz value =
     (case value of
        None \<Rightarrow> (1, d)
      | Some v \<Rightarrow>
          if sz = 0 then (1, d)
          else if property = MIDI_STATUS then
            (if sz \<noteq> 1 then (1, d)
             else if v AND 0x0f \<noteq> v then (1, d)
             else (0, d\<lparr>bytes := (bytes d)[0 := MIDI_NIBBLE_VALUE v (MIDI_LOW_NIBBLE (bytes d ! 0))]\<rparr>))
          else if property = MIDI_CHANNEL then
            (if sz \<noteq> 1 then (1, d)
             else if v AND 0x0f \<noteq> v then (1, d)
             else (0, d\<lparr>bytes := (bytes d)[0 := MIDI_NIBBLE_VALUE (MIDI_HIGH_NIBBLE (bytes d ! 0)) v]\<rparr>))
          else if property = MIDI_KEY then
            (if sz \<noteq> 1 then (1, d)
             else if v AND 0x7f \<noteq> v then (1, d)
             else (0, d\<lparr>bytes := (bytes d)[1 := v]\<rparr>))
          else if property = MIDI_VELOCITY then
            (if sz \<noteq> 1 then (1, d)
             else if v AND 0x7f \<noteq> v then (1, d)
             else (0, d\<lparr>bytes := (bytes d)[2 := v]\<rparr>))
          else (1, d))"

text \<open>The getter returns the value it stores, \<open>None\<close> where it stores none.\<close>

definition get_note_off_on ::
    "MIDIMessageData \<Rightarrow> u16 \<Rightarrow> u32 \<Rightarrow> u8 option \<Rightarrow> int \<times> u8 option" where
  "get_note_off_on d property sz value =
     (if sz = 0 \<or> value = None then (1, None)
      else if property = MIDI_STATUS then
        (if sz \<noteq> 1 then (1, None) else (0, Some (MIDI_HIGH_NIBBLE (bytes d ! 0))))
      else if property = MIDI_CHANNEL then
        (if sz \<noteq> 1 then (1, None) else (0, Some (MIDI_LOW_NIBBLE (bytes d ! 0))))
      else if property = MIDI_KEY then
        (if sz \<noteq> 1 then (1, None) else (0, Some (bytes d ! 1)))
      else if property = MIDI_VELOCITY then
        (if sz \<noteq> 1 then (1, None) else (0, Some (bytes d ! 2)))
      else (1, None))"


text \<open>Values of fourteen bits, in two bytes of seven.\<close>

definition MIDI_LONG_VALUE :: "u16 \<Rightarrow> u16 \<Rightarrow> u16" where
  "MIDI_LONG_VALUE m l = push_bit 7 (m AND 0x7f) OR (l AND 0x7f)"

definition MIDI_LSB :: "u16 \<Rightarrow> u16" where "MIDI_LSB v = v AND 0x7f"
definition MIDI_MSB :: "u16 \<Rightarrow> u16" where "MIDI_MSB v = drop_bit 7 v AND 0x7f"

lemma long_value_parts:
  "MIDI_LONG_VALUE (MIDI_MSB v) (MIDI_LSB v) = v AND 0x3fff"
  "MIDI_MSB (MIDI_LONG_VALUE m l) = m AND 0x7f" "MIDI_LSB (MIDI_LONG_VALUE m l) = l AND 0x7f"
proof -
  have m: "(0x7f :: u16) = mask 7" "(0x3fff :: u16) = mask 14" by (simp_all add: mask_eq_exp_minus_1)
  show "MIDI_LONG_VALUE (MIDI_MSB v) (MIDI_LSB v) = v AND 0x3fff"
    by (rule bit_word_eqI) (auto simp: MIDI_LONG_VALUE_def MIDI_MSB_def MIDI_LSB_def m bit_simps)
  show "MIDI_MSB (MIDI_LONG_VALUE m l) = m AND 0x7f" "MIDI_LSB (MIDI_LONG_VALUE m l) = l AND 0x7f"
    by (rule bit_word_eqI; auto simp: MIDI_LONG_VALUE_def MIDI_MSB_def MIDI_LSB_def m bit_simps)+
qed

section \<open>The table of formats\<close>

text \<open>A format is a structure of functions; the one of the note messages has all of them.\<close>

record format_operations =
  op_test :: "bytes \<Rightarrow> bool res"
  op_size :: "MIDIMessageData option \<Rightarrow> u32 option \<Rightarrow> int \<times> u32 option"
  op_set :: "MIDIMessageData \<Rightarrow> u16 \<Rightarrow> u32 \<Rightarrow> u8 option \<Rightarrow> int \<times> MIDIMessageData"
  op_get :: "MIDIMessageData \<Rightarrow> u16 \<Rightarrow> u32 \<Rightarrow> u8 option \<Rightarrow> int \<times> u8 option"
  op_encode :: "(MIDIMessageData \<Rightarrow> running_status \<Rightarrow> u32 \<Rightarrow> int \<times> running_status \<times> bytes) option"
  op_decode :: "MIDIMessageData \<Rightarrow> running_status \<Rightarrow> u32 \<Rightarrow> bytes \<Rightarrow> (int \<times> MIDIMessageData \<times> running_status \<times> u32 option) res"

definition note_off_on_operations :: format_operations where
  "note_off_on_operations = \<lparr>op_test = test_note_off_on, op_size = size_three_bytes, op_set = set_note_off_on,
     op_get = get_note_off_on, op_encode = Some encode_three_bytes, op_decode = decode_three_bytes\<rparr>"

text \<open>What a pointer to a format points to.\<close>

fun operations :: "MIDIMessageFormat \<Rightarrow> format_operations" where
  "operations note_off_on = note_off_on_operations"

lemma note_operations [simp]:
  "op_test note_off_on_operations = test_note_off_on" "op_encode note_off_on_operations = Some encode_three_bytes"
  by (simp_all add: note_off_on_operations_def)

definition formats :: "MIDIMessageFormat list" where "formats = [note_off_on]"

fun detect_loop :: "MIDIMessageFormat list \<Rightarrow> bytes \<Rightarrow> MIDIMessageFormat option res" where
  "detect_loop [] buffer = Inr None"
| "detect_loop (f # fs) buffer =
     bind_res (op_test (operations f) buffer) (\<lambda>t. if t then Inr (Some f) else detect_loop fs buffer)"

definition MIDIMessageFormatDetect :: "bytes \<Rightarrow> MIDIMessageFormat option res" where
  "MIDIMessageFormatDetect buffer = detect_loop formats buffer"

definition MIDIMessageFormatEncodeRunningStatus ::
    "MIDIMessageFormat option \<Rightarrow> MIDIMessageData \<Rightarrow> running_status \<Rightarrow> u32 \<Rightarrow>
     int \<times> running_status \<times> bytes" where
  "MIDIMessageFormatEncodeRunningStatus f d status sz =
     (case f of
        Some f \<Rightarrow>
          (case op_encode (operations f) of
             Some encode \<Rightarrow> encode d status sz
           | None \<Rightarrow> (1, status, []))
      | None \<Rightarrow> (1, status, []))"

definition MIDIMessageEncodeRunningStatus ::
    "MIDIMessage \<Rightarrow> running_status \<Rightarrow> u32 \<Rightarrow> int \<times> running_status \<times> bytes" where
  "MIDIMessageEncodeRunningStatus message status sz =
     MIDIMessageFormatEncodeRunningStatus (format message) (message_data message) status sz"

section \<open>Setters and getters\<close>

text \<open>Nibbles: what is put into a half of a byte is read from it, and the other half stays.\<close>

lemma nibble_mask: "(0xf :: u8) = mask 4"
  by (simp add: mask_eq_exp_minus_1)

lemma bit_low_nibble: "h AND 0x0f = h \<Longrightarrow> bit (h :: u8) n \<Longrightarrow> n < 4"
  unfolding nibble_mask by (metis bit_and_iff bit_mask_iff)

lemma high_nibble_value [simp]:
  assumes "h AND 0x0f = h"
  shows "MIDI_HIGH_NIBBLE (MIDI_NIBBLE_VALUE h l) = h"
proof (rule bit_word_eqI)
  fix n assume "n < LENGTH(8)"
  then show "bit (MIDI_HIGH_NIBBLE (MIDI_NIBBLE_VALUE h l)) n = bit h n"
    using bit_low_nibble [OF assms, of n] by (auto simp: nibble_defs nibble_mask bit_simps)
qed

lemma low_nibble_value [simp]: "MIDI_LOW_NIBBLE (MIDI_NIBBLE_VALUE h l) = MIDI_LOW_NIBBLE l"
  by (rule bit_word_eqI) (auto simp: nibble_defs nibble_mask bit_simps)

lemma low_nibble_idem [simp]:
  "MIDI_LOW_NIBBLE (MIDI_LOW_NIBBLE b) = MIDI_LOW_NIBBLE b" "h AND 0x0f = h \<Longrightarrow> MIDI_LOW_NIBBLE h = h"
  by (simp_all add: MIDI_LOW_NIBBLE_def and.assoc)

lemma high_nibble_small [simp]: "MIDI_HIGH_NIBBLE b AND 0x0f = MIDI_HIGH_NIBBLE b"
  by (simp add: MIDI_HIGH_NIBBLE_def and.assoc)

lemma midi_property_cases:
  assumes "set_note_off_on d p sz v = (0, d')"
  obtains "p = MIDI_STATUS" | "p = MIDI_CHANNEL" | "p = MIDI_KEY" | "p = MIDI_VELOCITY"
  using assms by (auto simp: set_note_off_on_def split: option.splits if_splits)

section \<open>Encoding and decoding with a running status\<close>

text \<open>
  The three bytes of a channel message, the part of \<open>MIDIMessageData\<close> that is transmitted;
  the running status the encoder keeps is none (0) or a channel status.
\<close>

type_synonym three_bytes = "u8 \<times> u8 \<times> u8"

fun note_data :: "three_bytes \<Rightarrow> MIDIMessageData" where
  "note_data (b0, b1, b2) = \<lparr>bytes = [b0, b1, b2, 0], data_size = 0, data_ptr = None\<rparr>"

definition three_bytes_of :: "MIDIMessageData \<Rightarrow> three_bytes" where
  "three_bytes_of d = (bytes d ! 0, bytes d ! 1, bytes d ! 2)"

fun channel_message :: "three_bytes \<Rightarrow> bool" where
  "channel_message (b0, b1, b2) \<longleftrightarrow> 0x80 \<le> b0 \<and> b0 \<le> 0xef \<and> b1 < 0x80 \<and> b2 < 0x80"

definition channel_status :: "u8 \<Rightarrow> bool" where
  "channel_status s \<longleftrightarrow> s = 0 \<or> (0x80 \<le> s \<and> s \<le> 0xef)"

definition enc_message :: "u8 \<Rightarrow> three_bytes \<Rightarrow> bytes \<times> u8" where
  "enc_message s m =
     (let (r, s', bs) = encode_three_bytes (note_data m) (Some s) 3 in (bs, the s'))"

definition dec_message :: "u8 \<Rightarrow> bytes \<Rightarrow> (three_bytes \<times> u8 \<times> bytes) option" where
  "dec_message s bs =
     (case decode_three_bytes (note_data (0, 0, 0)) (Some s) (of_nat (min 3 (length bs))) bs of
        Inr (r, d, s', Some n) \<Rightarrow>
          if r = 0 then Some (three_bytes_of d, the s', drop (unat n) bs) else None
      | _ \<Rightarrow> None)"

lemma encode_channel_message:
  assumes "channel_message (bytes d ! 0, bytes d ! 1, bytes d ! 2)"
  shows "encode_three_bytes d (Some s) sz =
    (let n = (if s = bytes d ! 0 then 2 else 3) in
     (if sz < n then 1 else 0, Some (bytes d ! 0),
      if sz < n then [] else if s = bytes d ! 0 then [bytes d ! 1, bytes d ! 2]
      else [bytes d ! 0, bytes d ! 1, bytes d ! 2]))"
  using assms
  by (auto simp: encode_three_bytes_def check_encode_running_status_def update_running_status_def)

lemma enc_message_eq:
  "channel_message (b0, b1, b2) \<Longrightarrow>
     enc_message s (b0, b1, b2) = ((if s = b0 then [b1, b2] else [b0, b1, b2]), b0)"
  by (simp add: enc_message_def encode_channel_message Let_def)

lemma not_less_min3:
  "2 \<le> n \<Longrightarrow> \<not> (of_nat (min 3 n) :: u32) < 2" "3 \<le> n \<Longrightarrow> \<not> (of_nat (min 3 n) :: u32) < 3"
  by (simp_all add: word_less_nat_alt unat_of_nat min_def)

lemma dec_message_running:
  assumes "0x80 \<le> b0" and "b0 \<le> 0xef" and "b1 < 0x80"
  shows "dec_message b0 (b1 # b2 # rest) = Some ((b0, b1, b2), b0, rest)"
  using assms not_less_min3(1) [of "length (b1 # b2 # rest)"]
  by (auto simp: dec_message_def decode_three_bytes_def check_decode_running_status_def
      update_running_status_def three_bytes_of_def Let_def array_get_def)

lemma dec_message_full:
  assumes "0x80 \<le> b0" and "b0 \<le> 0xef"
  shows "dec_message s (b0 # b1 # b2 # rest) = Some ((b0, b1, b2), b0, rest)"
  using assms not_less_min3(2) [of "length (b0 # b1 # b2 # rest)"]
  by (auto simp: dec_message_def decode_three_bytes_def check_decode_running_status_def
      update_running_status_def three_bytes_of_def Let_def array_get_def)

lemma dec_enc_message:
  assumes "channel_message m" and "enc_message s m = (bs, s')"
  shows "dec_message s (bs @ rest) = Some (m, s', rest)"
  using assms dec_message_running dec_message_full
  by (cases m) (auto simp: enc_message_eq split: if_splits)

interpretation message: stream_codec enc_message dec_message "\<lambda>_. channel_message" channel_status 3
proof
  show "dec_message s (bs @ rest) = Some (m, s', rest)"
    if "channel_status s" "channel_message m" "enc_message s m = (bs, s')" for s m bs s' rest
    using that(2,3) by (rule dec_enc_message)
  show "channel_status s'" if "channel_status s" "channel_message m" "enc_message s m = (bs, s')" for s m bs s'
    using that by (cases m) (auto simp: enc_message_eq channel_status_def)
  show "0 < length bs \<and> length bs \<le> 3"
    if "channel_status s" "channel_message m" "enc_message s m = (bs, s')" for s m bs s'
    using that by (cases m) (auto simp: enc_message_eq split: if_splits)
qed


lemma valid_list_channel [simp]:
  "valid_list enc_message (\<lambda>_. channel_message) s ms \<longleftrightarrow> list_all channel_message ms"
  by (induction ms arbitrary: s) auto

section \<open>Properties\<close>

text \<open>
  A property of a note message that was set is the one that is got back, the three other
  properties keep their values (status and channel share a byte), and the message keeps its
  four data bytes. The getter and setter agree on the property, the size and the pointer.
\<close>

theorem set_get_property:
  assumes "wf_data d" and "set_note_off_on d p sz v = (0, d')"
  shows "wf_data d' \<and> get_note_off_on d' p sz v = (0, v) \<and>
    (\<forall>q. q \<noteq> p \<longrightarrow> get_note_off_on d' q sz v = get_note_off_on d q sz v)"
  using assms
  by (auto simp: set_note_off_on_def get_note_off_on_def wf_data_def MIDI_MESSAGE_DATA_BYTES_def
      property_defs split: option.splits if_splits)

definition sample_note :: MIDIMessageData where
  "sample_note = \<lparr>bytes = [0x93, 60, 100, 0], data_size = 0, data_ptr = None\<rparr>"

lemma set_get_property_witness:
  "\<exists>d'. set_note_off_on sample_note MIDI_CHANNEL 1 (Some 5) = (0, d') \<and>
     get_note_off_on d' MIDI_CHANNEL 1 (Some 5) = (0, Some 5) \<and>
     get_note_off_on d' MIDI_STATUS 1 (Some 5) = (0, Some 9)"
proof -
  obtain d' where s: "set_note_off_on sample_note MIDI_CHANNEL 1 (Some 5) = (0, d')"
    by (simp add: set_note_off_on_def property_defs)
  have "wf_data sample_note" by (simp add: wf_data_def sample_note_def MIDI_MESSAGE_DATA_BYTES_def)
  note p = set_get_property [OF this s]
  have "get_note_off_on sample_note MIDI_STATUS 1 (Some 5) = (0, Some 9)"
    by (simp add: get_note_off_on_def property_defs sample_note_def MIDI_HIGH_NIBBLE_def)
  moreover have "MIDI_STATUS \<noteq> MIDI_CHANNEL" by (simp add: property_defs)
  ultimately have "get_note_off_on d' MIDI_STATUS 1 (Some 5) = (0, Some 9)" using p by metis
  with p s show ?thesis by blast
qed

text \<open>The number of messages whose status byte has to be written.\<close>

fun status_changes :: "u8 \<Rightarrow> three_bytes list \<Rightarrow> nat" where
  "status_changes s [] = 0"
| "status_changes s ((b0, b1, b2) # ms) = (if s = b0 then 0 else 1) + status_changes b0 ms"

lemma enc_message_list_length:
  "list_all channel_message ms \<Longrightarrow>
     length (fst (enc_list enc_message s ms)) = 2 * length ms + status_changes s ms"
proof (induction ms arbitrary: s)
  case (Cons m ms)
  then show ?case by (cases m) (auto simp: enc_message_eq split_beta)
qed simp

text \<open>
  C23. Running status: any list of channel messages, encoded one after the other with the
  running status handed on, is decoded to the same list; a message costs two bytes, and one
  more where the status byte differs from that of the message before.
\<close>

theorem running_status_roundtrip:
  assumes "list_all channel_message ms"
  shows "dec_list dec_message (length ms) 0 (fst (enc_list enc_message 0 ms)) = Some ms \<and>
    length (fst (enc_list enc_message 0 ms)) = 2 * length ms + status_changes 0 ms"
  using message.dec_enc_list [of 0 ms "length ms"] enc_message_list_length [OF assms] assms
  by (simp add: channel_status_def)

definition sample_run :: "three_bytes list" where
  "sample_run = [(0x90, 60, 100), (0x90, 64, 90), (0x80, 60, 0)]"

lemma running_status_roundtrip_witness:
  "dec_list dec_message (length sample_run) 0 (fst (enc_list enc_message 0 sample_run)) = Some sample_run \<and>
   length (fst (enc_list enc_message 0 sample_run)) = 8"
proof -
  have "list_all channel_message sample_run" by (simp add: sample_run_def)
  moreover have "2 * length sample_run + status_changes 0 sample_run = 8" by (simp add: sample_run_def)
  ultimately show ?thesis using running_status_roundtrip [of sample_run] by metis
qed

end
