(* ===== verification/Midi_Clock.thy ===== *)
theory Midi_Clock
  imports C_Prelude
begin

text \<open>
  The clock of the AppleMIDI driver (\<open>applemidi/clock.c\<close>), which turns nanoseconds into ticks of
  a sampling rate with a fraction. The loops over prime factors need not end for a zero
  factor, so they are partial functions: \<open>None\<close> is a loop that does not return. Clocks live in
  a heap with a pointer to the global clock; \<open>now\<close> is what \<open>ktime_get\<close> returns.
\<close>

section \<open>Fractions\<close>

partial_function (option) divide_while :: "u64 \<Rightarrow> u64 \<Rightarrow> u64 \<Rightarrow> u64 \<Rightarrow> (u64 \<times> u64 \<times> u64) option" where
  "divide_while p n d fac =
     (if fac mod p = 0 then
        (if n mod p = 0 then divide_while p (n div p) d (fac div p)
         else divide_while p n (d * p) (fac div p))
      else Some (n, d, fac))"

partial_function (option) normalize_while :: "u64 \<Rightarrow> u64 \<Rightarrow> u64 \<Rightarrow> (u64 \<times> u64) option" where
  "normalize_while p n d =
     (if n mod p = 0 \<and> d mod p = 0 then normalize_while p (n div p) (d div p) else Some (n, d))"

text \<open>The table \<open>prime\<close> without its end mark 1.\<close>

definition primes :: "u64 list" where "primes = [7, 5, 3, 2]"

fun divide_primes :: "u64 list \<Rightarrow> u64 \<Rightarrow> u64 \<Rightarrow> u64 \<Rightarrow> (u64 \<times> u64) option" where
  "divide_primes [] n d fac = Some (n, d * fac)"
| "divide_primes (p # ps) n d fac =
     Option.bind (divide_while p n d fac) (\<lambda>(n, d, fac). divide_primes ps n d fac)"

definition divide_frac :: "u64 \<Rightarrow> u64 \<Rightarrow> u64 \<Rightarrow> (u64 \<times> u64) option" where
  "divide_frac n d fac = divide_primes primes n d fac"

definition multiply_frac :: "u64 \<Rightarrow> u64 \<Rightarrow> u64 \<Rightarrow> (u64 \<times> u64) option" where
  "multiply_frac n d fac = map_option (\<lambda>(d, n). (n, d)) (divide_frac d n fac)"

fun normalize_primes :: "u64 list \<Rightarrow> u64 \<Rightarrow> u64 \<Rightarrow> (u64 \<times> u64) option" where
  "normalize_primes [] n d = Some (n, d)"
| "normalize_primes (p # ps) n d =
     Option.bind (normalize_while p n d) (\<lambda>(n, d). normalize_primes ps n d)"

definition normalize_frac :: "u64 \<Rightarrow> u64 \<Rightarrow> (u64 \<times> u64) option" where
  "normalize_frac n d = normalize_primes primes n d"

section \<open>Clocks\<close>

record MIDIClock =
  clock_refs :: int
  offset :: s64
  rate :: u32
  numer :: u64
  denom :: u64

type_synonym clock_heap = "nat \<rightharpoonup> MIDIClock"

definition NSEC_PER_SEC :: u64 where "NSEC_PER_SEC = 1000000000"

text \<open>The table of time sources; its one entry is the clock of the kernel, in nanoseconds.\<close>

record time_source =
  source_init :: "MIDIClock \<Rightarrow> MIDIClock"
  source_timestamp :: "u64 \<Rightarrow> u64"

definition init_clock_kernel :: "MIDIClock \<Rightarrow> MIDIClock" where
  "init_clock_kernel clock = clock\<lparr>numer := 1, denom := NSEC_PER_SEC\<rparr>"

definition timestamp_kernel :: "u64 \<Rightarrow> u64" where
  "timestamp_kernel now = now"

definition midi_clock :: "time_source list" where
  "midi_clock = [\<lparr>source_init = init_clock_kernel, source_timestamp = timestamp_kernel\<rparr>]"

lemma midi_clock_source [simp]: "source_init (midi_clock ! 0) = init_clock_kernel" "source_timestamp (midi_clock ! 0) now = now"
  by (simp_all add: midi_clock_def timestamp_kernel_def)

definition get_real_time :: "u64 \<Rightarrow> MIDIClock \<Rightarrow> s64 res" where
  "get_real_time now clock =
     (if denom clock = 0 then Inl Division_by_zero
      else Inr (source_timestamp (midi_clock ! 0) now * numer clock div denom clock))"

text \<open>
  \<open>fresh\<close> is what \<open>kmalloc\<close> returns; it is not compared with \<open>NULL\<close>. All fields of the new clock are written before they
  are read, so those of the object may as well be zero.
\<close>

definition MIDIClockCreate ::
    "nat option \<Rightarrow> u64 \<Rightarrow> u32 \<Rightarrow> clock_heap \<Rightarrow> (nat \<times> clock_heap) res option" where
  "MIDIClockCreate fresh now r h =
     (case fresh of
        None \<Rightarrow> Some (Inl Null_pointer)
      | Some c \<Rightarrow>
          let clock = source_init (midi_clock ! 0) \<lparr>clock_refs = 1, offset = 0, rate = 0, numer = 0, denom = 0\<rparr>;
              r = (if r = 0 then ucast (denom clock div numer clock) else r)
          in Option.bind (multiply_frac (numer clock) (denom clock) (ucast r)) (\<lambda>(n, d).
             Option.bind (normalize_frac n d) (\<lambda>(n, d).
               let clock = clock\<lparr>rate := r, numer := n, denom := d\<rparr>
               in Some (bind_res (get_real_time now clock) (\<lambda>t.
                    Inr (c, h(c \<mapsto> clock\<lparr>offset := - 1 * t\<rparr>)))))))"

definition get_clock :: "clock_heap \<Rightarrow> nat \<Rightarrow> MIDIClock res" where
  "get_clock h c = (case h c of None \<Rightarrow> Inl Use_after_free | Some k \<Rightarrow> Inr k)"

definition MIDIClockRetain :: "nat \<Rightarrow> clock_heap \<Rightarrow> clock_heap res" where
  "MIDIClockRetain c h =
     bind_res (get_clock h c) (\<lambda>k. Inr (h(c \<mapsto> k\<lparr>clock_refs := clock_refs k + 1\<rparr>)))"

definition MIDIClockDestroy :: "nat \<Rightarrow> clock_heap \<Rightarrow> clock_heap" where
  "MIDIClockDestroy c h = h(c := None)"

definition MIDIClockRelease :: "nat \<Rightarrow> clock_heap \<Rightarrow> clock_heap res" where
  "MIDIClockRelease c h =
     bind_res (get_clock h c) (\<lambda>k.
       let n = clock_refs k - 1; h = h(c \<mapsto> k\<lparr>clock_refs := n\<rparr>)
       in Inr (if n = 0 then MIDIClockDestroy c h else h))"

text \<open>The result is the clock, the global clock and the heap.\<close>

definition MIDIClockProvide ::
    "nat option \<Rightarrow> u64 \<Rightarrow> u32 \<Rightarrow> nat option \<Rightarrow> clock_heap \<Rightarrow>
     (nat \<times> nat option \<times> clock_heap) res option" where
  "MIDIClockProvide fresh now r global h =
     (case global of
        None \<Rightarrow>
          map_option (\<lambda>m. bind_res m (\<lambda>(c, h). bind_res (MIDIClockRetain c h) (\<lambda>h. Inr (c, Some c, h))))
            (MIDIClockCreate fresh now r h)
      | Some g \<Rightarrow>
          (case get_clock h g of
             Inl e \<Rightarrow> Some (Inl e)
           | Inr k \<Rightarrow>
               if rate k = r then Some (bind_res (MIDIClockRetain g h) (\<lambda>h. Inr (g, global, h)))
               else map_option (\<lambda>m. bind_res m (\<lambda>(c, h). Inr (c, global, h)))
                      (MIDIClockCreate fresh now r h)))"

definition get_global_clock ::
    "nat option \<Rightarrow> u64 \<Rightarrow> nat option \<Rightarrow> clock_heap \<Rightarrow> (nat \<times> nat option \<times> clock_heap) res option" where
  "get_global_clock fresh now global h =
     (case global of
        None \<Rightarrow> map_option (\<lambda>m. bind_res m (\<lambda>(c, h). Inr (c, Some c, h))) (MIDIClockCreate fresh now 0 h)
      | Some g \<Rightarrow> Some (Inr (g, global, h)))"

text \<open>\<open>now'\<close> is the time at which a global clock is created, if that is needed.\<close>

definition MIDIClockGetNow ::
    "nat option \<Rightarrow> u64 \<Rightarrow> u64 \<Rightarrow> nat option \<Rightarrow> nat option \<Rightarrow> clock_heap \<Rightarrow>
     (s64 \<times> nat option \<times> clock_heap) res option" where
  "MIDIClockGetNow fresh now' now clock global h =
     map_option (\<lambda>m. bind_res m (\<lambda>(c, global, h).
         bind_res (get_clock h c) (\<lambda>k. bind_res (get_real_time now k) (\<lambda>t. Inr (t + offset k, global, h)))))
       (case clock of
          None \<Rightarrow> get_global_clock fresh now' global h
        | Some c \<Rightarrow> Some (Inr (c, global, h)))"


section \<open>The fractions keep their value\<close>

text \<open>
  \<open>n / (d * fac)\<close> is the value in hand while a factor is divided away; a common factor is
  cancelled in each step. The products stay below \<open>2 ^ 64\<close> since \<open>d * fac\<close> never grows.
\<close>

lemma unat_mult_small: "unat a * unat b < 18446744073709551616 \<Longrightarrow> unat (a * b :: u64) = unat a * unat b"
  by (simp add: unat_word_ariths(2))

lemma word_mod_0_iff: "(a :: u64) mod b = 0 \<longleftrightarrow> unat b dvd unat a"
  by (simp add: word_unat_eq_iff unat_mod dvd_eq_mod_eq_0)

lemma divide_while_result:
  assumes "1 < unat p"
  shows "0 < unat fac \<Longrightarrow> unat d * unat fac < 18446744073709551616 \<Longrightarrow>
    \<exists>n' d' fac' k. divide_while p n d fac = Some (n', d', fac') \<and>
      unat n = unat n' * k \<and> unat d * unat fac = unat d' * unat fac' * k \<and> 0 < unat fac' \<and> 0 < k"
proof (induction "unat fac" arbitrary: fac n d rule: less_induct)
  case less
  show ?case
  proof (cases "unat p dvd unat fac")
    case False
    then have "divide_while p n d fac = Some (n, d, fac)"
      by (subst divide_while.simps) (simp add: word_mod_0_iff)
    with less.prems show ?thesis by (intro exI [of _ n] exI [of _ d] exI [of _ fac] exI [of _ 1]) simp
  next
    case True
    then obtain f where f: "unat fac = unat p * f" by blast
    have fd: "unat (fac div p) = f" using f assms by (simp add: unat_div)
    have f0: "0 < f" using less.prems(1) f by (cases f) auto
    have lt: "unat (fac div p) < unat fac" using f0 assms by (simp add: fd f)
    show ?thesis
    proof (cases "unat p dvd unat n")
      case True
      then obtain m where m: "unat n = unat p * m" by blast
      have "unat d * f \<le> unat d * unat fac" using assms by (simp add: f)
      with less.prems(2) have b: "unat d * unat (fac div p) < 18446744073709551616"
        unfolding fd by (rule order_le_less_trans [rotated])
      have s: "divide_while p n d fac = divide_while p (n div p) d (fac div p)"
        using \<open>unat p dvd unat fac\<close> True by (subst divide_while.simps) (simp add: word_mod_0_iff)
      obtain n' d' fac' k where r: "divide_while p (n div p) d (fac div p) = Some (n', d', fac')"
        "unat (n div p) = unat n' * k" "unat d * unat (fac div p) = unat d' * unat fac' * k" "0 < unat fac'" "0 < k"
        using less.hyps [OF lt _ b, of "n div p"] f0 fd by auto
      have "unat (n div p) = m" using m assms by (simp add: unat_div)
      with r fd show ?thesis
        by (intro exI [of _ n'] exI [of _ d'] exI [of _ fac'] exI [of _ "unat p * k"])
           (use assms in \<open>auto simp: s m f ac_simps\<close>)
    next
      case False
      have "unat d * unat p \<le> unat d * unat fac" using f0 by (simp add: f)
      then have dp: "unat (d * p) = unat d * unat p"
        using less.prems(2) by (intro unat_mult_small) (rule order_le_less_trans)
      then have e: "unat (d * p) * unat (fac div p) = unat d * unat fac" by (simp add: fd f ac_simps)
      have s: "divide_while p n d fac = divide_while p n (d * p) (fac div p)"
        using \<open>unat p dvd unat fac\<close> False by (subst divide_while.simps) (simp add: word_mod_0_iff)
      obtain n' d' fac' k where "divide_while p n (d * p) (fac div p) = Some (n', d', fac')"
        "unat n = unat n' * k" "unat (d * p) * unat (fac div p) = unat d' * unat fac' * k" "0 < unat fac'" "0 < k"
        using less.hyps [OF lt, of "d * p" n] f0 fd less.prems(2) e by auto
      with s e show ?thesis by auto
    qed
  qed
qed

lemma divide_primes_result:
  assumes "\<forall>p \<in> set ps. 1 < unat p"
  shows "0 < unat fac \<Longrightarrow> unat d * unat fac < 18446744073709551616 \<Longrightarrow>
    \<exists>n' d' k. divide_primes ps n d fac = Some (n', d') \<and>
      unat n = unat n' * k \<and> unat d * unat fac = unat d' * k \<and> 0 < k"
  using assms
proof (induction ps arbitrary: n d fac)
  case Nil
  then show ?case
    by (intro exI [of _ n] exI [of _ "d * fac"] exI [of _ 1]) (simp add: unat_mult_small)
next
  case (Cons p ps)
  obtain n1 d1 f1 k1 where 1: "divide_while p n d fac = Some (n1, d1, f1)" "unat n = unat n1 * k1"
    "unat d * unat fac = unat d1 * unat f1 * k1" "0 < unat f1" "0 < k1"
    using divide_while_result [of p fac d n] Cons.prems by auto
  have "unat d1 * unat f1 \<le> unat d * unat fac" using 1(3,5) by simp
  then obtain n2 d2 k2 where "divide_primes ps n1 d1 f1 = Some (n2, d2)" "unat n1 = unat n2 * k2"
    "unat d1 * unat f1 = unat d2 * k2" "0 < k2"
    using Cons.IH [of f1 d1 n1] Cons.prems 1(4) by auto
  with 1 show ?case
    by (intro exI [of _ n2] exI [of _ d2] exI [of _ "k2 * k1"]) (auto simp: ac_simps)
qed


lemma normalize_while_result:
  assumes "1 < unat p"
  shows "0 < unat d \<Longrightarrow> \<exists>n' d' k. normalize_while p n d = Some (n', d') \<and>
      unat n = unat n' * k \<and> unat d = unat d' * k \<and> 0 < k"
proof (induction "unat d" arbitrary: n d rule: less_induct)
  case less
  show ?case
  proof (cases "unat p dvd unat n \<and> unat p dvd unat d")
    case False
    then have "normalize_while p n d = Some (n, d)"
      by (subst normalize_while.simps) (auto simp: word_mod_0_iff)
    then show ?thesis by (intro exI [of _ n] exI [of _ d] exI [of _ 1]) simp
  next
    case True
    then obtain a b where a: "unat n = unat p * a" and b: "unat d = unat p * b" by blast
    have na: "unat (n div p) = a" and db: "unat (d div p) = b" using a b assms by (simp_all add: unat_div)
    have b0: "0 < b" using less.prems b by (cases b) auto
    have lt: "unat (d div p) < unat d" using b0 assms by (simp add: db b)
    have s: "normalize_while p n d = normalize_while p (n div p) (d div p)"
      using True by (subst normalize_while.simps) (simp add: word_mod_0_iff)
    obtain n' d' k where "normalize_while p (n div p) (d div p) = Some (n', d')"
      "unat (n div p) = unat n' * k" "unat (d div p) = unat d' * k" "0 < k"
      using less.hyps [OF lt, of "n div p"] b0 db by auto
    with na db show ?thesis
      by (intro exI [of _ n'] exI [of _ d'] exI [of _ "unat p * k"])
         (use assms in \<open>auto simp: s a b ac_simps\<close>)
  qed
qed

lemma normalize_primes_result:
  assumes "\<forall>p \<in> set ps. 1 < unat p"
  shows "0 < unat d \<Longrightarrow> \<exists>n' d' k. normalize_primes ps n d = Some (n', d') \<and>
      unat n = unat n' * k \<and> unat d = unat d' * k \<and> 0 < k"
  using assms
proof (induction ps arbitrary: n d)
  case Nil
  then show ?case by (intro exI [of _ n] exI [of _ d] exI [of _ 1]) simp
next
  case (Cons p ps)
  obtain n1 d1 k1 where 1: "normalize_while p n d = Some (n1, d1)" "unat n = unat n1 * k1"
    "unat d = unat d1 * k1" "0 < k1"
    using normalize_while_result [of p d n] Cons.prems by auto
  then obtain n2 d2 k2 where "normalize_primes ps n1 d1 = Some (n2, d2)" "unat n1 = unat n2 * k2"
    "unat d1 = unat d2 * k2" "0 < k2"
    using Cons.IH [of d1 n1] Cons.prems by auto
  with 1 show ?case
    by (intro exI [of _ n2] exI [of _ d2] exI [of _ "k2 * k1"]) (auto simp: ac_simps)
qed

lemma primes_gt_1: "\<forall>p \<in> set primes. 1 < unat p"
  by (simp add: primes_def)

text \<open>The rate a new clock ends up with, and its fraction: \<open>rate / 10 ^ 9\<close> with a factor cancelled.\<close>

definition clock_rate :: "u32 \<Rightarrow> u32" where
  "clock_rate r = (if r = 0 then 1000000000 else r)"

lemma clock_fraction:
  "\<exists>n d n' d' k. multiply_frac 1 NSEC_PER_SEC (ucast (clock_rate r)) = Some (n, d) \<and>
     normalize_frac n d = Some (n', d') \<and>
     unat (clock_rate r) = unat n' * k \<and> 1000000000 = unat d' * k \<and> 0 < k"
proof -
  have r: "0 < unat (clock_rate r)"
    by (simp add: clock_rate_def unat_gt_0)
  let ?f = "ucast (clock_rate r) :: u64"
  have f: "unat ?f = unat (clock_rate r)"
    by (simp add: unsigned_ucast_eq take_bit_nat_eq_self)
  have "unat (1 :: u64) * unat ?f < 18446744073709551616"
    by (simp add: f)
  then obtain d n k1 where 1: "divide_primes primes NSEC_PER_SEC 1 ?f = Some (d, n)"
    "unat NSEC_PER_SEC = unat d * k1" "unat (1 :: u64) * unat ?f = unat n * k1" "0 < k1"
    using divide_primes_result [OF primes_gt_1, of ?f 1 NSEC_PER_SEC] r f by auto
  have m: "multiply_frac 1 NSEC_PER_SEC ?f = Some (n, d)"
    by (simp add: multiply_frac_def divide_frac_def 1(1))
  have "0 < unat d" using 1(2) by (cases "unat d") (auto simp: NSEC_PER_SEC_def)
  then obtain n' d' k2 where 2: "normalize_primes primes n d = Some (n', d')" "unat n = unat n' * k2"
    "unat d = unat d' * k2" "0 < k2"
    using normalize_primes_result [OF primes_gt_1, of d n] by auto
  have "normalize_frac n d = Some (n', d')" using 2(1) by (simp add: normalize_frac_def)
  moreover have "unat (clock_rate r) = unat n' * (k2 * k1)" using 1(3) 2(2) f by (simp add: mult.assoc)
  moreover have "1000000000 = unat d' * (k2 * k1)"
  proof -
    have "unat NSEC_PER_SEC = 1000000000" by (simp add: NSEC_PER_SEC_def)
    with 1(2) 2(3) show ?thesis by (simp only: mult.assoc)
  qed
  moreover have "0 < k2 * k1" using 1(4) 2(4) by simp
  ultimately show ?thesis using m by blast
qed

lemma real_time_eq:
  assumes "unat (clock_rate r) = unat n * k" and "1000000000 = unat d * k" and "0 < k"
    and "numer c = n" and "denom c = d" and "unat t * unat (clock_rate r) < 18446744073709551616"
  shows "get_real_time t c = Inr (of_nat (unat t * unat (clock_rate r) div 1000000000))"
proof -
  have "unat t * unat n \<le> unat t * unat (clock_rate r)" using assms(1,3) by simp
  then have tn: "unat (t * n) = unat t * unat n" using assms(6)
    by (intro unat_mult_small) (rule order_le_less_trans)
  have d: "d \<noteq> 0" using assms(2) by auto
  have "unat (t * n div d) = unat t * unat n div unat d" by (simp add: unat_div tn)
  also have "\<dots> = (unat t * unat n) * k div (unat d * k)" using assms(3) by simp
  also have "\<dots> = unat t * unat (clock_rate r) div 1000000000"
    by (simp add: assms(1) assms(2) [symmetric] mult.assoc)
  finally have "of_nat (unat (t * n div d)) = (of_nat (unat t * unat (clock_rate r) div 1000000000) :: u64)"
    by simp
  then have "t * n div d = of_nat (unat t * unat (clock_rate r) div 1000000000)" by simp
  with assms(4,5) d show ?thesis by (simp add: get_real_time_def)
qed


section \<open>Created clocks\<close>

lemma unat_of_nat_u64: "n < 18446744073709551616 \<Longrightarrow> unat (of_nat n :: u64) = n"
  by (simp add: unat_of_nat)

text \<open>Creating a clock ends, without fault, when the first reading does not overflow.\<close>

lemma clock_create:
  assumes "unat t0 * unat (clock_rate r) < 18446744073709551616"
  obtains k n d where
    "MIDIClockCreate (Some c) t0 r h = Some (Inr (c, h(c \<mapsto> k)))"
    and "k = \<lparr>clock_refs = 1, offset = - of_nat (unat t0 * unat (clock_rate r) div 1000000000),
              rate = clock_rate r, numer = n, denom = d\<rparr>"
    and "\<forall>t. unat t * unat (clock_rate r) < 18446744073709551616 \<longrightarrow>
      get_real_time t k = Inr (of_nat (unat t * unat (clock_rate r) div 1000000000))"
proof -
  obtain n1 d1 n d q where f: "multiply_frac 1 NSEC_PER_SEC (ucast (clock_rate r)) = Some (n1, d1)"
    "normalize_frac n1 d1 = Some (n, d)" and q: "unat (clock_rate r) = unat n * q" "1000000000 = unat d * q" "0 < q"
    using clock_fraction by blast
  have rr: "(if r = 0 then ucast (NSEC_PER_SEC div 1) else r) = clock_rate r"
    by (simp add: clock_rate_def NSEC_PER_SEC_def)
  note rt = real_time_eq [OF q]
  let ?k = "\<lparr>clock_refs = 1, offset = - of_nat (unat t0 * unat (clock_rate r) div 1000000000),
              rate = clock_rate r, numer = n, denom = d\<rparr>"
  have "MIDIClockCreate (Some c) t0 r h = Some (Inr (c, h(c \<mapsto> ?k)))"
    using rt [of "\<lparr>clock_refs = 1, offset = 0, rate = clock_rate r, numer = n, denom = d\<rparr>" t0] assms f
    by (simp only: MIDIClockCreate_def Let_def midi_clock_source init_clock_kernel_def MIDIClock.simps rr option.case
        Option.bind.bind_lunit prod.case) simp
  with rt [of ?k] that show thesis by simp
qed

section \<open>Properties\<close>

text \<open>
  C24. A clock created at time \<open>t0\<close> and read at a later time \<open>t1\<close> (both in nanoseconds) has made
  exactly the difference of the two times, each rounded down to ticks of its rate: the loops
  that build its fraction end, nothing divides by zero, and no reading drifts, as long as
  \<open>t1\<close> times the rate fits in 64 bits. A rate of 0 stands for one tick per nanosecond.
\<close>

theorem clock_ticks:
  assumes "unat t0 \<le> unat t1" and "unat t1 * unat (clock_rate r) < 18446744073709551616"
  shows "\<exists>h' now. MIDIClockCreate (Some c) t0 r h = Some (Inr (c, h')) \<and>
    MIDIClockGetNow fresh t t1 (Some c) global h' = Some (Inr (now, global, h')) \<and>
    unat now = unat t1 * unat (clock_rate r) div 1000000000 - unat t0 * unat (clock_rate r) div 1000000000"
proof -
  let ?a = "unat t1 * unat (clock_rate r) div 1000000000" and ?b = "unat t0 * unat (clock_rate r) div 1000000000"
  have le: "unat t0 * unat (clock_rate r) \<le> unat t1 * unat (clock_rate r)" using assms(1) by simp
  then have "unat t0 * unat (clock_rate r) < 18446744073709551616" using assms(2) by (rule order_le_less_trans)
  then obtain k n d where c: "MIDIClockCreate (Some c) t0 r h = Some (Inr (c, h(c \<mapsto> k)))"
    and k: "k = \<lparr>clock_refs = 1, offset = - of_nat ?b, rate = clock_rate r, numer = n, denom = d\<rparr>"
    and rt_all: "\<forall>t. unat t * unat (clock_rate r) < 18446744073709551616 \<longrightarrow>
      get_real_time t k = Inr (of_nat (unat t * unat (clock_rate r) div 1000000000))"
    by (rule clock_create [where c = c and h = h])
  have rt: "get_real_time t1 k = Inr (of_nat ?a)" using rt_all assms(2) by simp
  have "?b \<le> ?a" using le by (rule div_le_mono)
  then have "(of_nat ?a :: u64) + offset k = of_nat (?a - ?b)" by (simp add: k of_nat_diff)
  moreover have "unat (of_nat (?a - ?b) :: u64) = ?a - ?b"
  proof (rule unat_of_nat_u64)
    have "?a - ?b \<le> unat t1 * unat (clock_rate r)" by (meson diff_le_self div_le_dividend le_trans)
    then show "?a - ?b < 18446744073709551616" using assms(2) by (rule order_le_less_trans)
  qed
  ultimately show ?thesis
    using c rt by (intro exI [of _ "h(c \<mapsto> k)"] exI [of _ "of_nat (?a - ?b)"])
      (simp add: MIDIClockGetNow_def get_clock_def)
qed

lemma clock_ticks_witness:
  "\<exists>h' now. MIDIClockCreate (Some 8) 5000050000 10000 Map.empty = Some (Inr (8, h')) \<and>
    MIDIClockGetNow None 0 7500099999 (Some 8) None h' = Some (Inr (now, None, h')) \<and> unat now = 25000"
  using clock_ticks [of 5000050000 7500099999 10000 8 Map.empty None 0 None] by (simp add: clock_rate_def)

text \<open>
  The first clock that is provided becomes the global clock with a reference of its own, so
  releasing it does not free it, and providing the same rate again gives the same clock; no
  operation of the program drops the reference of the global pointer.
\<close>

theorem global_clock_kept:
  assumes "unat t0 * unat (clock_rate r) < 18446744073709551616" and "r \<noteq> 0"
  shows "\<exists>k h1. MIDIClockProvide (Some c) t0 r None h = Some (Inr (c, Some c, h1)) \<and>
    MIDIClockRelease c h1 = Inr (h(c \<mapsto> k)) \<and> clock_refs k = 1 \<and>
    (\<exists>h2. MIDIClockProvide fresh t r (Some c) (h(c \<mapsto> k)) = Some (Inr (c, Some c, h2)))"
proof -
  obtain k n d where c: "MIDIClockCreate (Some c) t0 r h = Some (Inr (c, h(c \<mapsto> k)))"
    and k: "k = \<lparr>clock_refs = 1, offset = - of_nat (unat t0 * unat (clock_rate r) div 1000000000),
              rate = clock_rate r, numer = n, denom = d\<rparr>"
    using clock_create [OF assms(1), of c h] by metis
  have "rate k = r" using assms(2) by (simp add: k clock_rate_def)
  with c show ?thesis
    by (intro exI [of _ k] exI [of _ "h(c \<mapsto> k\<lparr>clock_refs := 2\<rparr>)"])
       (simp add: MIDIClockProvide_def MIDIClockRetain_def MIDIClockRelease_def get_clock_def k Let_def)
qed

lemma global_clock_kept_witness:
  "\<exists>k h1. MIDIClockProvide (Some 8) 5000050000 10000 None Map.empty = Some (Inr (8, Some 8, h1)) \<and>
    MIDIClockRelease 8 h1 = Inr [8 \<mapsto> k] \<and> clock_refs k = 1"
  using global_clock_kept [of 5000050000 10000 8 Map.empty None 0] by (auto simp: clock_rate_def)

end
