(* ===== verification/Alsa_Client.thy ===== *)
theory Alsa_Client
  imports Apple_Calls Midi_Message Midi_Clock
begin

text \<open>
  The ALSA side of the AppleMIDI module: registration and removal of its sequencer client
  (\<open>applemidi/alsa.c\<close>) and the driver object that holds the client and a clock
  (\<open>applemidi/midi.c\<close>). The callback for events is in \<open>Apple_System\<close>, since it sends.
\<close>

section \<open>The sequencer client\<close>

text \<open>
  The private data of the client is one message in a list of length one, and a pointer to the
  driver, which the model passes to the callback instead.
\<close>

record ALSADriver =
  alsa_card :: "nat option"
  alsa_client :: int
  alsa_msg :: MIDIMessage

text \<open>
  What the kernel answers: whether the two calls of \<open>kmalloc\<close> succeed and what the private object
  held before, and the results of the ALSA core.
\<close>

record register_env =
  alsa_object :: bool
  private_object :: "MIDIMessage option"
  card_create :: "int \<times> nat option"
  client_create :: "nat option \<Rightarrow> int"
  port_create :: "int \<Rightarrow> int"
  card_register :: int

definition dummy_unuse :: int where "dummy_unuse = 0"

definition create_port :: "register_env \<Rightarrow> int \<Rightarrow> int \<times> acall list" where
  "create_port K my_client = (if port_create K my_client < 0 then - 1 else 0, [Port_create my_client])"

text \<open>The labels at the end of \<open>ALSARegisterClient\<close>, each of which falls through to the next.\<close>

definition fail_card :: "acall list" where
  "fail_card = [Kfree_private, Kfree_alsa]"

definition fail_client :: "nat option \<Rightarrow> acall list" where
  "fail_client c = Card_free c # fail_card"

definition fail_port :: "nat option \<Rightarrow> int \<Rightarrow> acall list" where
  "fail_port c n = Client_delete n # fail_client c"

text \<open>The result pointer and the calls; the results of \<open>kmalloc\<close> are not compared with \<open>NULL\<close>.\<close>

definition ALSARegisterClient :: "register_env \<Rightarrow> (ALSADriver option \<times> acall list) res" where
  "ALSARegisterClient K =
     (if \<not> alsa_object K then Inl Null_pointer
      else bind_res (deref (private_object K)) (\<lambda>msg.
        let (err, c) = card_create K; cs = [Kmalloc_alsa, Kmalloc_private, Card_create err]
        in if err < 0 then Inr (None, cs @ fail_card)
           else
             let n = client_create K c; cs = cs @ [Client_create n]
             in if n < 0 then Inr (None, cs @ fail_client c)
                else
                  let (ret, ps) = create_port K n; cs = cs @ ps
                  in if ret < 0 then Inr (None, cs @ fail_port c n)
                     else
                       let cs = cs @ [Card_register]
                       in if card_register K < 0 then Inr (None, cs @ fail_port c n)
                          else Inr (Some \<lparr>alsa_card = c, alsa_client = n, alsa_msg = msg\<rparr>, cs)))"

definition ALSADeleteClient :: "ALSADriver option \<Rightarrow> acall list" where
  "ALSADeleteClient driver =
     (case driver of
        None \<Rightarrow> []
      | Some d \<Rightarrow>
          (if alsa_client d \<noteq> 0 then [Client_delete (alsa_client d)] else []) @
          (if alsa_card d \<noteq> None then [Card_free (alsa_card d)] else []) @
          [Kfree_private, Kfree_alsa])"

section \<open>The driver object\<close>

record MIDIDriver =
  base_refs :: u32
  base_port :: "ALSADriver option"
  base_clock :: "nat option"

text \<open>A loop of the clock's fractions that does not end is the fault \<open>Endless_loop\<close>.\<close>

definition returned :: "'a res option \<Rightarrow> 'a res" where
  "returned m = (case m of None \<Rightarrow> Inl Endless_loop | Some r \<Rightarrow> r)"

lemma returned_Some [simp, fault_simps]: "returned (Some r) = r"
  by (simp add: returned_def)

text \<open>\<open>fresh\<close> and \<open>now\<close> are the new clock and the time, the result has the global clock and the clocks.\<close>

definition MIDIDriverInit ::
    "register_env \<Rightarrow> nat option \<Rightarrow> u64 \<Rightarrow> u32 \<Rightarrow> nat option \<Rightarrow> clock_heap \<Rightarrow>
     (MIDIDriver \<times> nat option \<times> clock_heap \<times> acall list) res" where
  "MIDIDriverInit K fresh now r global h =
     bind_res (ALSARegisterClient K) (\<lambda>(port, cs).
     bind_res (returned (MIDIClockProvide fresh now r global h)) (\<lambda>(clock, global, h).
       Inr (\<lparr>base_refs = 1, base_port = port, base_clock = Some clock\<rparr>, global, h, cs)))"

definition MIDIDriverDestroy :: "MIDIDriver \<Rightarrow> clock_heap \<Rightarrow> (clock_heap \<times> acall list) res" where
  "MIDIDriverDestroy driver h =
     bind_res (case base_clock driver of None \<Rightarrow> Inr h | Some c \<Rightarrow> MIDIClockRelease c h) (\<lambda>h.
       Inr (h, ALSADeleteClient (base_port driver)))"

definition MIDIDriverRetain :: "MIDIDriver \<Rightarrow> MIDIDriver" where
  "MIDIDriverRetain driver = driver\<lparr>base_refs := base_refs driver + 1\<rparr>"

definition MIDIDriverRelease :: "MIDIDriver \<Rightarrow> clock_heap \<Rightarrow> (MIDIDriver \<times> clock_heap \<times> acall list) res" where
  "MIDIDriverRelease driver h =
     (let n = base_refs driver - 1; driver = driver\<lparr>base_refs := n\<rparr>
      in if n = 0 then bind_res (MIDIDriverDestroy driver h) (\<lambda>(h, cs). Inr (driver, h, cs))
         else Inr (driver, h, []))"

end
