(* ===== verification/Apple_Command.thy ===== *)
theory Apple_Command
  imports Rtp_Packet
begin

text \<open>
  The commands of the AppleMIDI session protocol and their wire format: the command structure of
  \<open>applemidi/applemidi.h\<close> and \<open>_applemidi_send_command\<close>, \<open>_applemidi_recv_command\<close> and
  \<open>_test_applemidi\<close> of \<open>applemidi/applemidi.c\<close>. The union of the three kinds of data is the block
  of its 80 bytes: writing one member changes what the others read, and the handlers rely on
  what an earlier command left there. A message is built in the 64 bytes of a local array;
  the old contents of the array are a parameter, a write beyond it is a fault.

  Addresses and ports are the numbers their big-endian fields stand for. A socket and the
  \<open>struct sock\<close> in it have the same number.
\<close>

section \<open>Commands\<close>

definition APPLEMIDI_PROTOCOL_SIGNATURE :: u16 where "APPLEMIDI_PROTOCOL_SIGNATURE = 0xffff"
definition APPLEMIDI_COMMAND_INVITATION :: u16 where "APPLEMIDI_COMMAND_INVITATION = 0x494e"
definition APPLEMIDI_COMMAND_INVITATION_REJECTED :: u16 where "APPLEMIDI_COMMAND_INVITATION_REJECTED = 0x4e4f"
definition APPLEMIDI_COMMAND_INVITATION_ACCEPTED :: u16 where "APPLEMIDI_COMMAND_INVITATION_ACCEPTED = 0x4f4b"
definition APPLEMIDI_COMMAND_ENDSESSION :: u16 where "APPLEMIDI_COMMAND_ENDSESSION = 0x4259"
definition APPLEMIDI_COMMAND_SYNCHRONIZATION :: u16 where "APPLEMIDI_COMMAND_SYNCHRONIZATION = 0x434b"
definition APPLEMIDI_COMMAND_RECEIVER_FEEDBACK :: u16 where "APPLEMIDI_COMMAND_RECEIVER_FEEDBACK = 0x5253"
definition AF_INET :: u16 where "AF_INET = 2"

lemmas applemidi_consts = APPLEMIDI_PROTOCOL_SIGNATURE_def APPLEMIDI_COMMAND_INVITATION_def
  APPLEMIDI_COMMAND_INVITATION_REJECTED_def APPLEMIDI_COMMAND_INVITATION_ACCEPTED_def
  APPLEMIDI_COMMAND_ENDSESSION_def APPLEMIDI_COMMAND_SYNCHRONIZATION_def
  APPLEMIDI_COMMAND_RECEIVER_FEEDBACK_def AF_INET_def

definition session_command :: "u16 \<Rightarrow> bool" where
  "session_command t \<longleftrightarrow> t = APPLEMIDI_COMMAND_INVITATION \<or> t = APPLEMIDI_COMMAND_INVITATION_ACCEPTED \<or>
     t = APPLEMIDI_COMMAND_INVITATION_REJECTED \<or> t = APPLEMIDI_COMMAND_ENDSESSION"

record AppleMIDICommand =
  cmd_peer :: "peer_ptr option"
  cmd_addr :: sockaddr_in
  cmd_size :: int
  cmd_type :: u16
  cmd_data :: bytes

text \<open>
  The members of the union, at their offsets: \<open>session\<close> (12 bytes and the name of 64), \<open>sync\<close>
  (8 bytes and three time stamps aligned to 8) and \<open>feedback\<close>.
\<close>

definition DATA_SIZE :: nat where "DATA_SIZE = 80"
definition NAME_SIZE :: nat where "NAME_SIZE = 64"

abbreviation get32 :: "nat \<Rightarrow> bytes \<Rightarrow> u32" where "get32 \<equiv> block_get 4 le32_of"
abbreviation put32 :: "nat \<Rightarrow> u32 \<Rightarrow> bytes \<Rightarrow> bytes" where "put32 \<equiv> block_put le32"
abbreviation get64 :: "nat \<Rightarrow> bytes \<Rightarrow> u64" where "get64 \<equiv> block_get 8 le64_of"
abbreviation put64 :: "nat \<Rightarrow> u64 \<Rightarrow> bytes \<Rightarrow> bytes" where "put64 \<equiv> block_put le64"

definition session_version :: "bytes \<Rightarrow> u32" where "session_version = get32 0"
definition session_token :: "bytes \<Rightarrow> u32" where "session_token = get32 4"
definition session_ssrc :: "bytes \<Rightarrow> u32" where "session_ssrc = get32 8"
definition session_name :: "bytes \<Rightarrow> bytes" where "session_name d = take NAME_SIZE (drop 12 d)"

definition sync_ssrc :: "bytes \<Rightarrow> u32" where "sync_ssrc = get32 0"
definition sync_count :: "bytes \<Rightarrow> u32" where "sync_count = get32 4"
definition sync_timestamp1 :: "bytes \<Rightarrow> u64" where "sync_timestamp1 = get64 8"
definition sync_timestamp2 :: "bytes \<Rightarrow> u64" where "sync_timestamp2 = get64 16"
definition sync_timestamp3 :: "bytes \<Rightarrow> u64" where "sync_timestamp3 = get64 24"

definition feedback_ssrc :: "bytes \<Rightarrow> u32" where "feedback_ssrc = get32 0"
definition feedback_seqnum :: "bytes \<Rightarrow> u32" where "feedback_seqnum = get32 4"

lemmas field_defs = session_version_def session_token_def session_ssrc_def session_name_def
  sync_ssrc_def sync_count_def sync_timestamp1_def sync_timestamp2_def sync_timestamp3_def
  feedback_ssrc_def feedback_seqnum_def

section \<open>Sending\<close>

text \<open>The length of a string in an array, which has to be terminated in the array.\<close>

definition strlen :: "bytes \<Rightarrow> nat res" where
  "strlen s = (if 0 \<in> set s then Inr (length (takeWhile (\<lambda>c. c \<noteq> 0) s)) else Inl Out_of_bounds)"

text \<open>
  The first part of \<open>_applemidi_send_command\<close>: the message in \<open>msg\<close>, or \<open>None\<close> for an unknown
  type. Words are written in network order.
\<close>

definition build_command :: "bytes \<Rightarrow> AppleMIDICommand \<Rightarrow> bytes option res" where
  "build_command msg command =
     (let t = cmd_type command; d = cmd_data command in
      bind_res (buf_write msg 0 (be32 (push_bit 16 (ucast APPLEMIDI_PROTOCOL_SIGNATURE) OR ucast t))) (\<lambda>msg.
      if session_command t then
        bind_res (buf_write msg 4 (be32 (session_version d))) (\<lambda>msg.
        bind_res (buf_write msg 8 (be32 (session_token d))) (\<lambda>msg.
        bind_res (buf_write msg 12 (be32 (session_ssrc d))) (\<lambda>msg.
        if session_name d ! 0 \<noteq> 0 then
          bind_res (strlen (session_name d)) (\<lambda>n.
          let len = n + 1 in
          bind_res (buf_write msg 16 (take len (session_name d))) (\<lambda>msg. Inr (Some (take (len + 16) msg))))
        else Inr (Some (take 16 msg)))))
      else if t = APPLEMIDI_COMMAND_SYNCHRONIZATION then
        bind_res (buf_write msg 4 (be32 (sync_ssrc d))) (\<lambda>msg.
        bind_res (buf_write msg 8 (be32 (push_bit 24 (sync_count d)))) (\<lambda>msg.
        bind_res (buf_write msg 12 (be32 (ucast (drop_bit 32 (sync_timestamp1 d))))) (\<lambda>msg.
        bind_res (buf_write msg 16 (be32 (ucast (sync_timestamp1 d AND 0xffffffff)))) (\<lambda>msg.
        bind_res (buf_write msg 20 (be32 (ucast (drop_bit 32 (sync_timestamp2 d))))) (\<lambda>msg.
        bind_res (buf_write msg 24 (be32 (ucast (sync_timestamp2 d AND 0xffffffff)))) (\<lambda>msg.
        bind_res (buf_write msg 28 (be32 (ucast (drop_bit 32 (sync_timestamp3 d))))) (\<lambda>msg.
        bind_res (buf_write msg 32 (be32 (ucast (sync_timestamp3 d AND 0xffffffff)))) (\<lambda>msg.
        Inr (Some (take 36 msg))))))))))
      else if t = APPLEMIDI_COMMAND_RECEIVER_FEEDBACK then
        bind_res (buf_write msg 4 (be32 (feedback_ssrc d))) (\<lambda>msg.
        bind_res (buf_write msg 8 (be32 (feedback_seqnum d))) (\<lambda>msg.
        Inr (Some (take 12 msg))))
      else Inr None))"

text \<open>What goes out: the socket, the address and the bytes.\<close>

type_synonym datagram = "nat \<times> packet"

definition send_command ::
    "sendmsg \<Rightarrow> bytes \<Rightarrow> nat option \<Rightarrow> nat option \<Rightarrow> nat \<Rightarrow> AppleMIDICommand \<Rightarrow> (int \<times> datagram list) res" where
  "send_command sock_sendmsg msg control_socket rtp_socket sk command =
     bind_res (build_command msg command) (\<lambda>built.
       case built of
         None \<Rightarrow> Inr (1, [])
       | Some pkt \<Rightarrow>
           (if sin_family (cmd_addr command) = AF_INET then
              bind_res (deref control_socket) (\<lambda>c.
              bind_res (if c = sk then Inr (Some c)
                        else bind_res (deref rtp_socket) (\<lambda>r. Inr (if r = sk then Some r else None))) (\<lambda>source.
              let to = cmd_addr command;
                  (sentbytes, out) =
                    (case source of
                       None \<Rightarrow> (0, [])
                     | Some s \<Rightarrow> (fst (sock_sendmsg s to 16 pkt), [(s, to, pkt)]))
              in Inr (if sentbytes \<noteq> int (length pkt) then 1 else 0, out)))
            else Inr (1, [])))"

section \<open>Receiving\<close>

text \<open>A received datagram: the bytes from the UDP header on, and the source address of the IP header.\<close>

record sk_buff =
  skb_data :: bytes
  skb_saddr :: u32

definition net16 :: "bytes \<Rightarrow> nat \<Rightarrow> u16 res" where
  "net16 bs i = bind_res (array_get bs i) (\<lambda>a. bind_res (array_get bs (i + 1)) (\<lambda>b. Inr (be16_of a b)))"

definition net32 :: "bytes \<Rightarrow> nat \<Rightarrow> u32" where
  "net32 bs i = be32_of (bs ! i) (bs ! (i + 1)) (bs ! (i + 2)) (bs ! (i + 3))"

text \<open>The decoding of the message \<open>msg\<close> of length \<open>n\<close> into the command.\<close>

definition decode_command :: "bytes \<Rightarrow> nat \<Rightarrow> AppleMIDICommand \<Rightarrow> int \<times> AppleMIDICommand" where
  "decode_command msg n command =
     (let t = ucast (net32 msg 0 AND 0xffff); d = cmd_data command;
          command = command\<lparr>cmd_type := t\<rparr>
      in if session_command t then
           (if n < 16 then (1, command)
            else
              let d = put32 8 (net32 msg 12) (put32 4 (net32 msg 8) (put32 0 (net32 msg 4) d));
                  len = n - 16;
                  len' = (if len > NAME_SIZE - 1 then NAME_SIZE - 1 else len);
                  d = (if len > 0 then overlay (overlay d 12 (take len' (drop 16 msg))) (12 + len') [0] else d)
              in (0, command\<lparr>cmd_data := d\<rparr>))
         else if t = APPLEMIDI_COMMAND_SYNCHRONIZATION then
           (if n \<noteq> 36 then (1, command)
            else
              let d = put32 4 (drop_bit 24 (net32 msg 8)) (put32 0 (net32 msg 4) d);
                  d = put64 8 (push_bit 32 (ucast (net32 msg 12)) + ucast (net32 msg 16)) d;
                  d = put64 16 (push_bit 32 (ucast (net32 msg 20)) + ucast (net32 msg 24)) d;
                  d = put64 24 (push_bit 32 (ucast (net32 msg 28)) + ucast (net32 msg 32)) d
              in (0, command\<lparr>cmd_data := d\<rparr>))
         else if t = APPLEMIDI_COMMAND_RECEIVER_FEEDBACK then
           (if n \<noteq> 12 then (1, command)
            else (0, command\<lparr>cmd_data := put32 4 (net32 msg 8) (put32 0 (net32 msg 4) d)\<rparr>))
         else (1, command))"

text \<open>
  \<open>memcpy\<close> takes the length of the UDP header, which counts the header's eight bytes; a length
  below eight becomes a very large one.
\<close>

definition recv_command :: "bytes \<Rightarrow> sk_buff \<Rightarrow> AppleMIDICommand \<Rightarrow> (int \<times> AppleMIDICommand) res" where
  "recv_command msg skb command =
     (let command = command\<lparr>cmd_size := 16\<rparr> in
      bind_res (net16 (skb_data skb) 4) (\<lambda>l.
      let len = uint l - 8 in
      if len < 0 \<or> 8 + nat len > length (skb_data skb) then Inl Out_of_bounds
      else bind_res (buf_write msg 0 (take (nat len) (drop 8 (skb_data skb)))) (\<lambda>msg.
      bind_res (net16 (skb_data skb) 0) (\<lambda>port.
      let command = command\<lparr>cmd_addr := \<lparr>sin_family = AF_INET, sin_addr = skb_saddr skb, sin_port = port\<rparr>\<rparr>
      in Inr (decode_command msg (nat len) command)))))"

definition test_applemidi :: "bytes \<Rightarrow> int \<Rightarrow> int res" where
  "test_applemidi buf len =
     (if len < 4 then Inr (- 1)
      else bind_res (net16 buf 0) (\<lambda>sig.
           if sig = APPLEMIDI_PROTOCOL_SIGNATURE then
             bind_res (net16 buf 2) (\<lambda>t.
               Inr (if session_command t \<or> t = APPLEMIDI_COMMAND_RECEIVER_FEEDBACK \<or>
                       t = APPLEMIDI_COMMAND_SYNCHRONIZATION then 0 else 1))
           else Inr 1))"


section \<open>Fields of the union\<close>

text \<open>Reading after writing, for the members at fixed offsets of a block of known length.\<close>

lemma get32_put32 [simp]: "off + 4 \<le> length d \<Longrightarrow> get32 off (put32 off v d) = v"
  by (rule word32.get_put)

lemma get64_put64 [simp]: "off + 8 \<le> length d \<Longrightarrow> get64 off (put64 off v d) = v"
  by (rule word64.get_put)

lemma put_keeps_length [simp]:
  "off + 4 \<le> length d \<Longrightarrow> length (put32 off v d) = length d"
  "off + 8 \<le> length d \<Longrightarrow> length (put64 off w d) = length d"
  by (rule word32.put_length, assumption) (rule word64.put_length)

lemma get_put_other [simp]:
  "o1 + 4 \<le> o2 \<or> o2 + 4 \<le> o1 \<Longrightarrow> o2 + 4 \<le> length d \<Longrightarrow> get32 o1 (put32 o2 v d) = get32 o1 d"
  "o1 + 4 \<le> o2 \<or> o2 + 8 \<le> o1 \<Longrightarrow> o2 + 8 \<le> length d \<Longrightarrow> get32 o1 (put64 o2 w d) = get32 o1 d"
  "o1 + 8 \<le> o2 \<or> o2 + 4 \<le> o1 \<Longrightarrow> o2 + 4 \<le> length d \<Longrightarrow> get64 o1 (put32 o2 v d) = get64 o1 d"
  "o1 + 8 \<le> o2 \<or> o2 + 8 \<le> o1 \<Longrightarrow> o2 + 8 \<le> length d \<Longrightarrow> get64 o1 (put64 o2 w d) = get64 o1 d"
  using word32.get_overlay [of o1 o2 "le32 v" d] word32.get_overlay [of o1 o2 "le64 w" d]
    word64.get_overlay [of o1 o2 "le32 v" d] word64.get_overlay [of o1 o2 "le64 w" d]
  by (simp_all add: block_put_def word32.enc_width word64.enc_width)

lemma get32_overlay [simp]:
  "off + 4 \<le> o2 \<or> o2 + length bs \<le> off \<Longrightarrow> o2 + length bs \<le> length d \<Longrightarrow>
     get32 off (overlay d o2 bs) = get32 off d"
  by (rule word32.get_overlay)

lemma slice_put [simp]:
  "off + 4 \<le> o1 \<Longrightarrow> off + 4 \<le> length d \<Longrightarrow> take n (drop o1 (put32 off v d)) = take n (drop o1 d)"
  by (rule word32.put_slice) simp_all

section \<open>The wire format\<close>

text \<open>What a command says, and the bytes a message of the protocol has for it.\<close>

datatype message_view =
    Session u16 u32 u32 u32 bytes
  | Sync u32 u32 u64 u64 u64
  | Feedback u32 u32

definition command_view :: "AppleMIDICommand \<Rightarrow> message_view option" where
  "command_view c =
     (let t = cmd_type c; d = cmd_data c in
      if session_command t then
        Some (Session t (session_version d) (session_token d) (session_ssrc d)
               (takeWhile (\<lambda>b. b \<noteq> 0) (session_name d)))
      else if t = APPLEMIDI_COMMAND_SYNCHRONIZATION then
        Some (Sync (sync_ssrc d) (sync_count d) (sync_timestamp1 d) (sync_timestamp2 d) (sync_timestamp3 d))
      else if t = APPLEMIDI_COMMAND_RECEIVER_FEEDBACK then
        Some (Feedback (feedback_ssrc d) (feedback_seqnum d))
      else None)"

definition be64 :: "u64 \<Rightarrow> bytes" where "be64 v = be32 (ucast (drop_bit 32 v)) @ be32 (ucast v)"

definition command_word :: "u16 \<Rightarrow> bytes" where
  "command_word t = be16 APPLEMIDI_PROTOCOL_SIGNATURE @ be16 t"

fun wire :: "message_view \<Rightarrow> bytes" where
  "wire (Session t version token s name) =
     command_word t @ be32 version @ be32 token @ be32 s @ (if name = [] then [] else name @ [0])"
| "wire (Sync s count t1 t2 t3) =
     command_word APPLEMIDI_COMMAND_SYNCHRONIZATION @ be32 s @ be32 (push_bit 24 count) @
     be64 t1 @ be64 t2 @ be64 t3"
| "wire (Feedback s n) = command_word APPLEMIDI_COMMAND_RECEIVER_FEEDBACK @ be32 s @ be32 n"

text \<open>Which of them a message can carry: the name with its end mark fits behind 16 of 64 bytes.\<close>

fun sendable_view :: "message_view \<Rightarrow> bool" where
  "sendable_view (Session t version token s name) \<longleftrightarrow> session_command t \<and> length name \<le> 47 \<and> 0 \<notin> set name"
| "sendable_view (Sync s count t1 t2 t3) \<longleftrightarrow> count < 256"
| "sendable_view (Feedback s n) \<longleftrightarrow> True"

lemma command_word_eq: "be32 (push_bit 16 (ucast APPLEMIDI_PROTOCOL_SIGNATURE) OR ucast t) = command_word t"
proof -
  let ?w = "push_bit 16 (mask 16 :: u32) OR ucast t"
  have s: "push_bit 16 (ucast APPLEMIDI_PROTOCOL_SIGNATURE) = push_bit 16 (mask 16 :: u32)"
    by (simp add: APPLEMIDI_PROTOCOL_SIGNATURE_def mask_eq_exp_minus_1)
  have u: "ucast (drop_bit k ?w AND 0xff) = (mask 8 :: u8)" if "k = 16 \<or> k = 24" for k
  proof (rule bit_word_eqI)
    fix n assume "n < LENGTH(8)"
    then show "bit (ucast (drop_bit k ?w AND 0xff) :: u8) n = bit (mask 8 :: u8) n"
      using that by (auto simp: mask_8 bit_simps)
  qed
  have l: "ucast (drop_bit k ?w AND 0xff) = (ucast (drop_bit k t AND 0xff) :: u8)" if "k = 0 \<or> k = 8" for k
  proof (rule bit_word_eqI)
    fix n assume "n < LENGTH(8)"
    then show "bit (ucast (drop_bit k ?w AND 0xff) :: u8) n = bit (ucast (drop_bit k t AND 0xff) :: u8) n"
      using that by (auto simp: mask_8 bit_simps)
  qed
  have "be16 APPLEMIDI_PROTOCOL_SIGNATURE = [mask 8, mask 8]"
    by (simp add: be16_def APPLEMIDI_PROTOCOL_SIGNATURE_def mask_eq_exp_minus_1)
  then show ?thesis
    using u [of 16] u [of 24] l [of 0] l [of 8] unfolding s
    by (simp only: be32_def be16_def command_word_def drop_bit_0 id_apply append.simps simp_thms)
qed


section \<open>Building a message\<close>

lemma buf_write_next:
  "length xs = k \<Longrightarrow> k + length ys \<le> length msg \<Longrightarrow>
     buf_write (overlay msg 0 xs) k ys = Inr (overlay msg 0 (xs @ ys))"
  using overlay_overlay [of 0 xs ys msg] by auto

lemma buf_write_start: "length xs \<le> length msg \<Longrightarrow> buf_write msg 0 xs = Inr (overlay msg 0 xs)"
  by simp

lemmas building = command_word_eq buf_write_start buf_write_next

lemma take_overlay: "length xs = n \<Longrightarrow> take n (overlay msg 0 xs) = xs"
  by (simp add: overlay_def)

lemma length_command_word [simp]: "length (command_word t) = 4"
  by (simp add: command_word_def)

text \<open>A string that ends in its array.\<close>

lemma c_string:
  assumes "length (takeWhile (\<lambda>c. c \<noteq> 0) s) < length s"
  shows "strlen s = Inr (length (takeWhile (\<lambda>c. c \<noteq> 0) s))"
    and "take (Suc (length (takeWhile (\<lambda>c. c \<noteq> 0) s))) s = takeWhile (\<lambda>c. c \<noteq> 0) s @ [0]"
    and "s ! 0 \<noteq> 0 \<longleftrightarrow> takeWhile (\<lambda>c. c \<noteq> 0) s \<noteq> []"
proof -
  let ?n = "length (takeWhile (\<lambda>c. c \<noteq> 0) s)"
  have z: "s ! ?n = 0" using nth_length_takeWhile [OF assms] by simp
  then have "0 \<in> set s" using assms by (metis nth_mem)
  then show "strlen s = Inr ?n" by (simp add: strlen_def)
  show "take (Suc ?n) s = takeWhile (\<lambda>c. c \<noteq> 0) s @ [0]"
    using take_Suc_conv_app_nth [OF assms] z by (simp add: takeWhile_eq_take [symmetric])
  show "s ! 0 \<noteq> 0 \<longleftrightarrow> takeWhile (\<lambda>c. c \<noteq> 0) s \<noteq> []"
    using assms by (cases s) simp_all
qed

lemma ucast_low_half: "ucast (v AND 0xffffffff :: u64) = (ucast v :: u32)"
proof (rule bit_word_eqI)
  have m: "(0xffffffff :: u64) = mask 32" by (simp add: mask_eq_exp_minus_1)
  fix n assume "n < LENGTH(32)"
  then show "bit (ucast (v AND 0xffffffff :: u64) :: u32) n = bit (ucast v :: u32) n"
    unfolding m by (auto simp: bit_simps)
qed

lemma length_session_name [simp]: "length d = DATA_SIZE \<Longrightarrow> length (session_name d) = NAME_SIZE"
  by (simp add: session_name_def DATA_SIZE_def NAME_SIZE_def)

lemma build_command_wire:
  assumes "command_view c = Some v" and "sendable_view v"
    and "length (cmd_data c) = DATA_SIZE" and "length msg = 64"
  shows "build_command msg c = Inr (Some (wire v))"
proof (cases "session_command (cmd_type c)")
  case True
  let ?name = "takeWhile (\<lambda>b. b \<noteq> 0) (session_name (cmd_data c))"
  have v: "v = Session (cmd_type c) (session_version (cmd_data c)) (session_token (cmd_data c))
      (session_ssrc (cmd_data c)) ?name"
    using assms(1) True by (simp add: command_view_def Let_def)
  have "length ?name < length (session_name (cmd_data c))"
    using assms(2,3) by (simp add: v NAME_SIZE_def)
  note c_string [OF this]
  with True assms(2,4) show ?thesis
    by (simp add: build_command_def v Let_def building take_overlay del: buf_write_ok)
next
  case False
  with assms show ?thesis
    by (auto simp: build_command_def command_view_def Let_def building take_overlay
        be64_def ucast_low_half simp del: buf_write_ok split: if_splits)
qed


section \<open>Reading a message\<close>

lemma net32_here [simp]: "net32 (be32 v @ ys) 0 = v"
  by (simp add: net32_def be32_def be32_inverse)

lemma net32_skip: "length xs \<le> i \<Longrightarrow> net32 (xs @ ys) i = net32 ys (i - length xs)"
  by (simp add: net32_def nth_append Suc_diff_le)

lemma net32_next [simp]:
  "4 \<le> i \<Longrightarrow> net32 (be32 v @ ys) i = net32 ys (i - 4)"
  "4 \<le> i \<Longrightarrow> net32 (command_word t @ ys) i = net32 ys (i - 4)"
  by (simp_all add: net32_skip)

lemma net32_type [simp]: "ucast (net32 (command_word t @ ys) 0 AND 0xffff) = t"
proof (rule bit_word_eqI)
  have m: "(0xffff :: u32) = mask 16" by (simp add: mask_eq_exp_minus_1)
  fix n assume "n < LENGTH(16)"
  then show "bit (ucast (net32 (command_word t @ ys) 0 AND 0xffff) :: u16) n = bit t n"
    unfolding command_word_eq [symmetric] net32_here m by (auto simp: bit_simps)
qed

lemma count_byte: "count < 256 \<Longrightarrow> drop_bit 24 (push_bit 24 count) = (count :: u32)"
proof -
  assume c: "count < 256"
  have "unat (take_bit 8 count) = unat count"
    using c by (simp add: unsigned_take_bit_eq take_bit_nat_eq_self word_less_nat_alt)
  then have t: "take_bit 8 count = count" by (simp add: word_unat_eq_iff)
  show ?thesis
  proof (rule bit_word_eqI)
    fix n assume "n < LENGTH(32)"
    moreover have "bit count n \<Longrightarrow> n < 8"
      by (metis t bit_take_bit_iff)
    ultimately show "bit (drop_bit 24 (push_bit 24 count)) n = bit count n"
      by (auto simp: bit_simps)
  qed
qed

lemma two_halves: "push_bit 32 (ucast (ucast (drop_bit 32 v) :: u32)) + ucast (ucast v :: u32) = (v :: u64)"
proof -
  have "push_bit 32 (ucast (ucast (drop_bit 32 v) :: u32)) + ucast (ucast v :: u32) =
      (push_bit 32 (ucast (ucast (drop_bit 32 v) :: u32)) OR ucast (ucast v :: u32) :: u64)"
    by (rule disjunctive_add) (auto simp: bit_simps)
  also have "... = v"
  proof (rule bit_word_eqI)
    fix n assume "n < LENGTH(64)"
    then show "bit (push_bit 32 (ucast (ucast (drop_bit 32 v) :: u32)) OR ucast (ucast v :: u32) :: u64) n = bit v n"
      by (cases "n < 32") (auto simp: bit_simps)
  qed
  finally show ?thesis .
qed

lemma string_in_array: "0 \<notin> set s \<Longrightarrow> takeWhile (\<lambda>b. b \<noteq> 0) (s @ 0 # ys) = s"
  by (induction s) auto

lemma drop_overlay: "off \<le> length d \<Longrightarrow> drop off (overlay d off bs) = bs @ drop (off + length bs) d"
  by (simp add: overlay_def)

text \<open>A message that came in names its sender; a name left out would be the one before.\<close>

fun named :: "message_view \<Rightarrow> bool" where
  "named (Session t version token s name) \<longleftrightarrow> name \<noteq> []"
| "named v \<longleftrightarrow> True"


lemmas commands_differ = session_command_def applemidi_consts

definition decodes_to :: "message_view \<Rightarrow> AppleMIDICommand \<Rightarrow> int \<times> AppleMIDICommand \<Rightarrow> bool" where
  "decodes_to v c res \<longleftrightarrow> fst res = 0 \<and> command_view (snd res) = Some v \<and> cmd_addr (snd res) = cmd_addr c \<and>
     cmd_size (snd res) = cmd_size c \<and> length (cmd_data (snd res)) = DATA_SIZE"

lemma decode_session:
  assumes "sendable_view (Session t version token s name)" and "name \<noteq> []"
    and "length (cmd_data c) = DATA_SIZE" and "msg = wire (Session t version token s name) @ rest"
  shows "decodes_to (Session t version token s name) c
    (decode_command msg (length (wire (Session t version token s name))) c)"
proof -
  let ?d = "put32 8 s (put32 4 token (put32 0 version (cmd_data c)))"
  let ?d' = "overlay (overlay ?d 12 (name @ [0])) (Suc (12 + length name)) [0]"
  let ?c = "c\<lparr>cmd_type := t, cmd_data := ?d'\<rparr>"
  have l: "length ?d = 80" using assms(3) by (simp add: DATA_SIZE_def)
  have name: "length name \<le> 47" "0 \<notin> set name" "session_command t" using assms(1) by simp_all
  have d': "?d' = overlay ?d 12 (name @ [0, 0])"
    using overlay_overlay [of 12 "name @ [0]" "[0]" ?d] l name(1) by simp
  have "takeWhile (\<lambda>b. b \<noteq> 0) (session_name ?d') = name"
  proof -
    have k: "64 - length name = Suc (63 - length name)" using name(1) by simp
    have "session_name ?d' = name @ 0 # take (63 - length name) (0 # drop (14 + length name) ?d)"
      using name(1) l unfolding d' by (simp add: session_name_def NAME_SIZE_def drop_overlay k)
    then show ?thesis by (simp only: string_in_array [OF name(2)])
  qed
  moreover have "session_version ?d' = version \<and> session_token ?d' = token \<and> session_ssrc ?d' = s \<and> length ?d' = DATA_SIZE"
    using name(1) l assms(3) unfolding d' by (simp add: field_defs DATA_SIZE_def)
  moreover have "decode_command msg (length (wire (Session t version token s name))) c = (0, ?c)"
    using assms(2,4) name by (simp add: decode_command_def Let_def NAME_SIZE_def numeral_eq_Suc)
  ultimately show ?thesis
    using name(3) by (simp add: decodes_to_def command_view_def Let_def del: wire.simps)
qed

lemma decode_wire:
  assumes "sendable_view v" and "named v" and "length (cmd_data c) = DATA_SIZE" and "msg = wire v @ rest"
  shows "decodes_to v c (decode_command msg (length (wire v)) c)"
proof (cases v)
  case (Session t version token s name)
  with assms decode_session [of t version token s name c msg rest] show ?thesis by simp
next
  case (Sync s count t1 t2 t3)
  with assms show ?thesis
    by (simp add: decodes_to_def decode_command_def commands_differ command_view_def field_defs DATA_SIZE_def
        be64_def count_byte two_halves)
next
  case (Feedback s n)
  with assms show ?thesis
    by (simp add: decodes_to_def decode_command_def commands_differ command_view_def field_defs DATA_SIZE_def)
qed


text \<open>
  What a receiver reads: the message, but a session message without a name is read with the name that the command structure of the
  receiver held before, since the bytes of the name are only written when there are any.
\<close>

fun heard :: "AppleMIDICommand \<Rightarrow> message_view \<Rightarrow> message_view" where
  "heard c0 (Session t version token s name) =
     Session t version token s (if name = [] then takeWhile (\<lambda>b. b \<noteq> 0) (session_name (cmd_data c0)) else name)"
| "heard c0 v = v"

lemma heard_named: "named v \<Longrightarrow> heard c0 v = v"
  by (cases v) simp_all

lemma decode_nameless:
  assumes "session_command t" and "length (cmd_data c) = DATA_SIZE" and "msg = wire (Session t version token s []) @ rest"
  shows "decodes_to (heard c (Session t version token s [])) c
    (decode_command msg (length (wire (Session t version token s []))) c)"
proof -
  let ?d = "put32 8 s (put32 4 token (put32 0 version (cmd_data c)))"
  have "decode_command msg (length (wire (Session t version token s []))) c = (0, c\<lparr>cmd_type := t, cmd_data := ?d\<rparr>)"
    using assms(1,3) by (simp add: decode_command_def Let_def)
  moreover have "session_version ?d = version \<and> session_token ?d = token \<and> session_ssrc ?d = s \<and>
      session_name ?d = session_name (cmd_data c) \<and> length ?d = DATA_SIZE"
    using assms(2) by (simp add: field_defs DATA_SIZE_def)
  ultimately show ?thesis using assms(1) by (simp add: decodes_to_def command_view_def Let_def)
qed

lemma decode_heard:
  assumes "sendable_view v" and "length (cmd_data c) = DATA_SIZE" and "msg = wire v @ rest"
  shows "decodes_to (heard c v) c (decode_command msg (length (wire v)) c)"
proof (cases "named v")
  case True
  with decode_wire [OF assms(1) _ assms(2,3)] show ?thesis by (simp add: heard_named)
next
  case False
  then obtain t version token s where "v = Session t version token s []" by (cases v) auto
  with assms decode_nameless [of t c msg version token s rest] show ?thesis by simp
qed


lemma net16_here [simp]: "net16 (be16 v @ ys) 0 = Inr v"
  by (simp add: net16_def be16_def be16_inverse array_get_def)

lemma net16_skip: "length xs \<le> i \<Longrightarrow> net16 (xs @ ys) i = net16 ys (i - length xs)"
  by (auto simp: net16_def array_get_def nth_append Suc_diff_le)

lemma net16_next [simp]: "2 \<le> i \<Longrightarrow> net16 (be16 v @ ys) i = net16 ys (i - 2)"
  by (simp add: net16_skip)

text \<open>A datagram as the network layer hands it over, with a length field that tells the truth.\<close>

definition udp_skb :: "u16 \<Rightarrow> u16 \<Rightarrow> u16 \<Rightarrow> u32 \<Rightarrow> bytes \<Rightarrow> sk_buff" where
  "udp_skb sport dport checksum src payload =
     \<lparr>skb_data = be16 sport @ be16 dport @ be16 (of_nat (8 + length payload)) @ be16 checksum @ payload,
      skb_saddr = src\<rparr>"

lemma recv_udp:
  assumes "length payload \<le> 1000" and "length msg = 64"
  shows "recv_command msg (udp_skb sport dport checksum src payload) c =
    (if length payload \<le> 64
     then Inr (decode_command (payload @ drop (length payload) msg) (length payload)
       (c\<lparr>cmd_size := 16, cmd_addr := \<lparr>sin_family = AF_INET, sin_addr = src, sin_port = sport\<rparr>\<rparr>))
     else Inl Out_of_bounds)"
proof -
  have l: "uint (of_nat (8 + length payload) :: u16) = int (8 + length payload)"
    using assms(1) by (simp add: uint_nat unat_of_nat del: of_nat_add)
  have d: "drop 8 (skb_data (udp_skb sport dport checksum src payload)) = payload"
    by (simp add: udp_skb_def)
  have "bind_res (buf_write msg 0 payload) f =
      (if length payload \<le> 64 then f (payload @ drop (length payload) msg) else Inl Out_of_bounds)"
    for f :: "bytes \<Rightarrow> (int \<times> AppleMIDICommand) res"
    using assms(2) by (auto simp: buf_write_def overlay_start)
  then show ?thesis
    using l d by (simp add: recv_command_def udp_skb_def Let_def)
qed

lemma length_wire: "sendable_view v \<Longrightarrow> 4 \<le> length (wire v) \<and> length (wire v) \<le> 64"
  by (cases v) (simp_all add: be64_def)

section \<open>Properties\<close>

text \<open>
  C18. The wire format of the session protocol: for a command whose name, if it has one, has at most
  47 characters, the bytes built are those of the format; and a receiver of that datagram, whatever its
  command structure and its array held before, gets the same type, version, token, SSRC, counts and
  time stamps, and the address and port the datagram came from. It gets the same name when there is one; a session message
  without a name is read with the name the receiver's command structure held before.
\<close>

theorem command_roundtrip:
  assumes "command_view c = Some v" and "sendable_view v"
    and "length (cmd_data c) = DATA_SIZE" and "length (cmd_data c0) = DATA_SIZE"
    and "length msg = 64" and "length msg' = 64"
  shows "build_command msg c = Inr (Some (wire v)) \<and>
    (\<exists>c'. recv_command msg' (udp_skb sport dport checksum src (wire v)) c0 = Inr (0, c') \<and>
      command_view c' = Some (heard c0 v) \<and> (named v \<longrightarrow> command_view c' = Some v) \<and> length (cmd_data c') = DATA_SIZE \<and>
      cmd_addr c' = \<lparr>sin_family = AF_INET, sin_addr = src, sin_port = sport\<rparr>)"
proof -
  have w: "length (wire v) \<le> 64" "length (wire v) \<le> 1000" using length_wire [OF assms(2)] by simp_all
  let ?c0 = "c0\<lparr>cmd_size := 16, cmd_addr := \<lparr>sin_family = AF_INET, sin_addr = src, sin_port = sport\<rparr>\<rparr>"
  have h: "heard ?c0 v = heard c0 v" by (cases v) simp_all
  have "decodes_to (heard ?c0 v) ?c0 (decode_command (wire v @ drop (length (wire v)) msg') (length (wire v)) ?c0)"
    using assms(2,4) by (intro decode_heard) simp_all
  then show ?thesis
    using build_command_wire [OF assms(1-3,5)] recv_udp [OF w(2) assms(6)] w(1) heard_named [of v c0]
    by (cases "decode_command (wire v @ drop (length (wire v)) msg') (length (wire v)) ?c0")
       (simp add: decodes_to_def h)
qed

definition sample_command :: AppleMIDICommand where
  "sample_command = \<lparr>cmd_peer = None, cmd_addr = sample_addr, cmd_size = 16,
     cmd_type = APPLEMIDI_COMMAND_INVITATION,
     cmd_data = le32 2 @ le32 77 @ le32 5 @ [80, 105] @ replicate 66 0\<rparr>"

lemma sample_command_ok [simp]:
  "length (cmd_data sample_command) = DATA_SIZE" "cmd_addr sample_command = sample_addr"
  "cmd_type sample_command = APPLEMIDI_COMMAND_INVITATION"
  "command_view sample_command = Some (Session APPLEMIDI_COMMAND_INVITATION 2 77 5 [80, 105])"
  by (simp_all add: sample_command_def DATA_SIZE_def word32.enc_width command_view_def session_command_def
      field_defs block_get_def le32_inverse NAME_SIZE_def)

definition nameless_command :: AppleMIDICommand where
  "nameless_command = sample_command\<lparr>cmd_type := APPLEMIDI_COMMAND_ENDSESSION,
     cmd_data := le32 2 @ le32 78 @ le32 6 @ replicate 68 0\<rparr>"

lemma nameless_command_ok [simp]:
  "length (cmd_data nameless_command) = DATA_SIZE"
  "command_view nameless_command = Some (Session APPLEMIDI_COMMAND_ENDSESSION 2 78 6 [])"
  by (simp_all add: nameless_command_def DATA_SIZE_def word32.enc_width command_view_def session_command_def
      field_defs block_get_def le32_inverse NAME_SIZE_def)

lemma command_roundtrip_witness:
  "(\<exists>c'. recv_command (replicate 64 7) (udp_skb 5008 5009 0 9 (wire (Session APPLEMIDI_COMMAND_INVITATION 2 77 5 [80, 105])))
      sample_command = Inr (0, c') \<and>
    command_view c' = Some (Session APPLEMIDI_COMMAND_INVITATION 2 77 5 [80, 105])) \<and>
   (\<exists>c'. recv_command (replicate 64 7) (udp_skb 5008 5009 0 9 (wire (Session APPLEMIDI_COMMAND_ENDSESSION 2 78 6 [])))
      sample_command = Inr (0, c') \<and>
    command_view c' = Some (Session APPLEMIDI_COMMAND_ENDSESSION 2 78 6 [80, 105]))"
proof
  show "\<exists>c'. recv_command (replicate 64 7) (udp_skb 5008 5009 0 9 (wire (Session APPLEMIDI_COMMAND_INVITATION 2 77 5 [80, 105])))
      sample_command = Inr (0, c') \<and>
    command_view c' = Some (Session APPLEMIDI_COMMAND_INVITATION 2 77 5 [80, 105])"
    using command_roundtrip [of sample_command _ sample_command "replicate 64 7" "replicate 64 7" 5008 5009 0 9]
    by (simp add: session_command_def del: wire.simps) blast
  have "takeWhile (\<lambda>b. b \<noteq> 0) (session_name (cmd_data sample_command)) = [80, 105]"
    using sample_command_ok(4) by (simp add: command_view_def Let_def session_command_def)
  then show "\<exists>c'. recv_command (replicate 64 7) (udp_skb 5008 5009 0 9 (wire (Session APPLEMIDI_COMMAND_ENDSESSION 2 78 6 [])))
      sample_command = Inr (0, c') \<and>
    command_view c' = Some (Session APPLEMIDI_COMMAND_ENDSESSION 2 78 6 [80, 105])"
    using command_roundtrip [of nameless_command "Session APPLEMIDI_COMMAND_ENDSESSION 2 78 6 []" sample_command
        "replicate 64 7" "replicate 64 7" 5008 5009 0 9]
    by (simp add: session_command_def del: wire.simps) blast
qed


lemma long_name_received:
  assumes "session_command t" and "length name = 48" and "0 \<notin> set name"
    and "length (cmd_data c) = DATA_SIZE"
    and "msg = command_word t @ be32 version @ be32 token @ be32 s @ name @ rest"
  shows "\<exists>c'. decode_command msg 64 c = (0, c') \<and> length (cmd_data c') = DATA_SIZE \<and>
    takeWhile (\<lambda>b. b \<noteq> 0) (session_name (cmd_data c')) = name"
proof -
  let ?d = "put32 8 s (put32 4 token (put32 0 version (cmd_data c)))"
  let ?d' = "overlay (overlay ?d 12 name) 60 [0]"
  have l: "length ?d = 80" using assms(4) by (simp add: DATA_SIZE_def)
  have d': "?d' = overlay ?d 12 (name @ [0])"
    using overlay_overlay [of 12 name "[0]" ?d] l assms(2) by simp
  have "session_name ?d' = name @ 0 # take 15 (drop 61 ?d)"
    using assms(2) l unfolding d' by (simp add: session_name_def NAME_SIZE_def drop_overlay)
  then have "takeWhile (\<lambda>b. b \<noteq> 0) (session_name ?d') = name" by (simp only: string_in_array [OF assms(3)])
  moreover have "length ?d' = DATA_SIZE" using l assms(2) by (simp add: DATA_SIZE_def)
  moreover have "decode_command msg 64 c = (0, c\<lparr>cmd_type := t, cmd_data := ?d'\<rparr>)"
    using assms(1,2,5) by (simp add: decode_command_def Let_def NAME_SIZE_def)
  ultimately show ?thesis by simp
qed

text \<open>
  C31. Lengths are not checked: a datagram with more than 64 bytes of payload is copied beyond the local
  array of the receiver, and one of exactly 64 bytes that carries a name of 48 characters is received, but
  building any session message with that name, as the answer to the invitation is, writes beyond the
  local array of the sender.
\<close>

theorem unchecked_lengths:
  assumes "length msg = 64" and "length msg' = 64" and "length (cmd_data c) = DATA_SIZE"
    and "session_command t" and "session_command t'" and "length name = 48" and "0 \<notin> set name"
    and "64 < length payload" and "length payload \<le> 1000"
  shows "recv_command msg (udp_skb sport dport checksum src payload) c = Inl Out_of_bounds \<and>
    (\<exists>c'. recv_command msg (udp_skb sport dport checksum src
        (command_word t @ be32 version @ be32 token @ be32 s @ name)) c = Inr (0, c') \<and>
      build_command msg' (c'\<lparr>cmd_type := t'\<rparr>) = Inl Out_of_bounds)"
proof -
  let ?c = "c\<lparr>cmd_size := 16, cmd_addr := \<lparr>sin_family = AF_INET, sin_addr = src, sin_port = sport\<rparr>\<rparr>"
  let ?m = "command_word t @ be32 version @ be32 token @ be32 s @ name"
  obtain c' where c': "decode_command (?m @ drop 64 msg) 64 ?c = (0, c')" "length (cmd_data c') = DATA_SIZE"
    "takeWhile (\<lambda>b. b \<noteq> 0) (session_name (cmd_data c')) = name"
    using long_name_received [of t name ?c "?m @ drop 64 msg" version token s "drop 64 msg"] assms(3,4,6,7) by auto
  have "length name < length (session_name (cmd_data c'))" using assms(6) c'(2) by (simp add: NAME_SIZE_def)
  then have n: "strlen (session_name (cmd_data c')) = Inr 48" "session_name (cmd_data c') ! 0 \<noteq> 0"
    "length (take 49 (session_name (cmd_data c'))) = 49"
    using c_string [of "session_name (cmd_data c')"] c'(2,3) assms(6) by (auto simp: NAME_SIZE_def)
  have over: "buf_write (overlay msg' 0 xs) 16 bs = Inl Out_of_bounds" if "length xs = 16" "length bs = 49" for xs bs
    using that assms(2) by (auto simp: buf_write_def)
  have "build_command msg' (c'\<lparr>cmd_type := t'\<rparr>) = Inl Out_of_bounds"
    using n assms(2,5) by (simp add: build_command_def Let_def building over del: buf_write_ok)
  then show ?thesis
    using recv_udp [of payload msg sport dport checksum src c] recv_udp [of ?m msg sport dport checksum src c] c'(1) assms
    by simp
qed

lemma unchecked_lengths_witness:
  "\<exists>c'. recv_command (replicate 64 0) (udp_skb 5008 5009 0 9
      (command_word APPLEMIDI_COMMAND_INVITATION @ be32 2 @ be32 77 @ be32 5 @ replicate 48 65)) sample_command = Inr (0, c') \<and>
    build_command (replicate 64 0) (c'\<lparr>cmd_type := APPLEMIDI_COMMAND_INVITATION_ACCEPTED\<rparr>) = Inl Out_of_bounds"
  using unchecked_lengths [of "replicate 64 0" "replicate 64 0" sample_command APPLEMIDI_COMMAND_INVITATION
      APPLEMIDI_COMMAND_INVITATION_ACCEPTED "replicate 48 65" "replicate 65 0" 5008 5009 0 9 2 77 5]
  by (simp add: session_command_def)

end
