(* ===== verification/Rtp_Midi.thy ===== *)
theory Rtp_Midi
  imports Midi_Message
begin

text \<open>
  The RTP-MIDI payload of the AppleMIDI driver (\<open>applemidi/rtpmidi.c\<close>): variable-length
  numbers, the header of the MIDI command section, and the encoding of a list of messages
  into the buffer of a session. The buffer is the memory block the session allocated, a
  pointer into it an offset; \<open>size\<close> is the source's count of the bytes left, which is a
  \<open>size_t\<close> and can wrap. A list of messages ends at \<open>NULL\<close> or at a \<open>NULL\<close> message.
\<close>

section \<open>Variable-length numbers\<close>

function varlen_loop :: "u32 \<Rightarrow> nat \<Rightarrow> bytes \<Rightarrow> nat \<times> bytes" where
  "varlen_loop v p tmp =
     (let tmp = tmp[3 - p := tmp ! (3 - p) OR ucast (v AND 0x7f)];
          v = drop_bit 7 v;
          p = p + 1
      in if v \<noteq> 0 \<and> p < 4 then varlen_loop v p tmp else (p, tmp))"
  by pat_completeness auto

termination by (relation "measure (\<lambda>(v, p, tmp). 4 - p)") auto

declare varlen_loop.simps [simp del]

text \<open>The return code and the bytes written, none where the size does not suffice.\<close>

definition MIDIUtilWriteVarLen :: "u32 \<Rightarrow> u32 \<Rightarrow> int \<times> bytes" where
  "MIDIUtilWriteVarLen value sz =
     (let v = value AND 0x0fffffff;
          tmp = [0x80, 0x80, 0x80, 0x00];
          (p, tmp) = varlen_loop v 0 tmp
      in if p > unat sz then (1, []) else (0, drop (4 - p) tmp))"

section \<open>The header of the command section\<close>

record RTPMIDIInfo =
  journal :: u8
  zero :: u8
  phantom :: u8
  len :: int

definition rtpmidi_encode_header :: "RTPMIDIInfo \<Rightarrow> u32 \<Rightarrow> int \<times> bytes" where
  "rtpmidi_encode_header info sz =
     (let flags = (if journal info \<noteq> 0 then 0x40 else 0) OR (if zero info \<noteq> 0 then 0x20 else 0) OR
                  (if phantom info \<noteq> 0 then 0x10 else 0)
      in if len info > 0x0fff then (1, [])
         else if len info > 0x0f then
           (if sz < 2 then (1, [])
            else (0, [0x80 OR flags OR word_of_int (drop_bit 8 (len info) AND 0x0f),
                      word_of_int (len info AND 0xff)]))
         else
           (if sz < 1 then (1, [])
            else (0, [flags OR word_of_int (len info AND 0x0f)])))"

section \<open>A list of messages\<close>

text \<open>The free bytes of the buffer and where they begin.\<close>

definition advance_buffer :: "u32 \<times> nat \<Rightarrow> u32 \<Rightarrow> u32 \<times> nat" where
  [simp]: "advance_buffer rest n = (fst rest - n, snd rest + unat n)"

text \<open>
  The loop of \<open>_rtpmidi_encode_messages\<close>. \<open>m\<close> counts messages, \<open>w\<close> is the local variable the
  encoders store their lengths in: it keeps its old value when an encoder fails, and the
  source advances the buffer by it whether the encoder failed or not.
\<close>

fun encode_loop ::
    "MIDIMessage option list \<Rightarrow> nat \<Rightarrow> s64 \<Rightarrow> u8 \<Rightarrow> u32 \<Rightarrow> u32 \<Rightarrow> nat \<Rightarrow> RTPMIDIInfo \<Rightarrow> bytes \<Rightarrow>
     (RTPMIDIInfo \<times> nat \<times> bytes) res" where
  "encode_loop [] m ts status sz w off info buf = Inr (info, off, buf)"
| "encode_loop (None # ms) m ts status sz w off info buf = Inr (info, off, buf)"
| "encode_loop (Some message # ms) m ts status sz w off info buf =
     (if \<not> sz > 0 then Inr (info, off, buf)
      else
        (let ts2 = MIDIMessageGetTimestamp message;
             time_diff = (if sint ts2 > sint ts then ucast (ts2 - ts) else 0) :: u32;
             info = (if m = 0 then info\<lparr>zero := if time_diff \<noteq> 0 then 1 else 0\<rparr> else info)
         in bind_res
              (if m > 0 \<or> zero info = 1 then
                 (let (r, bs) = MIDIUtilWriteVarLen time_diff sz;
                      w = (if r = 0 then of_nat (length bs) else w)
                  in bind_res (buf_write buf off bs) (\<lambda>buf. Inr (advance_buffer (sz, off) w, w, buf)))
               else Inr ((sz, off), w, buf))
              (\<lambda>((sz, off), w, buf).
                 let (r, status, bs) = MIDIMessageEncodeRunningStatus message (Some status) sz;
                     w = (if bs \<noteq> [] then of_nat (length bs) else w)
                 in bind_res (buf_write buf off bs) (\<lambda>buf.
                      let (sz, off) = advance_buffer (sz, off) w
                      in encode_loop ms (Suc m) ts2 (the status) sz w off info buf))))"

text \<open>\<open>w0\<close> is what the uninitialised local \<open>w\<close> holds; the result has the new \<open>*written\<close>.\<close>

definition rtpmidi_encode_messages ::
    "u32 \<Rightarrow> RTPMIDIInfo \<Rightarrow> s64 \<Rightarrow> MIDIMessage option list \<Rightarrow> u32 \<Rightarrow> bytes \<Rightarrow>
     (RTPMIDIInfo \<times> bytes \<times> nat) res" where
  "rtpmidi_encode_messages w0 info ts messages sz buf =
     bind_res (encode_loop messages 0 ts 0 sz w0 0 info buf) (\<lambda>(info, off, buf).
       Inr (info\<lparr>len := int off\<rparr>, buf, off))"


section \<open>Decoding variable-length numbers\<close>

text \<open>The reader of the MIDI standard, the inverse the driver itself does not need.\<close>

fun read_varlen :: "nat \<Rightarrow> u32 \<Rightarrow> bytes \<Rightarrow> (u32 \<times> bytes) option" where
  "read_varlen 0 acc bs = None"
| "read_varlen (Suc n) acc [] = None"
| "read_varlen (Suc n) acc (b # bs) =
     (let acc = push_bit 7 acc OR ucast (b AND 0x7f)
      in if b < 0x80 then Some (acc, bs) else read_varlen n acc bs)"

definition dec_varlen :: "bytes \<Rightarrow> (u32 \<times> bytes) option" where
  "dec_varlen bs = read_varlen 4 0 bs"

definition septet :: "nat \<Rightarrow> u32 \<Rightarrow> u8" where
  "septet k v = ucast (drop_bit (7 * k) v AND 0x7f)"

lemma septet_mask: "(0x7f :: 'a :: len word) = mask 7"
  by (simp add: mask_eq_exp_minus_1)

lemma u8_less_128_iff: "(b :: u8) < 0x80 \<longleftrightarrow> \<not> bit b 7"
proof -
  have "bit b 7 \<longleftrightarrow> bit (unat b) 7" by (simp add: bit_unsigned_iff)
  also have "\<dots> \<longleftrightarrow> odd (unat b div 128)" by (simp add: bit_iff_odd)
  also have "unat b div 128 = (if unat b < 128 then 0 else 1)"
    using unat_u8_less [of b] by (auto intro!: div_nat_eqI)
  finally show ?thesis by (simp add: word_less_nat_alt split: if_splits)
qed

lemma bit_septet: "bit (septet k v) n \<longleftrightarrow> n < 7 \<and> bit v (7 * k + n)"
  by (auto simp: septet_def septet_mask bit_simps)

lemma septet_less [simp]: "septet k v < 0x80"
  by (simp add: u8_less_128_iff bit_septet)

lemma septet_or_less [simp]: "\<not> 0x80 OR septet k v < 0x80"
  by (simp add: u8_less_128_iff bit_simps)

lemma septet_and [simp]: "septet k v AND 0x7f = septet k v"
  by (rule bit_word_eqI) (auto simp: bit_septet septet_mask bit_simps)

lemma septet_or_and [simp]: "(0x80 OR septet k v) AND 0x7f = septet k v"
proof (rule bit_word_eqI)
  fix n assume "n < LENGTH(8)"
  have "(0x80 :: u8) AND 0x7f = 0" by simp
  then have "\<not> (bit (0x80 :: u8) n \<and> bit (0x7f :: u8) n)" by (metis bit_and_iff bit_0_eq bot_apply bot_bool_def)
  then show "bit ((0x80 OR septet k v) AND 0x7f) n = bit (septet k v) n"
    by (auto simp: bit_simps bit_septet septet_mask)
qed

definition varlen_bytes :: "u32 \<Rightarrow> bytes" where
  "varlen_bytes v =
     (if drop_bit 7 v = 0 then [septet 0 v]
      else if drop_bit 14 v = 0 then [0x80 OR septet 1 v, septet 0 v]
      else if drop_bit 21 v = 0 then [0x80 OR septet 2 v, 0x80 OR septet 1 v, septet 0 v]
      else [0x80 OR septet 3 v, 0x80 OR septet 2 v, 0x80 OR septet 1 v, septet 0 v])"

lemma varlen_loop_bytes:
  "(case varlen_loop v 0 [0x80, 0x80, 0x80, 0x00] of (p, tmp) \<Rightarrow> drop (4 - p) tmp) = varlen_bytes v"
  "fst (varlen_loop v 0 [0x80, 0x80, 0x80, 0x00]) = length (varlen_bytes v)"
  by (simp_all add: varlen_loop.simps varlen_bytes_def septet_def Let_def eval_nat_numeral)


lemma septet_shift: "push_bit 7 (drop_bit (7 * Suc k) v) OR ucast (septet k v) = drop_bit (7 * k) v"
proof (rule bit_word_eqI)
  fix n assume "n < LENGTH(32)"
  then show "bit (push_bit 7 (drop_bit (7 * Suc k) v) OR ucast (septet k v)) n = bit (drop_bit (7 * k) v) n"
    by (cases "n < 7") (auto simp: bit_simps bit_septet algebra_simps)
qed

lemmas septet_shifts =
  septet_shift [of 0, simplified] septet_shift [of 1, simplified]
  septet_shift [of 2, simplified] septet_shift [of 3, simplified]

lemma read_septet:
  "read_varlen (Suc n) (drop_bit (7 * Suc k) v) ((0x80 OR septet k v) # bs) = read_varlen n (drop_bit (7 * k) v) bs"
  "read_varlen (Suc n) (drop_bit 7 v) (septet 0 v # bs) = Some (v, bs)"
  using septet_shift [of k v] septet_shift [of 0 v] by (simp_all add: Let_def)

lemma dec_varlen_bytes:
  assumes "v < 0x10000000"
  shows "dec_varlen (varlen_bytes v @ rest) = Some (v, rest)"
proof -
  have "drop_bit 28 v = 0"
    using assms by (simp add: word_less_nat_alt drop_bit_eq_div word_unat_eq_iff unat_div)
  then show ?thesis
    using read_septet(1) [of 3 3 v] read_septet(1) [of 2 2 v] read_septet(1) [of 1 1 v]
      read_septet(1) [of 3 2 v] read_septet(1) [of 2 1 v] read_septet(1) [of 3 1 v]
      read_septet(2) [of 3 v] read_septet(2) [of 2 v] read_septet(2) [of 1 v] read_septet(2) [of 0 v]
    by (auto simp: varlen_bytes_def dec_varlen_def eval_nat_numeral simp del: read_varlen.simps)
qed

lemma varlen_bytes_length: "0 < length (varlen_bytes v)" "length (varlen_bytes v) \<le> 4"
  by (simp_all add: varlen_bytes_def)

lemma write_varlen_eq:
  assumes "v < 0x10000000"
  shows "MIDIUtilWriteVarLen v sz =
    (if unat sz < length (varlen_bytes v) then (1, []) else (0, varlen_bytes v))"
proof -
  have "v AND 0x0fffffff = v"
  proof -
    have "(0x0fffffff :: u32) = mask 28" by (simp add: mask_eq_exp_minus_1)
    moreover have "v AND mask 28 = v" using assms by (intro less_mask_eq) simp
    ultimately show ?thesis by metis
  qed
  with varlen_loop_bytes [of v] show ?thesis
    by (auto simp: MIDIUtilWriteVarLen_def split: prod.splits)
qed


section \<open>The command section as a stream\<close>

text \<open>
  Abstractly a command is a message with its time. The state of the stream is whether the
  next command is the first one (which has no delta time), the time reached, and the running
  status. This is what \<open>_rtpmidi_encode_messages\<close> writes when the buffer is large enough.
\<close>

type_synonym command = "s64 \<times> three_bytes"
type_synonym command_state = "bool \<times> s64 \<times> u8"

fun enc_command :: "command_state \<Rightarrow> command \<Rightarrow> bytes \<times> command_state" where
  "enc_command (first, ts, s) (t, m) =
     (let (bs, s') = enc_message s m
      in ((if first then [] else varlen_bytes (ucast (t - ts))) @ bs, (False, t, s')))"

fun dec_command :: "command_state \<Rightarrow> bytes \<Rightarrow> (command \<times> command_state \<times> bytes) option" where
  "dec_command (first, ts, s) bs =
     (case (if first then Some (0, bs) else dec_varlen bs) of
        None \<Rightarrow> None
      | Some (d, bs') \<Rightarrow>
          (case dec_message s bs' of
             None \<Rightarrow> None
           | Some (m, s', rest) \<Rightarrow> Some ((ts + ucast d, m), (False, ts + ucast d, s'), rest)))"

fun valid_command :: "command_state \<Rightarrow> command \<Rightarrow> bool" where
  "valid_command (first, ts, s) (t, m) \<longleftrightarrow> channel_message m \<and>
     (if first then t = ts else sint ts \<le> sint t \<and> t - ts < 0x10000000)"

definition command_invar :: "command_state \<Rightarrow> bool" where
  "command_invar st \<longleftrightarrow> channel_status (snd (snd st))"

lemma ucast_delta:
  assumes "(x :: s64) < 0x10000000"
  shows "(ucast x :: u32) < 0x10000000" and "ucast (ucast x :: u32) = x"
proof -
  have x: "unat x < 268435456" using assms by (simp add: word_less_nat_alt)
  then have u: "unat (ucast x :: u32) = unat x"
    by (simp add: unsigned_ucast_eq take_bit_nat_eq_self)
  with x show "(ucast x :: u32) < 0x10000000" by (simp add: word_less_nat_alt)
  from x u show "ucast (ucast x :: u32) = x"
    by (simp add: word_unat_eq_iff unsigned_ucast_eq unsigned_take_bit_eq take_bit_nat_eq_self)
qed

interpretation command: stream_codec enc_command dec_command valid_command command_invar 7
proof
  fix st c bs st' rest
  assume i: "command_invar st" and v: "valid_command st c" and e: "enc_command st c = (bs, st')"
  obtain first ts s where st: "st = (first, ts, s)" by (rule prod_cases3)
  obtain t m where c: "c = (t, m)" by (cases c)
  obtain ms s' where m: "enc_message s m = (ms, s')" by (cases "enc_message s m")
  have bs: "bs = (if first then [] else varlen_bytes (ucast (t - ts))) @ ms" and st': "st' = (False, t, s')"
    using e by (simp_all add: st c m)
  have d: "dec_message s (ms @ rest) = Some (m, s', rest)"
    using v m by (intro dec_enc_message) (simp_all add: st c)
  show "dec_command st (bs @ rest) = Some (c, st', rest)"
    using v d by (auto simp: st c bs st' dec_varlen_bytes ucast_delta split: if_splits)
  have m_ok: "channel_status s" "channel_message m" using i v by (simp_all add: st c command_invar_def)
  show "command_invar st'" using message.enc_invar [OF m_ok m] by (simp add: st' command_invar_def)
  show "0 < length bs \<and> length bs \<le> 7"
    using message.enc_length [OF m_ok m] varlen_bytes_length(2) [of "ucast (t - ts)"] by (auto simp: bs)
qed


section \<open>The loop implements the stream encoder\<close>

definition timed :: "MIDIMessage \<Rightarrow> command" where
  "timed msg = (timestamp msg, three_bytes_of (message_data msg))"

lemma unat_len: "n \<le> unat (sz :: u32) \<Longrightarrow> unat (of_nat n :: u32) = n"
  by (rule le_unat_uoi)

lemma unat_sub_len:
  assumes "n \<le> unat (sz :: u32)"
  shows "unat (sz - of_nat n) = unat sz - n"
proof -
  have "of_nat n \<le> sz" using assms by (simp add: word_le_nat_alt unat_len)
  then show ?thesis using unat_sub [of "of_nat n" sz] unat_len [OF assms] by simp
qed

lemma encode_message_eq:
  assumes "format msg = Some note_off_on" and "channel_message (three_bytes_of (message_data msg))"
    and "enc_message s (three_bytes_of (message_data msg)) = (bs, s')" and "length bs \<le> unat sz"
  shows "MIDIMessageEncodeRunningStatus msg (Some s) sz = (0, Some s', bs)"
  using assms
  by (auto simp: MIDIMessageEncodeRunningStatus_def MIDIMessageFormatEncodeRunningStatus_def
      three_bytes_of_def enc_message_eq encode_channel_message Let_def word_less_nat_alt
      split: if_splits)

lemma command_delta:
  "valid_command (False, ts, s) (t, m) \<Longrightarrow>
     (if sint t > sint ts then ucast (t - ts) else 0 :: u32) = ucast (t - ts)"
  by (auto simp: order_le_less dest: signed_word_eqI)

text \<open>The message at the front of the list, as the first and as a later one.\<close>

lemma encode_loop_step:
  assumes "format msg = Some note_off_on" and "valid_command (m = 0, ts, s) (timed msg)"
    and "enc_command (m = 0, ts, s) (timed msg) = (bs, st')" and "command_invar (m = 0, ts, s)"
    and "length bs \<le> unat sz" and "off + length bs \<le> length buf"
  shows "\<exists>w'. encode_loop (Some msg # ms) m ts s sz w off info buf =
    encode_loop ms (Suc m) (timestamp msg) (snd (snd st')) (sz - of_nat (length bs)) w' (off + length bs)
      (if m = 0 then info\<lparr>zero := 0\<rparr> else info) (overlay buf off bs)"
proof -
  obtain mb s' where mb: "enc_message s (three_bytes_of (message_data msg)) = (mb, s')"
    by (cases "enc_message s (three_bytes_of (message_data msg))")
  have c: "channel_message (three_bytes_of (message_data msg))" "channel_status s"
    using assms(2,4) by (auto simp: timed_def command_invar_def)
  have mb_len: "0 < length mb" "length mb \<le> 3" using message.enc_length [OF c(2,1) mb] by simp_all
  have st': "snd (snd st') = s'" using assms(3) mb by (auto simp: timed_def)
  show ?thesis
  proof (cases "m = 0")
    case True
    have bs: "bs = mb" and ts: "timestamp msg = ts" using assms(2,3) mb True by (auto simp: timed_def)
    have "sz > 0" using mb_len(1) assms(5) unfolding bs word_less_nat_alt by (cases mb) simp_all
    then show ?thesis
      using True assms(5,6) mb_len encode_message_eq [OF assms(1) c(1) mb, of sz]
        unat_len [OF assms(5)]
      by (auto simp: MIDIMessageGetTimestamp_def bs ts st' Let_def)
  next
    case False
    let ?d = "ucast (timestamp msg - ts) :: u32"
    let ?v = "varlen_bytes ?d"
    have bs: "bs = ?v @ mb" using assms(3) mb False by (auto simp: timed_def)
    have d: "?d < 0x10000000" using assms(2) False by (intro ucast_delta(1)) (simp add: timed_def)
    have dd: "(if sint (timestamp msg) > sint ts then ?d else 0) = ?d"
    proof (rule command_delta)
      show "valid_command (False, ts, s) (timestamp msg, three_bytes_of (message_data msg))"
        using assms(2) False by (simp add: timed_def)
    qed
    have v: "length ?v \<le> unat sz" "0 < length ?v" using assms(5) varlen_bytes_length by (auto simp: bs)
    have "sz > 0" using v unfolding word_less_nat_alt by (cases ?v) simp_all
    moreover have "length mb \<le> unat (sz - of_nat (length ?v))"
      using assms(5) unat_sub_len [OF v(1)] by (simp add: bs)
    moreover have "overlay (overlay buf off ?v) (off + length ?v) mb = overlay buf off bs"
      using assms(6) by (subst overlay_overlay) (simp_all add: bs)
    ultimately show ?thesis
      using False assms(6) mb_len v d dd encode_message_eq [OF assms(1) c(1) mb, of "sz - of_nat (length ?v)"]
        unat_len [OF v(1)] unat_len [of "length mb" "sz - of_nat (length ?v)"]
      by (auto simp: MIDIMessageGetTimestamp_def write_varlen_eq bs st' add.assoc diff_diff_eq Let_def)
  qed
qed


lemma encode_loop_append:
  assumes "\<forall>msg \<in> set ms. format msg = Some note_off_on"
    and "valid_list enc_command valid_command (m = 0, ts, s) (map timed ms)"
    and "command_invar (m = 0, ts, s)"
    and "enc_list enc_command (m = 0, ts, s) (map timed ms) = (bs, st'')"
    and "length bs \<le> unat sz" and "off + length bs \<le> length buf"
  shows "\<exists>w'. encode_loop (map Some ms @ rest) m ts s sz w off info buf =
    encode_loop rest (m + length ms) (fst (snd st'')) (snd (snd st'')) (sz - of_nat (length bs)) w'
      (off + length bs) (if m = 0 \<and> ms \<noteq> [] then info\<lparr>zero := 0\<rparr> else info) (overlay buf off bs)"
  using assms
proof (induction ms arbitrary: m ts s sz w off info buf bs)
  case Nil
  then show ?case by auto
next
  case (Cons msg ms)
  obtain cb st' where c: "enc_command (m = 0, ts, s) (timed msg) = (cb, st')"
    by (cases "enc_command (m = 0, ts, s) (timed msg)")
  have st': "st' = (False, timestamp msg, snd (snd st'))"
    using c by (auto simp: timed_def split: prod.splits)
  let ?s' = "snd (snd st')"
  obtain bs' where bs': "enc_list enc_command (Suc m = 0, timestamp msg, ?s') (map timed ms) = (bs', st'')"
    and bs: "bs = cb @ bs'"
    using Cons.prems(4) c by (subst (asm) st') (auto split: prod.splits)
  have v: "valid_command (m = 0, ts, s) (timed msg)" using Cons.prems(2) by simp
  have i: "command_invar (Suc m = 0, timestamp msg, ?s')"
    using command.enc_invar [OF Cons.prems(3) v c] by (simp add: command_invar_def)
  have vl: "valid_list enc_command valid_command (Suc m = 0, timestamp msg, ?s') (map timed ms)"
    using Cons.prems(2) c by (subst (asm) st') simp
  have cb: "length cb \<le> unat sz" "off + length cb \<le> length buf" using Cons.prems(5,6) by (simp_all add: bs)
  obtain w' where step: "encode_loop (Some msg # (map Some ms @ rest)) m ts s sz w off info buf =
      encode_loop (map Some ms @ rest) (Suc m) (timestamp msg) ?s' (sz - of_nat (length cb)) w' (off + length cb)
        (if m = 0 then info\<lparr>zero := 0\<rparr> else info) (overlay buf off cb)"
    using encode_loop_step [OF _ v c Cons.prems(3) cb] Cons.prems(1) by fastforce
  have "length bs' \<le> unat (sz - of_nat (length cb))"
    using Cons.prems(5) unat_sub_len [OF cb(1)] by (simp add: bs)
  moreover have "off + length cb + length bs' \<le> length (overlay buf off cb)"
    using Cons.prems(6) cb(2) by (simp add: bs)
  ultimately obtain w'' where "encode_loop (map Some ms @ rest) (Suc m) (timestamp msg) ?s'
      (sz - of_nat (length cb)) w' (off + length cb) (if m = 0 then info\<lparr>zero := 0\<rparr> else info) (overlay buf off cb) =
    encode_loop rest (Suc m + length ms) (fst (snd st'')) (snd (snd st''))
      (sz - of_nat (length cb) - of_nat (length bs')) w'' (off + length cb + length bs')
      (if m = 0 then info\<lparr>zero := 0\<rparr> else info) (overlay (overlay buf off cb) (off + length cb) bs')"
    using Cons.IH [OF _ vl i bs'] Cons.prems(1) by fastforce
  with step Cons.prems(6) show ?case
    by (intro exI [of _ w'']) (simp add: bs overlay_overlay add.assoc diff_diff_eq)
qed

lemma encode_loop_enc_list:
  assumes "\<forall>msg \<in> set ms. format msg = Some note_off_on"
    and "valid_list enc_command valid_command (m = 0, ts, s) (map timed ms)"
    and "command_invar (m = 0, ts, s)"
    and "fst (enc_list enc_command (m = 0, ts, s) (map timed ms)) = bs"
    and "length bs \<le> unat sz" and "off + length bs \<le> length buf"
  shows "encode_loop (map Some ms) m ts s sz w off info buf =
    Inr (if m = 0 \<and> ms \<noteq> [] then info\<lparr>zero := 0\<rparr> else info, off + length bs, overlay buf off bs)"
proof -
  have "enc_list enc_command (m = 0, ts, s) (map timed ms) =
      (bs, snd (enc_list enc_command (m = 0, ts, s) (map timed ms)))"
    using assms(4) by (metis prod.collapse)
  from encode_loop_append [OF assms(1-3) this assms(5,6), of "[]"] show ?thesis
    by (metis append_Nil2 encode_loop.simps(1))
qed

section \<open>The payload of a packet\<close>

text \<open>
  The first part of \<open>RTPMIDISessionSend\<close>: the messages are encoded into the buffer, the header
  behind them, and the two parts (as offset and length in the buffer) become the I/O vector
  of the packet, header first. When the header does not fit, \<open>written\<close> still holds the length
  of the messages.
\<close>

definition rtpmidi_payload ::
    "u32 \<Rightarrow> RTPMIDIInfo \<Rightarrow> MIDIMessage option list \<Rightarrow> u32 \<Rightarrow> bytes \<Rightarrow>
     (s64 \<times> RTPMIDIInfo \<times> (nat \<times> nat) \<times> (nat \<times> nat) \<times> bytes) res" where
  "rtpmidi_payload w0 minfo messages sz buf =
     bind_res (deref (case messages of [] \<Rightarrow> None | m # _ \<Rightarrow> m)) (\<lambda>message.
       let timestamp = MIDIMessageGetTimestamp message;
           minfo = minfo\<lparr>journal := 0, phantom := 0, zero := 0\<rparr>
       in bind_res (rtpmidi_encode_messages w0 minfo timestamp messages sz buf)
            (\<lambda>(minfo, buf, written).
               let iov1 = (0, written);
                   sz = sz - of_nat written;
                   off = written;
                   (r, hb) = rtpmidi_encode_header minfo sz;
                   written = (if r = 0 then length hb else written)
               in bind_res (buf_write buf off hb) (\<lambda>buf.
                    Inr (timestamp, minfo, (off, written), iov1, buf))))"

text \<open>What the network layer reads for one element of the vector.\<close>

definition iov_read :: "bytes \<Rightarrow> nat \<times> nat \<Rightarrow> bytes res" where
  "iov_read buf iov = (case iov of (off, n) \<Rightarrow>
     if off + n \<le> length buf then Inr (take n (drop off buf)) else Inl Out_of_bounds)"

section \<open>Decoding the payload\<close>

text \<open>
  The receiver's side, after RFC 6295: the flags and the length of the command section, then
  the commands to its end, with a delta time before the first one only if the Z flag is set.
\<close>

fun dec_header :: "bytes \<Rightarrow> (bool \<times> bool \<times> bool \<times> nat \<times> bytes) option" where
  "dec_header [] = None"
| "dec_header (b # bs) =
     (let flags = (b AND 0x40 \<noteq> 0, b AND 0x20 \<noteq> 0, b AND 0x10 \<noteq> 0) in
      if b AND 0x80 = 0
      then Some (fst flags, fst (snd flags), snd (snd flags), unat (b AND 0x0f), bs)
      else (case bs of
              [] \<Rightarrow> None
            | b' # bs' \<Rightarrow> Some (fst flags, fst (snd flags), snd (snd flags),
                              unat (b AND 0x0f) * 256 + unat b', bs')))"

definition dec_payload :: "s64 \<Rightarrow> bytes \<Rightarrow> command list option" where
  "dec_payload ts bs =
     (case dec_header bs of
        None \<Rightarrow> None
      | Some (j, z, p, n, rest) \<Rightarrow>
          if n \<le> length rest then dec_list dec_command n (\<not> z, ts, 0) (take n rest) else None)"

lemma low_nibble_and:
  assumes "x AND 0x0f = (x :: u8)"
  shows "x AND 0x80 = 0" "x AND 0x40 = 0" "x AND 0x20 = 0" "x AND 0x10 = 0"
  by (subst assms [symmetric], simp add: and.assoc)+

lemma nibble_of_int:
  assumes "0 \<le> k" and "k < 16"
  shows "(word_of_int k :: u8) AND 0x0f = word_of_int k" and "unat (word_of_int k :: u8) = nat k"
proof -
  have k: "k = 0 \<or> k = 1 \<or> k = 2 \<or> k = 3 \<or> k = 4 \<or> k = 5 \<or> k = 6 \<or> k = 7 \<or> k = 8 \<or> k = 9 \<or>
    k = 10 \<or> k = 11 \<or> k = 12 \<or> k = 13 \<or> k = 14 \<or> k = 15" using assms by presburger
  show "(word_of_int k :: u8) AND 0x0f = word_of_int k" using k by (elim disjE) simp_all
  show "unat (word_of_int k :: u8) = nat k" using k by (elim disjE) simp_all
qed

lemma int_and_mask: "(n :: int) AND 0xf = n mod 16" "(n :: int) AND 0xff = n mod 256"
  using take_bit_eq_mask [of 4 n] take_bit_eq_mask [of 8 n]
  by (simp_all add: mask_eq_exp_minus_1 take_bit_eq_mod)

lemma dec_encode_header:
  assumes "0 \<le> len info" and "len info \<le> 0x0fff" and "2 \<le> sz"
  shows "\<exists>hb. rtpmidi_encode_header info sz = (0, hb) \<and> length hb \<le> 2 \<and>
    dec_header (hb @ rest) =
      Some (journal info \<noteq> 0, zero info \<noteq> 0, phantom info \<noteq> 0, nat (len info), rest)"
proof -
  let ?flags = "(if journal info \<noteq> 0 then 0x40 else 0) OR (if zero info \<noteq> 0 then 0x20 else 0) OR
    (if phantom info \<noteq> 0 then 0x10 else 0) :: u8"
  have sz: "\<not> sz < 2" "\<not> sz < 1"
    using assms(3) by (simp_all add: word_less_nat_alt word_le_nat_alt)
  show ?thesis
  proof (cases "len info > 0x0f")
    case True
    let ?x = "word_of_int (len info div 256) :: u8"
    have "0 \<le> len info div 256" "len info div 256 < 16" using assms(1,2) by auto
    note x = nibble_of_int [OF this]
    have h: "rtpmidi_encode_header info sz =
        (0, [0x80 OR ?flags OR ?x, word_of_int (len info mod 256)])"
      using True assms(2) sz \<open>0 \<le> len info div 256\<close> \<open>len info div 256 < 16\<close>
      by (simp add: rtpmidi_encode_header_def int_and_mask drop_bit_eq_div Let_def)
    have low: "unat (word_of_int (len info mod 256) :: u8) = nat (len info mod 256)"
      by (simp add: unat_eq_nat_uint uint_word_of_int)
    have "nat (len info div 256) * 256 + nat (len info mod 256) = nat (len info)"
      using assms(1) by (simp add: nat_div_distrib nat_mod_distrib)
    then show ?thesis
      using x low low_nibble_and [OF x(1)]
      by (simp add: h word_ao_dist)
  next
    case False
    let ?x = "word_of_int (len info) :: u8"
    have "0 \<le> len info" "len info < 16" using assms(1) False by simp_all
    note x = nibble_of_int [OF this]
    have h: "rtpmidi_encode_header info sz = (0, [?flags OR ?x])"
      using False assms(1) sz by (simp add: rtpmidi_encode_header_def int_and_mask Let_def)
    show ?thesis
      using x low_nibble_and [OF x(1)] by (simp add: h word_ao_dist)
  qed
qed


text \<open>The payload of a list of messages that fits: what is built, and what it decodes to.\<close>

lemma payload_result:
  assumes "ms \<noteq> []" and "\<forall>msg \<in> set ms. format msg = Some note_off_on"
    and "valid_list enc_command valid_command (True, timestamp (hd ms), 0) (map timed ms)"
    and "7 * length ms + 2 \<le> unat sz" and "unat sz = length buf" and "length buf \<le> 0x0fff"
  defines "body \<equiv> fst (enc_list enc_command (True, timestamp (hd ms), 0) (map timed ms))"
  shows "\<exists>minfo' hb buf'. rtpmidi_payload w0 minfo (map Some ms) sz buf =
      Inr (timestamp (hd ms), minfo', (length body, length hb), (0, length body), buf') \<and>
    zero minfo' = 0 \<and> journal minfo' = 0 \<and> phantom minfo' = 0 \<and> len minfo' = int (length body) \<and>
    rtpmidi_encode_header minfo' (sz - of_nat (length body)) = (0, hb) \<and> length hb \<le> 2 \<and>
    take (length body + length hb) buf' = body @ hb \<and> length buf' = length buf"
proof -
  have i: "command_invar (True, timestamp (hd ms), 0)" by (simp add: command_invar_def channel_status_def)
  have len: "length body \<le> 7 * length ms"
    using command.enc_list_length [OF i assms(3)] by (simp add: body_def)
  let ?mi = "minfo\<lparr>journal := 0, phantom := 0, zero := 0\<rparr>"
  let ?mi' = "?mi\<lparr>len := int (length body)\<rparr>"
  have loop: "encode_loop (map Some ms) 0 (timestamp (hd ms)) 0 sz w0 0 ?mi buf =
      Inr (?mi, length body, overlay buf 0 body)"
    using encode_loop_enc_list [of ms 0 "timestamp (hd ms)" 0 body sz 0 buf w0 ?mi] assms(1,2,3,4,5) i len
    by (simp add: body_def)
  have sz: "length body \<le> unat sz" using len assms(4) by simp
  have "2 \<le> unat (sz - of_nat (length body))"
    using unat_sub_len [OF sz] len assms(4) by simp
  then have "2 \<le> sz - of_nat (length body)" by (simp add: word_le_nat_alt)
  then obtain hb where hb: "rtpmidi_encode_header ?mi' (sz - of_nat (length body)) = (0, hb)" "length hb \<le> 2"
    using dec_encode_header [of ?mi' "sz - of_nat (length body)" "[]"] len assms(4-6) by auto
  have fit: "length body + length hb \<le> length buf" using hb(2) len assms(4,5) by simp
  have "rtpmidi_payload w0 minfo (map Some ms) sz buf =
      Inr (timestamp (hd ms), ?mi', (length body, length hb), (0, length body), overlay buf 0 (body @ hb))"
    using assms(1) loop hb fit overlay_overlay [of 0 body hb buf]
    by (cases ms) (simp_all add: rtpmidi_payload_def rtpmidi_encode_messages_def MIDIMessageGetTimestamp_def Let_def)
  moreover have "take (length body + length hb) (overlay buf 0 (body @ hb)) = body @ hb"
    by (simp add: overlay_start)
  ultimately show ?thesis using hb fit
    by (intro exI [of _ ?mi'] exI [of _ hb] exI [of _ "overlay buf 0 (body @ hb)"]) simp
qed

lemma payload_decodes:
  assumes "ms \<noteq> []" and "\<forall>msg \<in> set ms. format msg = Some note_off_on"
    and "valid_list enc_command valid_command (True, timestamp (hd ms), 0) (map timed ms)"
    and "7 * length ms + 2 \<le> unat sz" and "unat sz = length buf" and "length buf \<le> 0x0fff"
  shows "\<exists>minfo' n0 n1 buf' hb body.
    rtpmidi_payload w0 minfo (map Some ms) sz buf = Inr (timestamp (hd ms), minfo', (n1, n0), (0, n1), buf') \<and>
    iov_read buf' (n1, n0) = Inr hb \<and> iov_read buf' (0, n1) = Inr body \<and>
    dec_payload (timestamp (hd ms)) (hb @ body) = Some (map timed ms) \<and>
    journal minfo' = 0 \<and> length buf' = length buf \<and> n1 + n0 \<le> length buf"
proof -
  let ?st = "(True, timestamp (hd ms), 0) :: command_state"
  let ?body = "fst (enc_list enc_command ?st (map timed ms))"
  obtain minfo' hb buf' where p: "rtpmidi_payload w0 minfo (map Some ms) sz buf =
      Inr (timestamp (hd ms), minfo', (length ?body, length hb), (0, length ?body), buf')"
    and mi: "zero minfo' = 0" "journal minfo' = 0" "len minfo' = int (length ?body)"
    and hb: "rtpmidi_encode_header minfo' (sz - of_nat (length ?body)) = (0, hb)" "length hb \<le> 2"
    and t: "take (length ?body + length hb) buf' = ?body @ hb" and l: "length buf' = length buf"
    using payload_result [OF assms, of w0 minfo] by blast
  have i: "command_invar ?st" by (simp add: command_invar_def channel_status_def)
  have len: "length ?body \<le> 7 * length ms" and n: "length ms \<le> length ?body"
    using command.enc_list_length [OF i assms(3)] command.enc_list_nonempty [OF i assms(3)] by simp_all
  have fit: "length ?body + length hb \<le> length buf'" using len hb(2) assms(4,5) l by simp
  have "take (length hb) (drop (length ?body) buf') = drop (length ?body) (take (length ?body + length hb) buf')"
    by (simp add: take_drop add.commute)
  then have r0: "iov_read buf' (length ?body, length hb) = Inr hb"
    using fit t by (simp add: iov_read_def)
  have "take (length ?body) buf' = take (length ?body) (take (length ?body + length hb) buf')" by simp
  then have r1: "iov_read buf' (0, length ?body) = Inr ?body"
    using fit t by (simp add: iov_read_def)
  have sz: "length ?body \<le> unat sz" using len assms(4) by simp
  have "2 \<le> sz - of_nat (length ?body)"
    using unat_sub_len [OF sz] len assms(4) by (simp add: word_le_nat_alt)
  then have "dec_header (hb @ ?body) = Some (journal minfo' \<noteq> 0, False, phantom minfo' \<noteq> 0, length ?body, ?body)"
    using dec_encode_header [of minfo' "sz - of_nat (length ?body)" ?body] hb mi len assms(4-6) by auto
  then have "dec_payload (timestamp (hd ms)) (hb @ ?body) = Some (map timed ms)"
    using command.dec_enc_list [OF i assms(3), of "length ?body"] n by (simp add: dec_payload_def)
  with p r0 r1 mi(2) fit l show ?thesis by metis
qed


text \<open>Lists of the same message at the same time, for the examples.\<close>

lemma enc_list_replicate:
  assumes "channel_message (s, k, v)"
  shows "enc_list enc_command (False, t, s) (replicate n (t, s, k, v)) =
      (concat (replicate n [0, k, v]), (False, t, s))"
    and "valid_list enc_command valid_command (False, t, s) (replicate n (t, s, k, v))"
  using assms by (induction n) (simp_all add: enc_message_eq varlen_bytes_def septet_def)

text \<open>
  What \<open>MIDIUtilWriteVarLen\<close> does for any value: it writes the low 28 bits. And a message that
  does not fit behind its delta time, with one byte of the buffer left: the count of free
  bytes wraps, and the message after it is written beyond the buffer.
\<close>

lemma write_varlen_masked:
  fixes v :: u32
  defines "v' \<equiv> v AND 0x0fffffff"
  shows "MIDIUtilWriteVarLen v sz =
    (if unat sz < length (varlen_bytes v') then (1, []) else (0, varlen_bytes v'))"
    and "v' < 0x10000000"
proof -
  have "v' \<le> 0x0fffffff" unfolding v'_def by (rule word_and_le1)
  then show small: "v' < 0x10000000" by (simp add: word_le_nat_alt word_less_nat_alt)
  have "MIDIUtilWriteVarLen v sz = MIDIUtilWriteVarLen v' sz"
    by (simp add: MIDIUtilWriteVarLen_def v'_def and.assoc)
  then show "MIDIUtilWriteVarLen v sz =
      (if unat sz < length (varlen_bytes v') then (1, []) else (0, varlen_bytes v'))"
    using write_varlen_eq [OF small, of sz] by simp
qed

lemma encode_loop_beyond:
  assumes "length buf \<le> off" and "4 \<le> unat sz"
  shows "encode_loop (Some msg # rest) (Suc m) ts s sz w off info buf = Inl Out_of_bounds"
proof -
  have "sz > 0" using assms(2) by (simp add: word_less_nat_alt)
  moreover have "buf_write buf off (varlen_bytes v) = Inl Out_of_bounds" for v
    using assms(1) varlen_bytes_length(1) [of v] unfolding buf_write_def by (cases "varlen_bytes v") simp_all
  moreover have "\<not> unat sz < length (varlen_bytes v)" for v
    using assms(2) varlen_bytes_length(2) [of v] by simp
  ultimately show ?thesis by (simp add: Let_def write_varlen_masked)
qed

lemma encode_loop_wrap:
  assumes "format msg = Some note_off_on" and "channel_message (three_bytes_of (message_data msg))"
    and "s \<noteq> bytes (message_data msg) ! 0" and "timestamp msg = ts" and "Suc off = length buf"
  shows "encode_loop (Some msg # rest) (Suc m) ts s 1 w off info buf =
    encode_loop rest (Suc (Suc m)) ts (bytes (message_data msg) ! 0) (- 1) 1 (off + 2) info (overlay buf off [0])"
proof -
  have v: "MIDIUtilWriteVarLen 0 1 = (0, [0])"
    using write_varlen_eq [of 0 1] by (simp add: varlen_bytes_def septet_def)
  have "MIDIMessageEncodeRunningStatus msg (Some s) 0 = (1, Some (bytes (message_data msg) ! 0), [])"
    using assms(1-3) encode_channel_message [of "message_data msg" s 0]
    by (simp add: MIDIMessageEncodeRunningStatus_def MIDIMessageFormatEncodeRunningStatus_def three_bytes_of_def)
  then show ?thesis
    using assms(4,5) v by (simp add: MIDIMessageGetTimestamp_def Let_def)
qed

section \<open>Properties\<close>

text \<open>
  C9. The payload of a packet carries exactly the messages it was given: for a non-empty list
  of note messages in order of time, less than \<open>2 ^ 28\<close> ticks apart, for which the buffer has
  seven bytes each and two more, the encoding runs without fault, and what a receiver decodes
  from the header and command section are the messages with their times.
\<close>

theorem payload_roundtrip:
  assumes "ms \<noteq> []" and "\<forall>msg \<in> set ms. format msg = Some note_off_on"
    and "valid_list enc_command valid_command (True, timestamp (hd ms), 0) (map timed ms)"
    and "7 * length ms + 2 \<le> unat sz" and "unat sz = length buf" and "length buf \<le> 0x0fff"
  shows "\<exists>ts minfo' iov0 iov1 buf' hb body.
    rtpmidi_payload w0 minfo (map Some ms) sz buf = Inr (ts, minfo', iov0, iov1, buf') \<and>
    iov_read buf' iov0 = Inr hb \<and> iov_read buf' iov1 = Inr body \<and>
    dec_payload ts (hb @ body) = Some (map timed ms)"
  using payload_decodes [OF assms, of w0 minfo] by blast

definition note_message :: "s64 \<Rightarrow> three_bytes \<Rightarrow> MIDIMessage" where
  "note_message t m = \<lparr>message_refs = 1, format = Some note_off_on, message_data = note_data m, timestamp = t\<rparr>"

lemma note_message_simps [simp]:
  "format (note_message t m) = Some note_off_on" "timestamp (note_message t m) = t"
  "timed (note_message t m) = (t, m)"
  by (cases m; simp add: note_message_def timed_def three_bytes_of_def)+

definition zero_info :: RTPMIDIInfo where
  "zero_info = \<lparr>journal = 0, zero = 0, phantom = 0, len = 0\<rparr>"

lemma payload_roundtrip_witness:
  "\<exists>ts minfo' iov0 iov1 buf' hb body.
    rtpmidi_payload 0 zero_info (map Some [note_message 1000 (0x90, 60, 100), note_message 1500 (0x80, 60, 0)])
      512 (replicate 512 0) = Inr (ts, minfo', iov0, iov1, buf') \<and>
    iov_read buf' iov0 = Inr hb \<and> iov_read buf' iov1 = Inr body \<and>
    dec_payload ts (hb @ body) = Some [(1000, 0x90, 60, 100), (1500, 0x80, 60, 0)]"
  using payload_roundtrip [of "[note_message 1000 (0x90, 60, 100), note_message 1500 (0x80, 60, 0)]"
      512 "replicate 512 0" 0 zero_info]
  by (simp add: enc_message_eq)

text \<open>
  Variable-length numbers: what \<open>MIDIUtilWriteVarLen\<close> writes is read back as the low 28 bits
  of the value, takes one to four bytes and never more than the size it was given; it fails
  only for a size below four.
\<close>

theorem varlen_roundtrip:
  "MIDIUtilWriteVarLen v sz = (1, []) \<and> unat sz < 4 \<or>
   (\<exists>bs. MIDIUtilWriteVarLen v sz = (0, bs) \<and> 1 \<le> length bs \<and> length bs \<le> 4 \<and> length bs \<le> unat sz \<and>
      (\<forall>rest. dec_varlen (bs @ rest) = Some (v AND 0x0fffffff, rest)))"
  using write_varlen_masked(1) [of v sz] dec_varlen_bytes [OF write_varlen_masked(2) [of v]]
    varlen_bytes_length [of "v AND 0x0fffffff"]
  by (cases "unat sz < length (varlen_bytes (v AND 0x0fffffff))") (auto simp: Suc_le_eq)

lemma varlen_example: "MIDIUtilWriteVarLen 200 512 = (0, [0x81, 0x48])"
  using write_varlen_eq [of 200 512] by (simp add: varlen_bytes_def septet_def)

text \<open>
  When the encoded messages fill the buffer to its end, the header is not written, and the
  part of the I/O vector meant for it is as long as the messages and starts where the buffer
  ends: sending it reads beyond the buffer.
\<close>

theorem full_buffer_overread:
  assumes "ms \<noteq> []" and "\<forall>msg \<in> set ms. format msg = Some note_off_on"
    and "valid_list enc_command valid_command (True, timestamp (hd ms), 0) (map timed ms)"
    and "length (fst (enc_list enc_command (True, timestamp (hd ms), 0) (map timed ms))) = length buf"
    and "unat sz = length buf"
  shows "\<exists>ts minfo' buf'. rtpmidi_payload w0 minfo (map Some ms) sz buf =
      Inr (ts, minfo', (length buf, length buf), (0, length buf), buf') \<and>
    length buf' = length buf \<and> iov_read buf' (length buf, length buf) = Inl Out_of_bounds"
proof -
  have i: "command_invar (True, timestamp (hd ms), 0)" by (simp add: command_invar_def channel_status_def)
  let ?body = "fst (enc_list enc_command (True, timestamp (hd ms), 0) (map timed ms))"
  let ?mi = "minfo\<lparr>journal := 0, phantom := 0, zero := 0\<rparr>"
  have pos: "0 < length buf"
    using command.enc_list_nonempty [OF i assms(3)] assms(1,4) by (cases ms) auto
  have loop: "encode_loop (map Some ms) 0 (timestamp (hd ms)) 0 sz w0 0 ?mi buf =
      Inr (?mi, length buf, overlay buf 0 ?body)"
    using encode_loop_enc_list [of ms 0 "timestamp (hd ms)" 0 ?body sz 0 buf w0 ?mi] assms i by simp
  have "sz - of_nat (length buf) = 0" using assms(5) [symmetric] by simp
  moreover have "fst (rtpmidi_encode_header info 0) = 1 \<and> snd (rtpmidi_encode_header info 0) = []" for info
    by (simp add: rtpmidi_encode_header_def Let_def)
  ultimately have h: "rtpmidi_encode_header info (sz - of_nat (length buf)) = (1, [])" for info
    by (metis prod.collapse)
  have "rtpmidi_payload w0 minfo (map Some ms) sz buf =
      Inr (timestamp (hd ms), ?mi\<lparr>len := int (length buf)\<rparr>, (length buf, length buf), (0, length buf),
           overlay buf 0 ?body)"
    using assms(1) loop h
    by (cases ms) (simp_all add: rtpmidi_payload_def rtpmidi_encode_messages_def MIDIMessageGetTimestamp_def Let_def)
  moreover have "length (overlay buf 0 ?body) = length buf" using assms(4) by simp
  ultimately show ?thesis using pos by (auto simp: iov_read_def)
qed

text \<open>The 170 messages that fill the 512 bytes of a session.\<close>

definition filling_notes :: "MIDIMessage list" where
  "filling_notes = note_message 0 (0x90, 60, 100) # note_message 200 (0x90, 60, 0) #
     note_message 400 (0x90, 60, 100) # replicate 167 (note_message 400 (0x90, 60, 0))"

lemma full_buffer_overread_witness:
  "length filling_notes = 170 \<and>
   (\<exists>ts minfo' buf'. rtpmidi_payload 0 zero_info (map Some filling_notes) 512 (replicate 512 0) =
      Inr (ts, minfo', (512, 512), (0, 512), buf') \<and> iov_read buf' (512, 512) = Inl Out_of_bounds)"
proof -
  have v: "varlen_bytes 200 = [0x81, 0x48]" by (simp add: varlen_bytes_def septet_def)
  note r = enc_list_replicate [of "0x90" 60 0 400 167]
  have t: "map timed filling_notes = (0, 0x90, 60, 100) # (200, 0x90, 60, 0) # (400, 0x90, 60, 100) #
      replicate 167 (400, 0x90, 60, 0)"
    by (simp add: filling_notes_def)
  have "length (concat (replicate n [0, 60, 0 :: u8])) = 3 * n" for n by (induction n) simp_all
  then have l: "length (fst (enc_list enc_command (True, timestamp (hd filling_notes), 0) (map timed filling_notes))) = 512"
    unfolding t using r(1) by (simp add: filling_notes_def enc_message_eq v)
  have "valid_list enc_command valid_command (True, timestamp (hd filling_notes), 0) (map timed filling_notes)"
    unfolding t using r(2) by (simp add: filling_notes_def enc_message_eq)
  with full_buffer_overread [of filling_notes "replicate 512 0" 512 0 zero_info] l show ?thesis
    by (auto simp: filling_notes_def)
qed


text \<open>
  C34. The encoding of a list that is too long for the buffer can write beyond it: when one byte
  is left and the next message needs its status byte, the failure of its encoder goes
  unnoticed, the count of free bytes wraps around, and the message after that is written
  behind the end of the buffer.
\<close>

theorem long_list_overflow:
  assumes "\<forall>msg \<in> set ms. format msg = Some note_off_on" and "ms \<noteq> []"
    and "valid_list enc_command valid_command (True, ts, 0) (map timed ms)"
    and "enc_list enc_command (True, ts, 0) (map timed ms) = (body, (False, ts', s'))"
    and "unat sz = length buf" and "Suc (length body) = length buf"
    and "format m1 = Some note_off_on" and "channel_message (three_bytes_of (message_data m1))"
    and "timestamp m1 = ts'" and "bytes (message_data m1) ! 0 \<noteq> s'"
  shows "rtpmidi_encode_messages w0 info ts (map Some ms @ [Some m1, Some m2]) sz buf = Inl Out_of_bounds"
proof -
  have i: "command_invar (True, ts, 0)" by (simp add: command_invar_def channel_status_def)
  have sz: "sz - of_nat (length body) = 1"
  proof -
    have "unat (sz - of_nat (length body)) = 1"
      using unat_sub_len [of "length body" sz] assms(5,6) by simp
    then show ?thesis by (simp add: word_unat_eq_iff)
  qed
  obtain w' where "encode_loop (map Some ms @ [Some m1, Some m2]) 0 ts 0 sz w0 0 info buf =
      encode_loop [Some m1, Some m2] (length ms) ts' s' 1 w' (length body)
        (info\<lparr>zero := 0\<rparr>) (overlay buf 0 body)"
    using encode_loop_append [of ms 0 ts 0 body "(False, ts', s')" sz 0 buf "[Some m1, Some m2]" w0 info]
      assms(1-6) i sz by auto
  moreover obtain n where n: "length ms = Suc n" using assms(2) by (cases ms) auto
  moreover have "encode_loop [Some m1, Some m2] (Suc n) ts' s' 1 w' (length body) (info\<lparr>zero := 0\<rparr>)
      (overlay buf 0 body) =
    encode_loop [Some m2] (Suc (Suc n)) ts' (bytes (message_data m1) ! 0) (- 1) 1 (length body + 2)
      (info\<lparr>zero := 0\<rparr>) (overlay (overlay buf 0 body) (length body) [0])" for w'
    using assms(6) by (intro encode_loop_wrap [OF assms(7,8) assms(10) [symmetric] assms(9)]) simp
  moreover have "encode_loop [Some m2] (Suc (Suc n)) ts' (bytes (message_data m1) ! 0) (- 1) 1
      (length body + 2) (info\<lparr>zero := 0\<rparr>) (overlay (overlay buf 0 body) (length body) [0]) = Inl Out_of_bounds"
    using assms(6) by (intro encode_loop_beyond) (simp_all add: unsigned_minus_1_eq_mask mask_eq_exp_minus_1)
  ultimately have "encode_loop (map Some ms @ [Some m1, Some m2]) 0 ts 0 sz w0 0 info buf = Inl Out_of_bounds"
    by metis
  then show ?thesis by (simp add: rtpmidi_encode_messages_def)
qed

lemma long_list_overflow_witness:
  "rtpmidi_encode_messages 0 zero_info 0
     (map Some (note_message 0 (0x90, 60, 100) # note_message 200 (0x90, 60, 0) #
        replicate 168 (note_message 200 (0x90, 60, 0)))
      @ [Some (note_message 200 (0x80, 60, 0)), Some (note_message 200 (0x90, 62, 1))])
     512 (replicate 512 0) = Inl Out_of_bounds"
proof -
  let ?ms = "note_message 0 (0x90, 60, 100) # note_message 200 (0x90, 60, 0) #
        replicate 168 (note_message 200 (0x90, 60, 0))"
  have v: "varlen_bytes 200 = [0x81, 0x48]" by (simp add: varlen_bytes_def septet_def)
  note r = enc_list_replicate [of "0x90" 60 0 200 168]
  have t: "map timed ?ms = (0, 0x90, 60, 100) # (200, 0x90, 60, 0) # replicate 168 (200, 0x90, 60, 0)"
    by simp
  let ?body = "[0x90, 60, 100] @ [0x81, 0x48, 60, 0] @ concat (replicate 168 [0, 60, 0 :: u8])"
  have e: "enc_list enc_command (True, 0, 0) (map timed ?ms) = (?body, (False, 200, 0x90))"
    unfolding t using r(1) by (simp add: enc_message_eq v)
  have vl: "valid_list enc_command valid_command (True, 0, 0) (map timed ?ms)"
    unfolding t using r(2) by (simp add: enc_message_eq)
  have "length (concat (replicate n [0, 60, 0 :: u8])) = 3 * n" for n by (induction n) simp_all
  then have "Suc (length ?body) = length (replicate 512 (0 :: u8))" by simp
  then show ?thesis
    by (intro long_list_overflow [OF _ _ vl e]) (simp_all add: note_message_def three_bytes_of_def)
qed

end
