(* ===== verification/Rtpmidi_Send.thy ===== *)
theory Rtpmidi_Send
  imports Rtp_Midi Rtp_Packet
begin

text \<open>
  RTP-MIDI sessions (\<open>applemidi/rtpmidi.c\<close>): their life, and \<open>RTPMIDISessionSend\<close>, which encodes
  a list of messages once and sends the packet to every peer of the RTP session. An RTP-MIDI
  session refers to an RTP session, which the operations take and give back beside it. The
  loop over the peers has fuel, since over a table in which a peer occurs twice it would not
  end; over a well-formed table \<open>RTP_MAX_PEERS + 1\<close> steps are enough.
\<close>

section \<open>Sessions\<close>

record RTPMIDISession =
  ms_refs :: u32
  midi_info :: RTPMIDIInfo
  rtp_info :: RTPPacketInfo
  ms_size :: u32
  ms_buffer :: mem_ptr

text \<open>\<open>raw\<close> and \<open>buf\<close> are what the two calls of \<open>kmalloc\<close> return.\<close>

definition RTPMIDISessionCreate ::
    "RTPMIDISession option \<Rightarrow> (nat \<times> bytes) option \<Rightarrow> RTPSession \<Rightarrow> memory \<Rightarrow>
     RTPMIDISession option \<times> RTPSession \<times> memory" where
  "RTPMIDISessionCreate raw buf rtp mem =
     (case raw of
        None \<Rightarrow> (None, rtp, mem)
      | Some session \<Rightarrow>
          let session = session\<lparr>ms_refs := 1,
                midi_info := \<lparr>journal = 0, zero = 0, phantom = 0, len = 0\<rparr>, ms_size := 512\<rparr>;
              rtp = RTPSessionRetain rtp
          in (case buf of
                None \<Rightarrow> (Some (session\<lparr>ms_buffer := Null, ms_size := 0\<rparr>), rtp, mem)
              | Some (b, bs) \<Rightarrow> (Some (session\<lparr>ms_buffer := In_block b 0\<rparr>), rtp, mem(b \<mapsto> bs))))"

definition RTPMIDISessionRetain :: "RTPMIDISession \<Rightarrow> RTPMIDISession" where
  "RTPMIDISessionRetain session = session\<lparr>ms_refs := ms_refs session + 1\<rparr>"

definition RTPMIDISessionDestroy ::
    "RTPMIDISession \<Rightarrow> RTPSession \<Rightarrow> peer_heap \<Rightarrow> memory \<Rightarrow>
     (RTPSession option \<times> peer_heap \<times> memory) res" where
  "RTPMIDISessionDestroy session rtp h mem =
     bind_res (RTPSessionRelease rtp h mem) (\<lambda>(rtp, h, mem).
       Inr (rtp, h, if ms_size session > 0 \<and> ms_buffer session \<noteq> Null then mem_free (ms_buffer session) mem
                    else mem))"

definition RTPMIDISessionRelease ::
    "RTPMIDISession \<Rightarrow> RTPSession \<Rightarrow> peer_heap \<Rightarrow> memory \<Rightarrow>
     (RTPMIDISession option \<times> RTPSession option \<times> peer_heap \<times> memory) res" where
  "RTPMIDISessionRelease session rtp h mem =
     (let n = ms_refs session - 1;
          session = session\<lparr>ms_refs := n\<rparr>
      in if n = 0
         then bind_res (RTPMIDISessionDestroy session rtp h mem) (\<lambda>(rtp, h, mem). Inr (None, rtp, h, mem))
         else Inr (Some session, Some rtp, h, mem))"

section \<open>Sending\<close>

definition block_of :: "memory \<Rightarrow> mem_ptr \<Rightarrow> bytes res" where
  "block_of mem p =
     (case p of
        Null \<Rightarrow> Inr []
      | In_block b off \<Rightarrow> (case mem b of None \<Rightarrow> Inl Use_after_free | Some bs \<Rightarrow> Inr bs))"

definition put_block :: "memory \<Rightarrow> mem_ptr \<Rightarrow> bytes \<Rightarrow> memory" where
  "put_block mem p bs = (case p of Null \<Rightarrow> mem | In_block b off \<Rightarrow> mem(b \<mapsto> bs))"

text \<open>
  The loop over the peers: return code, packet info, heap, memory and packets so far. The
  outer option is \<open>None\<close> when the fuel does not suffice.
\<close>

fun broadcast ::
    "nat \<Rightarrow> sendmsg \<Rightarrow> RTPSession \<Rightarrow> RTPMIDIInfo \<Rightarrow> iovec list \<Rightarrow> peer_ptr option \<Rightarrow> int \<Rightarrow>
     RTPPacketInfo \<Rightarrow> peer_heap \<Rightarrow> memory \<Rightarrow> packet list \<Rightarrow>
     (int \<times> RTPPacketInfo \<times> peer_heap \<times> memory \<times> packet list) res option" where
  "broadcast n sock rtp minfo iov None result info h mem out = Some (Inr (result, info, h, mem, out))"
| "broadcast 0 sock rtp minfo iov (Some p) result info h mem out = None"
| "broadcast (Suc n) sock rtp minfo iov (Some p) result info h mem out =
     (let info = info\<lparr>info_peer := Some p, iovlen := (if journal minfo \<noteq> 0 then 3 else 2), info_iov := iov,
                      payload_size := iov_len (iov ! 0) + iov_len (iov ! 1) + iov_len (iov ! 2)\<rparr>
      in (case RTPSessionSendPacket sock rtp (Some info) h mem of
            Inl e \<Rightarrow> Some (Inl e)
          | Inr (result, info', h, mem, out') \<Rightarrow>
              broadcast n sock rtp minfo iov (snd (next_peer rtp (Some p))) result (the info') h mem (out @ out')))"

definition RTPMIDISessionSend ::
    "nat \<Rightarrow> u32 \<Rightarrow> sendmsg \<Rightarrow> RTPSession \<Rightarrow> RTPMIDISession \<Rightarrow> MIDIMessage option list \<Rightarrow> peer_heap \<Rightarrow> memory \<Rightarrow>
     (int \<times> RTPMIDISession \<times> peer_heap \<times> memory \<times> packet list) res option" where
  "RTPMIDISessionSend fuel w0 sock rtp session messages h mem =
     (case bind_res (block_of mem (ms_buffer session)) (\<lambda>buf.
             rtpmidi_payload w0 (midi_info session) messages (ms_size session) buf) of
        Inl e \<Rightarrow> Some (Inl e)
      | Inr (ts, minfo, (off0, n0), (off1, n1), buf) \<Rightarrow>
          (let mem = put_block mem (ms_buffer session) buf;
               info = (rtp_info session)\<lparr>info_peer := None, padding := 0, extension := 0, csrc_count := 0,
                        marker := 0, payload_type := 97, sequence_number := 0, info_timestamp := ucast ts\<rparr>;
               iov = [\<lparr>iov_base = advance_ptr (ms_buffer session) (of_nat off0), iov_len = of_nat n0\<rparr>,
                      \<lparr>iov_base = advance_ptr (ms_buffer session) (of_nat off1), iov_len = of_nat n1\<rparr>,
                      \<lparr>iov_base = Null, iov_len = 0\<rparr>];
               (result, peer) = next_peer rtp None
           in map_option (map_sum id (\<lambda>(result, info, h, mem, out).
                  (result, session\<lparr>midi_info := minfo, rtp_info := info\<rparr>, h, mem, out)))
                (broadcast fuel sock rtp minfo iov peer result info h mem [])))"

section \<open>One packet for every peer\<close>

text \<open>A packet that a peer can read: it is the next one of the session for this peer.\<close>

definition packet_for ::
    "RTPSession \<Rightarrow> peer_heap \<Rightarrow> u32 \<Rightarrow> bytes \<Rightarrow> peer_ptr \<Rightarrow> packet \<Rightarrow> bool" where
  "packet_for rtp h ts payload p out \<longleftrightarrow> (\<exists>r. h p = Some r \<and> fst out = addr (address r) \<and>
     dec_rtp (snd out) = Some \<lparr>pk_payload_type = 97, pk_marker = False, pk_seq = ucast (out_seqnum r + 1),
       pk_timestamp = ts, pk_ssrc = ssrc (self rtp), pk_payload = payload\<rparr>)"

definition socket_takes_all :: "sendmsg \<Rightarrow> bool" where
  "socket_takes_all sock \<longleftrightarrow> (\<forall>s a n pkt. sock s a n pkt = (int (length pkt), 0))"

text \<open>What the loop keeps: plain packet infos with the time of the messages.\<close>

definition midi_packet_info :: "u32 \<Rightarrow> RTPPacketInfo \<Rightarrow> bool" where
  "midi_packet_info ts info \<longleftrightarrow> plain_info info \<and> marker info = 0 \<and> payload_type info = 97 \<and> info_timestamp info = ts"

definition payload_ready :: "RTPSession \<Rightarrow> iovec list \<Rightarrow> memory \<Rightarrow> nat \<Rightarrow> bytes \<Rightarrow> bytes \<Rightarrow> bool" where
  "payload_ready rtp iov mem b buf payload \<longleftrightarrow> length iov = 3 \<and> list_all (avoids_block b) iov \<and>
     socket rtp \<noteq> None \<and> buffer rtp = In_block b 0 \<and> mem b = Some buf \<and> 12 \<le> unat (buflen rtp) \<and> 12 \<le> length buf \<and>
     read_iov mem (take 2 iov) = Inr payload"

lemma payload_ready_sendable:
  assumes "payload_ready rtp iov mem b buf payload" and "midi_packet_info ts info"
  shows "sendable rtp (info\<lparr>info_peer := Some p, iovlen := 2, info_iov := iov, payload_size := n\<rparr>) mem b buf payload"
  using assms by (simp add: sendable_def payload_ready_def midi_packet_info_def plain_info_def rtp_sizes)

lemma payload_ready_step:
  assumes "payload_ready rtp iov mem b buf payload" and "length buf' = length buf"
  shows "payload_ready rtp iov (mem(b \<mapsto> buf')) b buf' payload"
proof -
  have "list_all (avoids_block b) (take 2 iov)"
    using assms(1) by (auto simp: payload_ready_def list_all_iff dest: in_set_takeD)
  then show ?thesis
    using assms read_iov_frame [of b "take 2 iov" mem "Some buf'"]
    by (auto simp: payload_ready_def)
qed

text \<open>A peer after a packet with time \<open>ts\<close> was sent to it.\<close>

definition peer_after :: "u32 \<Rightarrow> RTPPeer \<Rightarrow> RTPPeer" where
  "peer_after ts r = r\<lparr>out_seqnum := ucast (ucast (out_seqnum r + 1) :: u16), out_timestamp := ts\<rparr>"

lemma send_to_peer:
  assumes "payload_ready rtp iov mem b buf payload" and "midi_packet_info ts info"
    and "h p = Some r" and "socket_takes_all sock"
  obtains info' buf' pkt where "RTPSessionSendPacket sock rtp
      (Some (info\<lparr>info_peer := Some p, iovlen := 2, info_iov := iov, payload_size := n\<rparr>)) h mem =
      Inr (0, Some info', h(p \<mapsto> peer_after ts r), mem(b \<mapsto> buf'), [(addr (address r), pkt)])"
    and "midi_packet_info ts info'" and "length buf' = length buf"
    and "packet_for rtp h ts payload p (addr (address r), pkt)"
proof -
  let ?i = "info\<lparr>info_peer := Some p, iovlen := 2, info_iov := iov, payload_size := n\<rparr>"
  let ?j = "?i\<lparr>info_ssrc := ssrc (self rtp), sequence_number := ucast (out_seqnum r + 1)\<rparr>"
  have i: "info_peer ?i = Some p" by simp
  have m: "marker info = 0" "payload_type info = 97" "info_timestamp info = ts"
    using assms(2) by (simp_all add: midi_packet_info_def)
  obtain so where so: "socket rtp = Some so" using assms(1) by (auto simp: payload_ready_def)
  have s: "sock s a n pkt = (int (length pkt), 0)" for s a n pkt
    using assms(4) by (simp add: socket_takes_all_def)
  obtain info' mem' where
    send: "RTPSessionSendPacket sock rtp (Some ?i) h mem =
      Inr (0, Some info', h(p \<mapsto> r\<lparr>out_seqnum := ucast (ucast (out_seqnum r + 1) :: u16), out_timestamp := ts\<rparr>),
           mem', [(addr (address r), plain_header ?j @ payload)])"
    and info': "midi_packet_info ts info'"
    and mem': "\<exists>buf'. mem' = mem(b \<mapsto> buf') \<and> length buf' = length buf"
    using send_packet_result [where h = h, OF i assms(3) payload_ready_sendable [OF assms(1,2)] so, of sock] m
    by (auto simp: s midi_packet_info_def)
  have "packet_for rtp h ts payload p (addr (address r), plain_header ?j @ payload)"
    using dec_plain_header [of ?j payload] assms(3) m by (simp add: packet_for_def)
  with send info' mem' that show thesis unfolding peer_after_def by blast
qed


lemma next_peer_of:
  assumes "distinct (peer_list rtp)" and "peer_list rtp = ps @ p # qs"
  shows "snd (next_peer rtp (Some p)) = (case qs of [] \<Rightarrow> None | q # _ \<Rightarrow> Some q)"
  using peer_cursor.nxt_Some [OF assms] by (simp add: table_next_def)

text \<open>One round of the loop sends one packet and goes on with the next peer.\<close>

lemma broadcast_step:
  assumes "socket_takes_all sock" and "journal minfo = 0" and "payload_ready rtp iov mem b buf payload" and "midi_packet_info ts info"
    and "h p = Some r" and "h0 p = Some r"
  obtains info' buf' pkt where "midi_packet_info ts info'" and "length buf' = length buf"
    and "packet_for rtp h0 ts payload p (addr (address r), pkt)"
    and "\<forall>k result out. broadcast (Suc k) sock rtp minfo iov (Some p) result info h mem out =
      broadcast k sock rtp minfo iov (snd (next_peer rtp (Some p))) 0 info' (h(p \<mapsto> peer_after ts r)) (mem(b \<mapsto> buf'))
        (out @ [(addr (address r), pkt)])"
proof -
  let ?n = "iov_len (iov ! 0) + iov_len (iov ! 1) + iov_len (iov ! 2)"
  obtain info' buf' pkt where send: "RTPSessionSendPacket sock rtp
      (Some (info\<lparr>info_peer := Some p, iovlen := 2, info_iov := iov, payload_size := ?n\<rparr>)) h mem =
      Inr (0, Some info', h(p \<mapsto> peer_after ts r), mem(b \<mapsto> buf'), [(addr (address r), pkt)])"
    and new: "midi_packet_info ts info'" "length buf' = length buf"
    and pkt: "packet_for rtp h ts payload p (addr (address r), pkt)"
    using send_to_peer [where h = h and n = ?n, OF assms(3,4,5,1)] by blast
  have "packet_for rtp h0 ts payload p (addr (address r), pkt)" using pkt assms(5,6) by (simp add: packet_for_def)
  with new show ?thesis using that
    by (simp add: assms(2) send [unfolded One_nat_def] Let_def del: fun_upd_apply)
qed

lemma broadcast_from:
  assumes "distinct (peer_list rtp)" and "socket_takes_all sock" and "journal minfo = 0"
  shows "peer_list rtp = ps @ p # qs \<Longrightarrow> \<forall>q \<in> set (p # qs). h q = h0 q \<and> h0 q \<noteq> None \<Longrightarrow>
    payload_ready rtp iov mem b buf payload \<Longrightarrow> midi_packet_info ts info \<Longrightarrow> length (p # qs) \<le> n \<Longrightarrow>
    \<exists>info' h' mem' out'.
      broadcast n sock rtp minfo iov (Some p) result info h mem out = Some (Inr (0, info', h', mem', out @ out')) \<and>
      list_all2 (packet_for rtp h0 ts payload) (p # qs) out' \<and>
      (\<forall>q. h' q = (if q \<in> set (p # qs) then map_option (peer_after ts) (h0 q) else h q))"
proof (induction qs arbitrary: ps p h mem buf info n result out)
  case Nil
  obtain k where n: "n = Suc k" using Nil.prems(5) by (cases n) auto
  obtain r where r: "h p = Some r" "h0 p = Some r" using Nil.prems(2) by auto
  obtain info' buf' pkt where "midi_packet_info ts info'" and "length buf' = length buf"
    and pkt: "packet_for rtp h0 ts payload p (addr (address r), pkt)"
    and step: "\<forall>k result out. broadcast (Suc k) sock rtp minfo iov (Some p) result info h mem out =
      broadcast k sock rtp minfo iov (snd (next_peer rtp (Some p))) 0 info' (h(p \<mapsto> peer_after ts r)) (mem(b \<mapsto> buf'))
        (out @ [(addr (address r), pkt)])"
    by (rule broadcast_step [where h = h and ?h0.0 = h0, OF assms(2,3) Nil.prems(3,4) r])
  have "snd (next_peer rtp (Some p)) = None" using next_peer_of [OF assms(1) Nil.prems(1)] by simp
  with step have "broadcast n sock rtp minfo iov (Some p) result info h mem out =
      Some (Inr (0, info', h(p \<mapsto> peer_after ts r), mem(b \<mapsto> buf'), out @ [(addr (address r), pkt)]))"
    by (simp add: n del: fun_upd_apply)
  with pkt show ?case using r by (intro exI conjI) (assumption, auto)
next
  case (Cons q qs)
  obtain k where n: "n = Suc k" and k: "length (q # qs) \<le> k" using Cons.prems(5) by (cases n) auto
  obtain r where r: "h p = Some r" "h0 p = Some r" using Cons.prems(2) by auto
  obtain info' buf' pkt where info': "midi_packet_info ts info'" and buf': "length buf' = length buf"
    and pkt: "packet_for rtp h0 ts payload p (addr (address r), pkt)"
    and step: "\<forall>k result out. broadcast (Suc k) sock rtp minfo iov (Some p) result info h mem out =
      broadcast k sock rtp minfo iov (snd (next_peer rtp (Some p))) 0 info' (h(p \<mapsto> peer_after ts r)) (mem(b \<mapsto> buf'))
        (out @ [(addr (address r), pkt)])"
    by (rule broadcast_step [where h = h and ?h0.0 = h0, OF assms(2,3) Cons.prems(3,4) r])
  have nx: "snd (next_peer rtp (Some p)) = Some q" using next_peer_of [OF assms(1) Cons.prems(1)] by simp
  have notin: "p \<notin> set (q # qs)" using assms(1) Cons.prems(1) by auto
  have rest: "\<forall>q' \<in> set (q # qs). (h(p \<mapsto> peer_after ts r)) q' = h0 q' \<and> h0 q' \<noteq> None" using Cons.prems(2) notin by auto
  have l: "peer_list rtp = (ps @ [p]) @ q # qs" using Cons.prems(1) by simp
  obtain info2 h' mem' out' where
    rec: "broadcast n sock rtp minfo iov (Some p) result info h mem out =
      Some (Inr (0, info2, h', mem', (out @ [(addr (address r), pkt)]) @ out'))"
    and pkts: "list_all2 (packet_for rtp h0 ts payload) (q # qs) out'"
    and h': "\<forall>q'. h' q' = (if q' \<in> set (q # qs) then map_option (peer_after ts) (h0 q') else (h(p \<mapsto> peer_after ts r)) q')"
    using Cons.IH [OF l rest payload_ready_step [OF Cons.prems(3) buf'] info' k] step unfolding n nx by metis
  have "list_all2 (packet_for rtp h0 ts payload) (p # q # qs) ((addr (address r), pkt) # out')" using pkt pkts by simp
  moreover have "\<forall>q'. h' q' = (if q' \<in> set (p # q # qs) then map_option (peer_after ts) (h0 q') else h q')"
    using h' r notin by auto
  moreover have "broadcast n sock rtp minfo iov (Some p) result info h mem out =
      Some (Inr (0, info2, h', mem', out @ (addr (address r), pkt) # out'))" using rec by simp
  ultimately show ?case by blast
qed


section \<open>Properties\<close>

text \<open>There is a socket, and the buffers of the two sessions are two blocks, and large enough.\<close>

definition session_buffers ::
    "RTPSession \<Rightarrow> RTPMIDISession \<Rightarrow> memory \<Rightarrow> nat \<Rightarrow> bytes \<Rightarrow> nat \<Rightarrow> bytes \<Rightarrow> bool" where
  "session_buffers rtp session mem b rbuf mb buf \<longleftrightarrow> b \<noteq> mb \<and> socket rtp \<noteq> None \<and>
     buffer rtp = In_block b 0 \<and> mem b = Some rbuf \<and> 12 \<le> unat (buflen rtp) \<and> 12 \<le> length rbuf \<and>
     ms_buffer session = In_block mb 0 \<and> mem mb = Some buf \<and> unat (ms_size session) = length buf \<and>
     length buf \<le> 0x0fff"

lemma iov_read_mem:
  assumes "iov_read buf (off, n) = Inr bs" and "mem mb = Some buf" and "length buf \<le> 0x0fff"
  shows "read_mem mem (advance_ptr (In_block mb 0) (of_nat off)) (unat (of_nat n :: u32)) = Inr bs"
proof -
  have "off + n \<le> length buf" using assms(1) by (auto simp: iov_read_def split: if_splits)
  with assms(3) have "unat (of_nat off :: u32) = off" "unat (of_nat n :: u32) = n"
    by (simp_all add: unat_of_nat)
  with assms show ?thesis by (auto simp: read_mem_def advance_ptr_def iov_read_def split: if_splits)
qed

lemma send_payload_ready:
  assumes "session_buffers rtp session mem b rbuf mb buf" and "length buf' = length buf"
    and "iov_read buf' (n1, n0) = Inr hb" and "iov_read buf' (0, n1) = Inr body"
  shows "payload_ready rtp
    [\<lparr>iov_base = advance_ptr (ms_buffer session) (of_nat n1), iov_len = of_nat n0\<rparr>,
     \<lparr>iov_base = advance_ptr (ms_buffer session) (of_nat 0), iov_len = of_nat n1\<rparr>,
     \<lparr>iov_base = Null, iov_len = 0\<rparr>] (put_block mem (ms_buffer session) buf') b rbuf (hb @ body)"
proof -
  have s: "b \<noteq> mb" "socket rtp \<noteq> None" "buffer rtp = In_block b 0" "mem b = Some rbuf" "12 \<le> unat (buflen rtp)" "12 \<le> length rbuf"
    "ms_buffer session = In_block mb 0" "length buf' \<le> 0x0fff"
    using assms(1,2) by (simp_all add: session_buffers_def)
  let ?mem = "put_block mem (ms_buffer session) buf'"
  have m: "?mem mb = Some buf'" by (simp add: put_block_def s(7))
  have "take 2 [x, y, z] = [x, y]" for x y z :: iovec by (simp add: numeral_2_eq_2)
  then show ?thesis
    using s iov_read_mem [where mem = ?mem and mb = mb, OF assms(3) m s(8)]
      iov_read_mem [where mem = ?mem and mb = mb, OF assms(4) m s(8)]
    by (simp add: payload_ready_def avoids_block_def advance_ptr_def put_block_def)
qed

text \<open>Up to the loop over the peers: the payload is in the buffer, and the vector points to it.\<close>

definition send_result :: "RTPMIDISession \<Rightarrow> RTPMIDIInfo \<Rightarrow>
    (int \<times> RTPPacketInfo \<times> peer_heap \<times> memory \<times> packet list) res option \<Rightarrow> (int \<times> RTPMIDISession \<times> peer_heap \<times> memory \<times> packet list) res option" where
  "send_result session minfo = map_option (map_sum id (\<lambda>(result, info, h, mem, out).
     (result, session\<lparr>midi_info := minfo, rtp_info := info\<rparr>, h, mem, out)))"

lemma send_start:
  assumes "session_buffers rtp session mem b rbuf mb buf"
    and "ms \<noteq> []" and "\<forall>msg \<in> set ms. format msg = Some note_off_on"
    and "valid_list enc_command valid_command (True, timestamp (hd ms), 0) (map timed ms)"
    and "7 * length ms + 2 \<le> length buf"
  obtains minfo iov buf' payload info where "journal minfo = 0" and "length buf' = length buf"
    and "dec_payload (timestamp (hd ms)) payload = Some (map timed ms)"
    and "payload_ready rtp iov (put_block mem (ms_buffer session) buf') b rbuf payload"
    and "midi_packet_info (ucast (timestamp (hd ms))) info"
    and "\<forall>n h. RTPMIDISessionSend n w0 sock rtp session (map Some ms) h mem =
      send_result session minfo (broadcast n sock rtp minfo iov (snd (next_peer rtp None)) (fst (next_peer rtp None)) info h
        (put_block mem (ms_buffer session) buf') [])"
proof -
  have sb: "ms_buffer session = In_block mb 0" "mem mb = Some buf" "unat (ms_size session) = length buf" "length buf \<le> 0x0fff"
    using assms(1) by (simp_all add: session_buffers_def)
  have l: "7 * length ms + 2 \<le> unat (ms_size session)" using assms(5) sb(3) by simp
  obtain minfo n0 n1 buf' hb body where
    pay: "rtpmidi_payload w0 (midi_info session) (map Some ms) (ms_size session) buf =
        Inr (timestamp (hd ms), minfo, (n1, n0), (0, n1), buf')"
    and rd: "iov_read buf' (n1, n0) = Inr hb" "iov_read buf' (0, n1) = Inr body"
    and dec: "dec_payload (timestamp (hd ms)) (hb @ body) = Some (map timed ms)"
    and mi: "journal minfo = 0" and len: "length buf' = length buf"
    using payload_decodes [OF assms(2-4) l sb(3,4), of w0 "midi_info session"] by blast
  let ?info = "(rtp_info session)\<lparr>info_peer := None, padding := 0, extension := 0, csrc_count := 0,
      marker := 0, payload_type := 97, sequence_number := 0, info_timestamp := ucast (timestamp (hd ms))\<rparr>"
  have mpi: "midi_packet_info (ucast (timestamp (hd ms))) ?info" by (simp add: midi_packet_info_def plain_info_def)
  have blk: "block_of mem (ms_buffer session) = Inr buf" by (simp add: block_of_def sb)
  show ?thesis
    using that [OF mi len dec send_payload_ready [OF assms(1) len rd] mpi] pay blk
    by (simp add: RTPMIDISessionSend_def send_result_def split_beta del: broadcast.simps)
qed

text \<open>The first peer of the table.\<close>

lemma next_peer_start: "next_peer rtp None = (0, case peer_list rtp of [] \<Rightarrow> None | p # qs \<Rightarrow> Some p)"
  by (simp add: next_peer_def first_peer_eq peer_list_def split: list.split)

lemma peer_list_table:
  assumes "table_ok rtp h" and "peer_list rtp = p # qs"
  shows "distinct (peer_list rtp)" and "\<forall>q \<in> set (p # qs). h q \<noteq> None" and "length (p # qs) \<le> RTP_MAX_PEERS + 1"
    and "members rtp = set (p # qs)"
proof -
  show "distinct (peer_list rtp)" "members rtp = set (p # qs)" using assms by (simp_all add: table_ok_def members_def)
  show "\<forall>q \<in> set (p # qs). h q \<noteq> None" using assms by (auto simp: table_ok_def members_def)
  show "length (p # qs) \<le> RTP_MAX_PEERS + 1" using assms length_occupied [of "peers rtp"] by (simp add: table_defs)
qed

text \<open>
  C2. Sending to all: with buffers large enough and a socket that takes every packet,
  \<open>RTPMIDISessionSend\<close> ends, returns 0 and sends exactly one packet to each peer of the table,
  in the order of the slots and to the peer's address; each packet carries the next sequence
  number of that peer, and each receiver decodes exactly the messages with their times. Only
  the sequence numbers and times of the peers of the table change.
\<close>

theorem broadcast_delivers:
  assumes "table_ok rtp h" and "socket_takes_all sock" and "session_buffers rtp session mem b rbuf mb buf"
    and "ms \<noteq> []" and "\<forall>msg \<in> set ms. format msg = Some note_off_on"
    and "valid_list enc_command valid_command (True, timestamp (hd ms), 0) (map timed ms)"
    and "7 * length ms + 2 \<le> length buf"
  shows "\<exists>session' h' mem' out payload.
    RTPMIDISessionSend (RTP_MAX_PEERS + 1) w0 sock rtp session (map Some ms) h mem =
      Some (Inr (0, session', h', mem', out)) \<and>
    list_all2 (packet_for rtp h (ucast (timestamp (hd ms))) payload) (peer_list rtp) out \<and>
    dec_payload (timestamp (hd ms)) payload = Some (map timed ms) \<and>
    (\<forall>q. h' q = (if q \<in> members rtp then map_option (peer_after (ucast (timestamp (hd ms)))) (h q) else h q))"
proof -
  let ?ts = "ucast (timestamp (hd ms)) :: u32"
  obtain minfo iov buf' payload info where s: "journal minfo = 0" "dec_payload (timestamp (hd ms)) payload = Some (map timed ms)"
      "payload_ready rtp iov (put_block mem (ms_buffer session) buf') b rbuf payload" "midi_packet_info ?ts info"
    and send: "\<forall>n h. RTPMIDISessionSend n w0 sock rtp session (map Some ms) h mem =
      send_result session minfo (broadcast n sock rtp minfo iov (snd (next_peer rtp None)) (fst (next_peer rtp None)) info h
        (put_block mem (ms_buffer session) buf') [])"
    using send_start [OF assms(3-7), of w0 sock] by metis
  show ?thesis
  proof (cases "peer_list rtp")
    case Nil
    then show ?thesis using s(2) by (simp add: send send_result_def next_peer_start members_def) blast
  next
    case (Cons p qs)
    note t = peer_list_table [OF assms(1) Cons]
    have l: "peer_list rtp = [] @ p # qs" "\<forall>q \<in> set (p # qs). h q = h q \<and> h q \<noteq> None" using Cons t(2) by simp_all
    obtain info' h' mem' out' where "broadcast (RTP_MAX_PEERS + 1) sock rtp minfo iov (Some p) 0 info h (put_block mem (ms_buffer session) buf') [] =
        Some (Inr (0, info', h', mem', out'))"
      and "list_all2 (packet_for rtp h ?ts payload) (p # qs) out'"
      and "\<forall>q. h' q = (if q \<in> set (p # qs) then map_option (peer_after ?ts) (h q) else h q)"
      using broadcast_from [OF t(1) assms(2) s(1) l s(3,4) t(3), of 0 "[]"] by auto
    then show ?thesis
      using s(2) Cons t(4) by (simp add: send send_result_def next_peer_start del: broadcast.simps) blast
  qed
qed


definition sample_midi_session :: RTPMIDISession where
  "sample_midi_session = \<lparr>ms_refs = 1, midi_info = zero_info, rtp_info = sample_raw_info, ms_size = 512,
     ms_buffer = In_block 1 0\<rparr>"

definition sample_buffers :: memory where
  "sample_buffers = [0 \<mapsto> replicate 512 0, 1 \<mapsto> replicate 512 0]"

lemma sample_session_buffers:
  "session_buffers sample_table sample_midi_session sample_buffers 0 (replicate 512 0) 1 (replicate 512 0)"
  by (simp add: session_buffers_def sample_midi_session_def sample_buffers_def sample_table_def sample_session_def)

lemma broadcast_delivers_witness:
  "\<exists>session' h' mem' p1 p2 payload.
    RTPMIDISessionSend (RTP_MAX_PEERS + 1) 0 (\<lambda>s a n bs. (int (length bs), 0)) sample_table sample_midi_session
      (map Some [note_message 1000 (0x90, 60, 100), note_message 1500 (0x80, 60, 0)]) sample_heap sample_buffers =
      Some (Inr (0, session', h', mem', [p1, p2])) \<and>
    dec_payload 1000 payload = Some [(1000, 0x90, 60, 100), (1500, 0x80, 60, 0)]"
proof -
  let ?ms = "[note_message 1000 (0x90, 60, 100), note_message 1500 (0x80, 60, 0)]"
  have s: "socket_takes_all (\<lambda>s a n bs. (int (length bs), 0))" by (simp add: socket_takes_all_def)
  have v: "valid_list enc_command valid_command (True, timestamp (hd ?ms), 0) (map timed ?ms)"
    by (simp add: enc_message_eq)
  have e: "list_all2 P [a, b] xs \<Longrightarrow> \<exists>x y. xs = [x, y]" for P :: "peer_ptr \<Rightarrow> packet \<Rightarrow> bool" and a b xs
    by (auto simp: list_all2_Cons1)
  obtain session' h' mem' out payload where
    r: "RTPMIDISessionSend (RTP_MAX_PEERS + 1) 0 (\<lambda>s a n bs. (int (length bs), 0)) sample_table sample_midi_session
      (map Some ?ms) sample_heap sample_buffers = Some (Inr (0, session', h', mem', out))"
    and l: "list_all2 (packet_for sample_table sample_heap (ucast (timestamp (hd ?ms))) payload) (peer_list sample_table) out"
    and d: "dec_payload (timestamp (hd ?ms)) payload = Some (map timed ?ms)"
    using broadcast_delivers [OF sample_table_ok s sample_session_buffers _ _ v, of 0] by auto
  from e l obtain p1 p2 where "out = [p1, p2]" unfolding sample_table_simps(1) by blast
  with r d show ?thesis by auto
qed

end
