(* ===== verification/Apple_Session.thy ===== *)
theory Apple_Session
  imports Alsa_Client Apple_Command Rtpmidi_Send
begin

text \<open>
  The session protocol of \<open>applemidi/applemidi.c\<close>: clock synchronisation, the answers to the
  commands of other hosts, the callback for received datagrams, the end of sessions and the timer.
  Both callers of \<open>_applemidi_sync\<close> and the caller of \<open>_applemidi_respond\<close> pass the command of the driver
  itself, so here it is taken from the driver. The RTP session and the RTP-MIDI session are created with the
  driver and belong to it, so they are values in it; peers and clocks live in heaps.
\<close>

section \<open>State\<close>

record MIDIDriverAppleMIDI =
  lock :: bool
  base :: MIDIDriver
  control_socket :: "nat option"
  rtp_socket :: "nat option"
  drv_port :: u16
  accept :: u8
  sync :: u8
  token :: u32
  drv_name :: bytes
  command :: AppleMIDICommand
  drv_peer :: "peer_ptr option"
  rtp_session :: RTPSession
  rtpmidi_session :: "RTPMIDISession option"

record apple_state =
  driver :: MIDIDriverAppleMIDI
  peer_store :: peer_heap
  mem :: memory
  clocks :: clock_heap
  global_clock :: "nat option"

text \<open>
  What a handler gets from outside while it runs: the network, the time, the objects \<open>kmalloc\<close> returns, and
  what lies in uninitialised parts of the stack (two message arrays, and the bytes from a local pointer
  on).
\<close>

record apple_env =
  network :: sendmsg
  ktime :: u64
  new_peer :: "peer_ptr option"
  new_clock :: "nat option"
  stack_send :: bytes
  stack_recv :: bytes
  stack_addr :: sockaddr_in
  stack_w :: u32

definition update_driver :: "(MIDIDriverAppleMIDI \<Rightarrow> MIDIDriverAppleMIDI) \<Rightarrow> apple_state \<Rightarrow> apple_state" where
  "update_driver f s = s\<lparr>driver := f (driver s)\<rparr>"

definition set_command :: "u16 \<Rightarrow> bytes \<Rightarrow> apple_state \<Rightarrow> apple_state" where
  "set_command t d = update_driver (\<lambda>v. v\<lparr>command := (command v)\<lparr>cmd_type := t, cmd_data := d\<rparr>\<rparr>)"

definition set_sync :: "u8 \<Rightarrow> apple_state \<Rightarrow> apple_state" where
  "set_sync n = update_driver (\<lambda>v. v\<lparr>sync := n\<rparr>)"

definition set_lock :: "bool \<Rightarrow> apple_state \<Rightarrow> apple_state" where
  "set_lock b = update_driver (\<lambda>v. v\<lparr>lock := b\<rparr>)"

definition own_ssrc :: "apple_state \<Rightarrow> u32" where
  "own_ssrc s = the (snd (RTPSessionGetSSRC (rtp_session (driver s)) False))"

definition get_now :: "apple_env \<Rightarrow> apple_state \<Rightarrow> (s64 \<times> apple_state) res" where
  "get_now E s =
     bind_res (returned (MIDIClockGetNow (new_clock E) (ktime E) (ktime E) (base_clock (base (driver s)))
                (global_clock s) (clocks s))) (\<lambda>(t, g, h).
       Inr (t, s\<lparr>global_clock := g, clocks := h\<rparr>))"

text \<open>Sending the driver's command.\<close>

definition transmit :: "apple_env \<Rightarrow> nat \<Rightarrow> apple_state \<Rightarrow> (int \<times> apple_state \<times> acall list) res" where
  "transmit E sk s =
     bind_res (send_command (network E) (stack_send E) (control_socket (driver s)) (rtp_socket (driver s)) sk
                (command (driver s))) (\<lambda>(r, out).
       Inr (r, s, map (\<lambda>(so, p). Send so p) out))"

section \<open>Synchronisation\<close>

text \<open>The differences of clocks the source computes are not used by it and are left out.\<close>

definition applemidi_sync :: "apple_env \<Rightarrow> nat \<Rightarrow> apple_state \<Rightarrow> (int \<times> apple_state \<times> acall list) res" where
  "applemidi_sync E sk s =
     bind_res (get_now E s) (\<lambda>(t, s).
     let own = own_ssrc s; c = command (driver s); d = cmd_data c in
     if cmd_type c \<noteq> APPLEMIDI_COMMAND_SYNCHRONIZATION \<or> sync_ssrc d = own \<or> sync_count d > 2 then
       transmit E sk (set_sync 1 (set_command APPLEMIDI_COMMAND_SYNCHRONIZATION
         (put64 8 t (put32 4 0 (put32 0 own d))) s))
     else
       bind_res (RTPSessionFindPeerBySSRC (rtp_session (driver s)) (sync_ssrc d) (peer_store s)) (\<lambda>(r, found).
       let s = (case found of None \<Rightarrow> s | Some p \<Rightarrow> update_driver (\<lambda>v. v\<lparr>drv_peer := Some p\<rparr>) s) in
       if sync_count d = 2 then
         Inr (0, set_sync 0 (set_command (cmd_type c) (put32 4 3 (put32 0 own d)) s), [])
       else if sync_count d = 1 then
         transmit E sk (set_sync 0 (set_command (cmd_type c) (put64 24 t (put32 4 2 (put32 0 own d))) s))
       else if sync_count d = 0 then
         transmit E sk (set_sync 2 (set_command (cmd_type c) (put64 16 t (put32 4 1 (put32 0 own d))) s))
       else Inr (1, s, [])))"

text \<open>Copying the first \<open>n\<close> bytes of an address; the eight bytes behind the address are padding.\<close>

definition addr_layout :: "sockaddr_in \<Rightarrow> bytes" where
  "addr_layout a = rev (be16 (sin_family a)) @ be16 (sin_port a) @ be32 (sin_addr a)"

definition layout_addr :: "bytes \<Rightarrow> sockaddr_in" where
  "layout_addr bs = \<lparr>sin_family = be16_of (bs ! 1) (bs ! 0),
     sin_addr = be32_of (bs ! 4) (bs ! 5) (bs ! 6) (bs ! 7), sin_port = be16_of (bs ! 2) (bs ! 3)\<rparr>"

definition copy_addr :: "int \<Rightarrow> sockaddr_in \<Rightarrow> sockaddr_in \<Rightarrow> sockaddr_in res" where
  "copy_addr n src dst =
     (if n < 0 \<or> 16 < n then Inl Out_of_bounds
      else Inr (layout_addr (take (nat n) (addr_layout src) @ drop (nat n) (addr_layout dst))))"

definition start_sync ::
    "apple_env \<Rightarrow> nat \<Rightarrow> int \<Rightarrow> sockaddr_in \<Rightarrow> apple_state \<Rightarrow> (int \<times> apple_state \<times> acall list) res" where
  "start_sync E sk n a s =
     (let c = command (driver s) in
      bind_res (copy_addr n a (cmd_addr c)) (\<lambda>a.
      let s = update_driver (\<lambda>v. v\<lparr>command := c\<lparr>cmd_addr := a, cmd_size := n\<rparr>\<rparr>) s
      in applemidi_sync E sk (set_command APPLEMIDI_COMMAND_SYNCHRONIZATION
           (put32 0 (own_ssrc s) (put32 4 3 (cmd_data c))) s)))"

section \<open>Answers\<close>

definition accept_peer :: "apple_env \<Rightarrow> apple_state \<Rightarrow> apple_state res" where
  "accept_peer E s =
     (let c = command (driver s) in
      bind_res (RTPPeerCreate (new_peer E) (session_ssrc (cmd_data c)) (cmd_size c) (cmd_addr c) (peer_store s)) (\<lambda>(p, h).
      bind_res (RTPSessionAddPeer (rtp_session (driver s)) p h) (\<lambda>(r, rtp, h).
      bind_res (RTPPeerRelease p h) (\<lambda>h.
        Inr (update_driver (\<lambda>v. v\<lparr>rtp_session := rtp\<rparr>) (s\<lparr>peer_store := h\<rparr>))))))"

definition applemidi_respond :: "apple_env \<Rightarrow> nat \<Rightarrow> apple_state \<Rightarrow> (int \<times> apple_state \<times> acall list) res" where
  "applemidi_respond E sk s =
     (let c = command (driver s); t = cmd_type c in
      if t = APPLEMIDI_COMMAND_INVITATION then
        bind_res (deref (control_socket (driver s))) (\<lambda>_.
        bind_res (if accept (driver s) \<noteq> 0 then
                    bind_res (deref (rtp_socket (driver s))) (\<lambda>r.
                    bind_res (if sk = r then accept_peer E s else Inr s) (\<lambda>s.
                      Inr (APPLEMIDI_COMMAND_INVITATION_ACCEPTED, s)))
                  else Inr (APPLEMIDI_COMMAND_INVITATION_REJECTED, s)) (\<lambda>(t, s).
          transmit E sk (set_command t (put32 8 (own_ssrc s) (cmd_data c)) s)))
      else if t = APPLEMIDI_COMMAND_INVITATION_ACCEPTED then Inr (0, s, [])
      else if t = APPLEMIDI_COMMAND_INVITATION_REJECTED then Inr (0, s, [])
      else if t = APPLEMIDI_COMMAND_ENDSESSION then
        bind_res (RTPSessionFindPeerBySSRC (rtp_session (driver s)) (session_ssrc (cmd_data c)) (peer_store s)) (\<lambda>(r, peer).
          case peer of
            None \<Rightarrow> Inr (0, s, [])
          | Some p \<Rightarrow>
              bind_res (RTPSessionRemovePeer (rtp_session (driver s)) p (peer_store s)) (\<lambda>(r, rtp, h).
                Inr (0, update_driver (\<lambda>v. v\<lparr>rtp_session := rtp\<rparr>) (s\<lparr>peer_store := h\<rparr>), [])))
      else if t = APPLEMIDI_COMMAND_SYNCHRONIZATION then applemidi_sync E sk s
      else if t = APPLEMIDI_COMMAND_RECEIVER_FEEDBACK then Inr (0, s, [])
      else Inr (1, s, []))"

section \<open>The socket callback\<close>

definition receive_skb :: "apple_env \<Rightarrow> nat \<Rightarrow> sk_buff \<Rightarrow> apple_state \<Rightarrow> (apple_state \<times> acall list) res" where
  "receive_skb E sk skb s =
     bind_res (net16 (skb_data skb) 4) (\<lambda>l.
     if uint l \<ge> 8 + 4 then
       bind_res (test_applemidi (drop 8 (skb_data skb)) (uint l - 8)) (\<lambda>t.
       if t = 0 then
         (if lock (driver s) then Inr (s, [])
          else
            bind_res (recv_command (stack_recv E) skb (command (driver s))) (\<lambda>(r, c).
            let s = update_driver (\<lambda>v. v\<lparr>command := c\<rparr>) (set_lock True s) in
            bind_res (if r = 0 then map_sum id snd (applemidi_respond E sk s) else Inr (s, [])) (\<lambda>(s, out).
              Inr (set_lock False s, out))))
       else bind_res (deref (rtp_socket (driver s))) (\<lambda>_. Inr (s, [])))
     else Inr (s, []))"

text \<open>The queue of the socket, each datagram with the surroundings of its handling.\<close>

fun socket_callback ::
    "nat \<Rightarrow> (apple_env \<times> sk_buff) list \<Rightarrow> apple_state \<Rightarrow> (apple_state \<times> acall list) res" where
  "socket_callback sk [] s = Inr (s, [])"
| "socket_callback sk ((E, skb) # queue) s =
     bind_res (receive_skb E sk skb s) (\<lambda>(s, out).
     bind_res (socket_callback sk queue s) (\<lambda>(s, out'). Inr (s, out @ out')))"


section \<open>Ending sessions\<close>

text \<open>\<open>strncpy\<close> into an array of \<open>n\<close> bytes: the string, and zeros up to the end of the array.\<close>

definition strncpy :: "bytes \<Rightarrow> nat \<Rightarrow> bytes res" where
  "strncpy src n = bind_res (strlen src) (\<lambda>k. Inr (take n (take k src @ replicate n 0)))"

definition applemidi_endsession ::
    "apple_env \<Rightarrow> nat \<Rightarrow> int \<Rightarrow> sockaddr_in \<Rightarrow> apple_state \<Rightarrow> (int \<times> apple_state \<times> acall list) res" where
  "applemidi_endsession E sk n a s =
     (let c = command (driver s) in
      bind_res (copy_addr n a (cmd_addr c)) (\<lambda>a.
      let s = update_driver (\<lambda>v. v\<lparr>command := c\<lparr>cmd_addr := a, cmd_size := n\<rparr>\<rparr>) s;
          d = put32 8 (own_ssrc s) (put32 4 (token (driver s)) (put32 0 2 (cmd_data c)))
      in bind_res (strncpy (drv_name (driver s)) NAME_SIZE) (\<lambda>name.
           transmit E sk (set_command APPLEMIDI_COMMAND_ENDSESSION (overlay d 12 name) s))))"

text \<open>
  The address that is handed on is that of the local pointer \<open>rtp_addr\<close>, not the one it points to; so the bytes
  that are copied are those of the stack from this pointer on.
\<close>

definition applemidi_disconnect_peer ::
    "apple_env \<Rightarrow> peer_ptr \<Rightarrow> apple_state \<Rightarrow> (int \<times> apple_state \<times> acall list) res" where
  "applemidi_disconnect_peer E peer s =
     bind_res (RTPPeerGetAddress peer False False (peer_store s)) (\<lambda>(r, res).
       case res of
         None \<Rightarrow> Inr (1, s, [])
       | Some (n, a) \<Rightarrow>
           bind_res (deref (control_socket (driver s))) (\<lambda>sk.
           bind_res (applemidi_endsession E sk n (stack_addr E) s) (\<lambda>(result, s, out).
           bind_res (RTPSessionRemovePeer (rtp_session (driver s)) peer (peer_store s)) (\<lambda>(r, rtp, h).
             Inr (result, update_driver (\<lambda>v. v\<lparr>rtp_session := rtp\<rparr>) (s\<lparr>peer_store := h\<rparr>), out)))))"

text \<open>The loop removes the first peer until there is none, with fuel.\<close>

fun disconnect_peers :: "nat \<Rightarrow> apple_env \<Rightarrow> apple_state \<Rightarrow> (apple_state \<times> acall list) res" where
  "disconnect_peers n E s =
     (case snd (next_peer (rtp_session (driver s)) None) of
        None \<Rightarrow> Inr (s, [])
      | Some p \<Rightarrow>
          (case n of
             0 \<Rightarrow> Inl Endless_loop
           | Suc n \<Rightarrow>
               bind_res (applemidi_disconnect_peer E p s) (\<lambda>(r, s, out).
               bind_res (disconnect_peers n E s) (\<lambda>(s, out'). Inr (s, out @ out')))))"

definition release_socket :: "nat option \<Rightarrow> acall list" where
  "release_socket so = (case so of None \<Rightarrow> [] | Some s \<Rightarrow> [Sock_release s])"

text \<open>\<open>so\<close> is the socket to release, \<open>None\<close> for both. A socket that is \<open>NULL\<close> is left alone.\<close>

definition applemidi_disconnect ::
    "nat \<Rightarrow> apple_env \<Rightarrow> nat option \<Rightarrow> apple_state \<Rightarrow> (int \<times> apple_state \<times> acall list) res" where
  "applemidi_disconnect fuel E so s =
     bind_res (disconnect_peers fuel E s) (\<lambda>(s, out).
     let (s, cs) = (if so = control_socket (driver s) \<or> so = None
           then (update_driver (\<lambda>v. v\<lparr>control_socket := None\<rparr>) s, release_socket (control_socket (driver s))) else (s, []));
         (s, cs') = (if so = rtp_socket (driver s) \<or> so = None
           then (update_driver (\<lambda>v. v\<lparr>rtp_socket := None\<rparr>) s, release_socket (rtp_socket (driver s))) else (s, []))
     in Inr (0, s, out @ cs @ cs'))"

section \<open>The timer\<close>

definition applemidi_idle_timeout :: "apple_env \<Rightarrow> apple_state \<Rightarrow> (apple_state \<times> acall list) res" where
  "applemidi_idle_timeout E s =
     (let armed = [Timer_mod 1500] in
      if lock (driver s) then Inr (s, armed)
      else
        let s = set_lock True s;
            s = update_driver (\<lambda>v. v\<lparr>drv_peer := snd (next_peer (rtp_session v) (drv_peer v))\<rparr>) s
        in bind_res
             (case drv_peer (driver s) of
                None \<Rightarrow> Inr (s, [])
              | Some p \<Rightarrow>
                  (if sync (driver s) = 0 then
                     bind_res (RTPPeerGetAddress p False False (peer_store s)) (\<lambda>(r, res).
                     bind_res (deref res) (\<lambda>(n, a).
                     bind_res (deref (rtp_socket (driver s))) (\<lambda>sk.
                       map_sum id snd (start_sync E sk n a s))))
                   else Inr (s, [])))
             (\<lambda>(s, out). Inr (set_lock False s, armed @ out)))"

section \<open>Field algebra\<close>

lemma driver_update_driver [simp]: "driver (update_driver f s) = f (driver s)"
  by (simp add: update_driver_def)

lemma update_driver_frame [simp]:
  "peer_store (update_driver f s) = peer_store s" "mem (update_driver f s) = mem s"
  "clocks (update_driver f s) = clocks s" "global_clock (update_driver f s) = global_clock s"
  by (simp_all add: update_driver_def)

lemmas driver_ops = set_command_def set_sync_def set_lock_def

lemma own_ssrc_eq [simp]: "own_ssrc s = ssrc (self (rtp_session (driver s)))"
  by (simp add: own_ssrc_def RTPSessionGetSSRC_def)

lemma layout_addr_layout: "layout_addr (addr_layout a) = a"
  by (simp add: layout_addr_def addr_layout_def be16_def be32_def be16_inverse be32_inverse)

lemma copy_addr_all [simp]: "copy_addr 16 src dst = Inr src"
  by (simp add: copy_addr_def addr_layout_def) (simp add: layout_addr_layout [unfolded addr_layout_def])


section \<open>What holds between the handlers\<close>

definition clock_ok :: "apple_state \<Rightarrow> bool" where
  "clock_ok s \<longleftrightarrow> (\<exists>c k. base_clock (base (driver s)) = Some c \<and> clocks s c = Some k \<and> denom k \<noteq> 0)"

definition name_ok :: "apple_state \<Rightarrow> bool" where
  "name_ok s \<longleftrightarrow> length (drv_name (driver s)) = 32 \<and> 0 \<in> set (drv_name (driver s))"

text \<open>The peers in the heap are those of the table, each with the one reference of the table.\<close>

definition peers_ok :: "apple_state \<Rightarrow> bool" where
  "peers_ok s \<longleftrightarrow> table_ok (rtp_session (driver s)) (peer_store s) \<and>
     dom (peer_store s) = members (rtp_session (driver s)) \<and>
     (\<forall>q r. peer_store s q = Some r \<longrightarrow> peer_refs r = 1 \<and> addr_size (address r) = 16)"

definition session_ok :: "apple_state \<Rightarrow> bool" where
  "session_ok s \<longleftrightarrow> peers_ok s \<and> clock_ok s \<and> name_ok s \<and> length (cmd_data (command (driver s))) = DATA_SIZE \<and>
     sync (driver s) \<le> 2"

lemma session_okD:
  assumes "session_ok s"
  shows "peers_ok s" and "clock_ok s" and "name_ok s" and "length (cmd_data (command (driver s))) = DATA_SIZE"
    and "sync (driver s) \<le> 2" and "table_ok (rtp_session (driver s)) (peer_store s)"
  using assms by (simp_all add: session_ok_def peers_ok_def)

text \<open>Fields of the driver the three parts do not depend on.\<close>

lemma parts_frame:
  assumes "base (driver s') = base (driver s)" and "clocks s' = clocks s"
    and "drv_name (driver s') = drv_name (driver s)"
  shows "clock_ok s' = clock_ok s" and "name_ok s' = name_ok s"
  using assms by (simp_all add: clock_ok_def name_ok_def)

lemma peers_frame:
  assumes "rtp_session (driver s') = rtp_session (driver s)" and "peer_store s' = peer_store s"
  shows "peers_ok s' = peers_ok s"
  using assms by (simp add: peers_ok_def)

lemma get_now_ok:
  assumes "clock_ok s"
  obtains t where "get_now E s = Inr (t, s)"
proof -
  obtain c k where "base_clock (base (driver s)) = Some c" "clocks s c = Some k" "denom k \<noteq> 0"
    using assms by (auto simp: clock_ok_def)
  then have "get_now E s = Inr (ktime E * numer k div denom k + offset k, s)"
    by (simp add: get_now_def MIDIClockGetNow_def get_clock_def get_real_time_def)
  then show thesis by (rule that)
qed

lemma transmit_state: "transmit E sk s = Inr (r, s', out) \<Longrightarrow> s' = s"
  by (auto simp: transmit_def elim!: bind_res_eq_InrE)

lemma transmit_held: "transmit E sk s = Inr (r, s', out) \<Longrightarrow> held x out = 0"
  by (auto simp: transmit_def elim!: bind_res_eq_InrE)

text \<open>The command of the driver goes out as the message of the protocol that says what it says.\<close>

lemma transmit_wire:
  assumes "command_view (command (driver s)) = Some v" and "sendable_view v"
    and "length (cmd_data (command (driver s))) = DATA_SIZE" and "length (stack_send E) = 64"
    and "sin_family (cmd_addr (command (driver s))) = AF_INET"
    and "control_socket (driver s) = Some c" and "rtp_socket (driver s) = Some q" and "sk = c \<or> sk = q"
  shows "\<exists>r. transmit E sk s = Inr (r, s, [Send sk (cmd_addr (command (driver s)), wire v)])"
  using build_command_wire [OF assms(1-4)] assms(5-8)
  by (auto simp: transmit_def send_command_def Let_def)

text \<open>A datagram of the protocol that comes in is decoded, and answered under the lock.\<close>

lemma test_wire: "sendable_view v \<Longrightarrow> test_applemidi (wire v) (int (length (wire v))) = Inr 0"
  using length_wire [of v]
  by (cases v) (auto simp: test_applemidi_def command_word_def session_command_def)

definition from_addr :: "u32 \<Rightarrow> u16 \<Rightarrow> AppleMIDICommand \<Rightarrow> AppleMIDICommand" where
  "from_addr src port c = c\<lparr>cmd_size := 16, cmd_addr := \<lparr>sin_family = AF_INET, sin_addr = src, sin_port = port\<rparr>\<rparr>"

lemma receive_decoded:
  assumes "sendable_view v" and "length (stack_recv E) = 64" and "\<not> lock (driver s)"
    and "decode_command (wire v @ drop (length (wire v)) (stack_recv E)) (length (wire v))
      (from_addr src sport (command (driver s))) = (0, c)"
  shows "receive_skb E sk (udp_skb sport dport checksum src (wire v)) s =
      bind_res (map_sum id snd (applemidi_respond E sk (update_driver (\<lambda>v. v\<lparr>command := c\<rparr>) (set_lock True s))))
        (\<lambda>(s, out). Inr (set_lock False s, out))"
proof -
  have w: "4 \<le> length (wire v)" "length (wire v) \<le> 64" "length (wire v) \<le> 1000"
    using length_wire [OF assms(1)] by simp_all
  have l: "uint (of_nat (8 + length (wire v)) :: u16) = int (8 + length (wire v))"
    using w(3) by (simp add: uint_nat unat_of_nat del: of_nat_add)
  let ?skb = "udp_skb sport dport checksum src (wire v)"
  have n: "net16 (skb_data ?skb) 4 = Inr (of_nat (8 + length (wire v)))" "drop 8 (skb_data ?skb) = wire v"
    by (simp_all add: udp_skb_def)
  have "recv_command (stack_recv E) ?skb (command (driver s)) = Inr (0, c)"
    using recv_udp [OF w(3) assms(2)] w(2) assms(4) by (simp add: from_addr_def)
  then show ?thesis
    using w(1) l n test_wire [OF assms(1)] assms(3) by (simp add: receive_skb_def)
qed

lemma receive_wire:
  assumes "sendable_view v" and "named v" and "length (cmd_data (command (driver s))) = DATA_SIZE"
    and "length (stack_recv E) = 64" and "\<not> lock (driver s)"
  obtains c where "command_view c = Some v" and "length (cmd_data c) = DATA_SIZE" and "cmd_size c = 16"
    and "cmd_addr c = \<lparr>sin_family = AF_INET, sin_addr = src, sin_port = sport\<rparr>"
    and "receive_skb E sk (udp_skb sport dport checksum src (wire v)) s =
      bind_res (map_sum id snd (applemidi_respond E sk (update_driver (\<lambda>v. v\<lparr>command := c\<rparr>) (set_lock True s))))
        (\<lambda>(s, out). Inr (set_lock False s, out))"
proof -
  let ?c0 = "from_addr src sport (command (driver s))"
  let ?res = "decode_command (wire v @ drop (length (wire v)) (stack_recv E)) (length (wire v)) ?c0"
  have d: "decodes_to v ?c0 ?res" using assms(1-3) by (intro decode_wire) (simp_all add: from_addr_def)
  obtain c where c: "?res = (0, c)" using d by (cases ?res) (simp add: decodes_to_def)
  from d have "command_view c = Some v" "length (cmd_data c) = DATA_SIZE" "cmd_size c = 16"
    "cmd_addr c = \<lparr>sin_family = AF_INET, sin_addr = src, sin_port = sport\<rparr>"
    unfolding c by (simp_all add: decodes_to_def from_addr_def)
  with receive_decoded [OF assms(1,4,5) c] show thesis by (intro that)
qed

text \<open>A message without a name leaves the name of the command before; the rest is read.\<close>

lemma receive_session:
  assumes "sendable_view (Session t version tok ss name)" and "length (cmd_data (command (driver s))) = DATA_SIZE"
    and "length (stack_recv E) = 64" and "\<not> lock (driver s)"
  obtains c where "cmd_type c = t" and "session_ssrc (cmd_data c) = ss" and "length (cmd_data c) = DATA_SIZE" and "cmd_size c = 16"
    and "receive_skb E sk (udp_skb sport dport checksum src (wire (Session t version tok ss name))) s =
      bind_res (map_sum id snd (applemidi_respond E sk (update_driver (\<lambda>v. v\<lparr>command := c\<rparr>) (set_lock True s))))
        (\<lambda>(s, out). Inr (set_lock False s, out))"
proof (cases "name = []")
  case True
  let ?v = "Session t version tok ss name"
  let ?res = "decode_command (wire ?v @ drop (length (wire ?v)) (stack_recv E)) (length (wire ?v))
    (from_addr src sport (command (driver s)))"
  have d: "fst ?res = 0" "cmd_type (snd ?res) = t" "session_ssrc (cmd_data (snd ?res)) = ss"
    "length (cmd_data (snd ?res)) = DATA_SIZE" "cmd_size (snd ?res) = 16"
    using assms(1,2) True by (simp_all add: decode_command_def Let_def from_addr_def field_defs DATA_SIZE_def)
  then have "?res = (0, snd ?res)" by (simp add: prod_eq_iff)
  from receive_decoded [OF assms(1,3,4) this] show thesis by (rule that [OF d(2-5)])
next
  case False
  have n: "named (Session t version tok ss name)" using False by simp
  from receive_wire [OF assms(1) n assms(2-4), of src sport sk dport checksum] show thesis
  proof cases
    case (1 c)
    then show thesis
      by (intro that [of c]) (auto simp: command_view_def Let_def split: if_splits)
  qed
qed

section \<open>The table of peers\<close>

lemma peers_okI:
  assumes "table_ok (rtp_session (driver s)) (peer_store s)"
    and "\<And>q. q \<in> members (rtp_session (driver s)) \<longleftrightarrow> q \<in> dom (peer_store s)"
    and "\<And>q r. peer_store s q = Some r \<Longrightarrow> peer_refs r = 1 \<and> addr_size (address r) = 16"
  shows "peers_ok s"
  using assms by (auto simp: peers_ok_def)

lemma peers_ok_peer:
  assumes "peers_ok s" and "q \<in> members (rtp_session (driver s))"
  obtains r where "peer_store s q = Some r" and "peer_refs r = 1" and "addr_size (address r) = 16"
proof -
  have "table_ok (rtp_session (driver s)) (peer_store s)" using assms(1) by (simp add: peers_ok_def)
  then obtain r where "peer_store s q = Some r" using assms(2) by (rule table_okD)
  with assms(1) that show thesis by (auto simp: peers_ok_def)
qed

lemma slot_update_table:
  assumes "table_ok session h" and "slot < RTP_MAX_PEERS" and "peers session ! slot = None"
    and "q \<notin> members session" and "h' q = Some r" and "peer_refs r = 1" and "\<And>p. p \<noteq> q \<Longrightarrow> h' p = h p"
  shows "table_ok (session\<lparr>peers := (peers session)[slot := Some q]\<rparr>) h'"
    and "members (session\<lparr>peers := (peers session)[slot := Some q]\<rparr>) = insert q (members session)"
  using assms occupied_update(1,2) [of slot "peers session" q]
  by (auto simp: table_defs) (metis (no_types, lifting))

lemma slot_clear_table:
  assumes "table_ok session h" and "slot < RTP_MAX_PEERS" and "peers session ! slot = Some q"
    and "\<And>p. p \<noteq> q \<Longrightarrow> h' p = h p"
  shows "table_ok (session\<lparr>peers := (peers session)[slot := None]\<rparr>) h'"
    and "members (session\<lparr>peers := (peers session)[slot := None]\<rparr>) = members session - {q}"
  using assms occupied_update(3) [of slot "peers session" q]
  by (auto simp: table_defs)

text \<open>A host that is accepted is a new peer of the table, unless the table is full.\<close>

lemma accept_peer_cases:
  assumes "peers_ok s" and "new_peer E = Some p" and "peer_store s p = None"
    and "cmd_size (command (driver s)) = 16"
  obtains (added) s' slot r where "accept_peer E s = Inr s'" and "peers_ok s'"
      and "s' = update_driver (\<lambda>v. v\<lparr>rtp_session := (rtp_session v)\<lparr>peers := (peers (rtp_session v))[slot := Some p]\<rparr>\<rparr>)
             (s\<lparr>peer_store := (peer_store s)(p \<mapsto> r)\<rparr>)"
      and "address r = \<lparr>ssrc = session_ssrc (cmd_data (command (driver s))), addr_size = 16,
             addr = cmd_addr (command (driver s))\<rparr>"
      and "members (rtp_session (driver s')) = insert p (members (rtp_session (driver s)))"
    | (full) "accept_peer E s = Inr s" and "card (members (rtp_session (driver s))) = RTP_MAX_PEERS"
proof -
  let ?rtp = "rtp_session (driver s)" and ?h = "peer_store s" and ?c = "command (driver s)"
  let ?a = "\<lparr>ssrc = session_ssrc (cmd_data ?c), addr_size = 16, addr = cmd_addr ?c\<rparr>"
  let ?r = "\<lparr>peer_refs = 1, address = ?a, in_timestamp = 0, out_timestamp = 0, in_seqnum = 0, out_seqnum = 0,
      peer_info = Null\<rparr>"
  have ok: "table_ok ?rtp ?h" and p: "p \<notin> members ?rtp" using assms(1,3) by (auto simp: peers_ok_def)
  have ok1: "table_ok ?rtp (?h(p \<mapsto> ?r))" using ok p by (auto simp: table_ok_def)
  have create: "RTPPeerCreate (new_peer E) (session_ssrc (cmd_data ?c)) (cmd_size ?c) (cmd_addr ?c) ?h =
      Inr (p, ?h(p \<mapsto> ?r))"
    using assms(2,4) by (simp add: RTPPeerCreate_def)
  show thesis
  proof (rule add_peer_cases [OF ok1, of p ?r], goal_cases)
    case (2 slot)
    let ?rtp' = "?rtp\<lparr>peers := (peers ?rtp)[slot := Some p]\<rparr>"
    let ?s' = "update_driver (\<lambda>v. v\<lparr>rtp_session := (rtp_session v)\<lparr>peers := (peers (rtp_session v))[slot := Some p]\<rparr>\<rparr>)
             (s\<lparr>peer_store := ?h(p \<mapsto> ?r)\<rparr>)"
    have t: "table_ok ?rtp' (?h(p \<mapsto> ?r))" "members ?rtp' = insert p (members ?rtp)"
      using slot_update_table [OF ok 2(1,2) p, of "?h(p \<mapsto> ?r)" ?r] by simp_all
    have "accept_peer E s = Inr ?s'"
      using 2(3) create by (simp add: accept_peer_def RTPPeerRelease_def get_peer_def Let_def update_driver_def)
    moreover have "peers_ok ?s'"
      using t assms(1) by (intro peers_okI) (auto simp: peers_ok_def split: if_splits)
    moreover have "members (rtp_session (driver ?s')) = insert p (members ?rtp)" using t(2) by simp
    ultimately show thesis by (intro added [where s' = ?s' and slot = slot and r = ?r]) simp_all
  next
    case 3
    have "accept_peer E s = Inr s"
      using 3(2) create assms(3)
      by (simp add: accept_peer_def RTPPeerRelease_def RTPPeerDestroy_def get_peer_def Let_def update_driver_def fun_upd_idem)
    moreover have "card (members ?rtp) = RTP_MAX_PEERS"
      using 3(1) full_table_card [OF ok] by simp
    ultimately show thesis by (rule full)
  qed simp
qed


section \<open>The handlers keep the state well-formed\<close>

text \<open>What no handler of the protocol changes, and calls that neither take nor give back a resource.\<close>

definition session_frame :: "apple_state \<Rightarrow> apple_state \<Rightarrow> bool" where
  "session_frame s s' \<longleftrightarrow> clocks s' = clocks s \<and> global_clock s' = global_clock s \<and> mem s' = mem s \<and>
     base (driver s') = base (driver s) \<and> control_socket (driver s') = control_socket (driver s) \<and>
     rtp_socket (driver s') = rtp_socket (driver s) \<and> accept (driver s') = accept (driver s) \<and>
     drv_name (driver s') = drv_name (driver s) \<and> lock (driver s') = lock (driver s) \<and>
     token (driver s') = token (driver s) \<and> rtpmidi_session (driver s') = rtpmidi_session (driver s) \<and>
     (\<exists>ps. rtp_session (driver s') = (rtp_session (driver s))\<lparr>peers := ps\<rparr>)"

lemma session_frame_refl: "rtp_session (driver s') = rtp_session (driver s) \<Longrightarrow>
    session_frame s s' \<longleftrightarrow> clocks s' = clocks s \<and> global_clock s' = global_clock s \<and> mem s' = mem s \<and>
     base (driver s') = base (driver s) \<and> control_socket (driver s') = control_socket (driver s) \<and>
     rtp_socket (driver s') = rtp_socket (driver s) \<and> accept (driver s') = accept (driver s) \<and>
     drv_name (driver s') = drv_name (driver s) \<and> lock (driver s') = lock (driver s) \<and>
     token (driver s') = token (driver s) \<and> rtpmidi_session (driver s') = rtpmidi_session (driver s)"
  by (auto simp: session_frame_def intro: exI [of _ "peers (rtp_session (driver s))"])

lemma session_frame_self [simp]: "session_frame s s"
  by (simp add: session_frame_refl)

lemma session_frame_trans: "session_frame s s' \<Longrightarrow> session_frame s' s'' \<Longrightarrow> session_frame s s''"
  by (auto simp: session_frame_def)

definition quiet :: "acall list \<Rightarrow> bool" where
  "quiet cs \<longleftrightarrow> (\<forall>x. held x cs = 0)"

lemma quiet_simps [simp]: "quiet []" "quiet xs \<Longrightarrow> quiet ys \<Longrightarrow> quiet (xs @ ys)"
  by (simp_all add: quiet_def)

definition keeps :: "apple_state \<Rightarrow> apple_state \<Rightarrow> acall list \<Rightarrow> bool" where
  "keeps s s' out \<longleftrightarrow> session_ok s' \<and> session_frame s s' \<and> quiet out"

lemma keeps_trans: "keeps s s' out \<Longrightarrow> keeps s' s'' out' \<Longrightarrow> keeps s s'' (out @ out')"
  by (auto simp: keeps_def intro: session_frame_trans)

lemma session_okI:
  assumes "session_ok s" and "rtp_session (driver s') = rtp_session (driver s)" and "peer_store s' = peer_store s"
    and "base (driver s') = base (driver s)" and "clocks s' = clocks s" and "drv_name (driver s') = drv_name (driver s)"
    and "length (cmd_data (command (driver s'))) = DATA_SIZE" and "sync (driver s') \<le> 2"
  shows "session_ok s'"
  using assms parts_frame [OF assms(4-6)] peers_frame [OF assms(2,3)] by (simp add: session_ok_def)

lemma put_data_length [simp]:
  "length d = DATA_SIZE \<Longrightarrow> off \<le> 72 \<Longrightarrow> length (put32 off v d) = DATA_SIZE"
  "length d = DATA_SIZE \<Longrightarrow> off \<le> 72 \<Longrightarrow> length (put64 off w d) = DATA_SIZE"
  by (simp_all add: DATA_SIZE_def)

lemma keeps_self: "session_ok s \<Longrightarrow> keeps s s []"
  by (simp add: keeps_def)

lemma keeps_transmit:
  "transmit E sk u = Inr (r, s', out) \<Longrightarrow> keeps s u [] \<Longrightarrow> keeps s s' out"
  using transmit_state [of E sk u r s' out] transmit_held [of E sk u r s' out] by (auto simp: keeps_def quiet_def)

text \<open>Changes of the command, the state of the synchronisation and the current peer.\<close>

lemma keeps_set:
  assumes "session_ok s" and "length d = DATA_SIZE" and "n \<le> 2"
  shows "keeps s (set_sync n (set_command t d s)) []"
    and "keeps s (set_sync n (set_command t d (update_driver (\<lambda>v. v\<lparr>drv_peer := p\<rparr>) s))) []"
    and "keeps s (set_command t d s) []"
  using assms session_okD(4,5) [OF assms(1)]
  by (auto simp: keeps_def driver_ops session_frame_refl intro!: session_okI [OF assms(1)])

lemma keeps_peer:
  assumes "session_ok s"
  shows "keeps s (update_driver (\<lambda>v. v\<lparr>drv_peer := p\<rparr>) s) []"
  using session_okD(4,5) [OF assms]
  by (auto simp: keeps_def session_frame_refl intro!: session_okI [OF assms])

lemma transmit_set:
  "transmit E sk (set_sync n (set_command t d s)) = Inr (r, s', out) \<Longrightarrow> session_ok s \<Longrightarrow>
     length d = DATA_SIZE \<Longrightarrow> n \<le> 2 \<Longrightarrow> keeps s s' out"
  "transmit E sk (set_sync n (set_command t d (update_driver (\<lambda>v. v\<lparr>drv_peer := p\<rparr>) s))) = Inr (r, s', out) \<Longrightarrow>
     session_ok s \<Longrightarrow> length d = DATA_SIZE \<Longrightarrow> n \<le> 2 \<Longrightarrow> keeps s s' out"
  "transmit E sk (set_command t d s) = Inr (r, s', out) \<Longrightarrow> session_ok s \<Longrightarrow> length d = DATA_SIZE \<Longrightarrow> keeps s s' out"
proof -
  show "transmit E sk (set_sync n (set_command t d s)) = Inr (r, s', out) \<Longrightarrow> session_ok s \<Longrightarrow>
     length d = DATA_SIZE \<Longrightarrow> n \<le> 2 \<Longrightarrow> keeps s s' out"
    by (erule keeps_transmit) (rule keeps_set(1))
  show "transmit E sk (set_sync n (set_command t d (update_driver (\<lambda>v. v\<lparr>drv_peer := p\<rparr>) s))) = Inr (r, s', out) \<Longrightarrow>
     session_ok s \<Longrightarrow> length d = DATA_SIZE \<Longrightarrow> n \<le> 2 \<Longrightarrow> keeps s s' out"
    by (erule keeps_transmit) (rule keeps_set(2))
  show "transmit E sk (set_command t d s) = Inr (r, s', out) \<Longrightarrow> session_ok s \<Longrightarrow> length d = DATA_SIZE \<Longrightarrow> keeps s s' out"
    by (erule keeps_transmit) (rule keeps_set(3) [where n = 0], simp_all)
qed

lemma sync_keeps:
  assumes "session_ok s" and "applemidi_sync E sk s = Inr (r, s', out)"
  shows "keeps s s' out"
proof -
  note ok = session_okD [OF assms(1)]
  obtain t where t: "get_now E s = Inr (t, s)" using ok(2) by (rule get_now_ok)
  show ?thesis
    using assms t ok(4)
    by (auto simp: applemidi_sync_def Let_def keeps_set keeps_peer keeps_self split: if_splits option.splits
        elim!: bind_res_eq_InrE transmit_set)
qed


definition fresh_peer :: "apple_env \<Rightarrow> apple_state \<Rightarrow> bool" where
  "fresh_peer E s \<longleftrightarrow> (\<forall>p. new_peer E = Some p \<longrightarrow> peer_store s p = None)"

lemma session_ok_peers:
  assumes "session_ok s" and "peers_ok s'" and "base (driver s') = base (driver s)" and "clocks s' = clocks s"
    and "drv_name (driver s') = drv_name (driver s)" and "command (driver s') = command (driver s)"
    and "sync (driver s') = sync (driver s)"
  shows "session_ok s'"
  using assms parts_frame [OF assms(3-5)] by (simp add: session_ok_def)

lemma accept_keeps:
  assumes "session_ok s" and "fresh_peer E s" and "cmd_size (command (driver s)) = 16" and "accept_peer E s = Inr s'"
  shows "keeps s s' [] \<and> command (driver s') = command (driver s)"
proof (cases "new_peer E")
  case None
  with assms(4) show ?thesis by (simp add: accept_peer_def RTPPeerCreate_def)
next
  case (Some p)
  then have "peer_store s p = None" using assms(2) by (simp add: fresh_peer_def)
  from accept_peer_cases [OF session_okD(1) [OF assms(1)] Some this assms(3)] show ?thesis
  proof cases
    case (1 u slot r)
    then have "u = s'" using assms(4) by simp
    have "session_ok u"
      using 1(2) by (rule session_ok_peers [OF assms(1)]) (simp_all add: 1(3))
    moreover have "session_frame s u"
      by (auto simp: 1(3) session_frame_def)
    moreover have "command (driver u) = command (driver s)" by (simp add: 1(3))
    ultimately show ?thesis using \<open>u = s'\<close> by (simp add: keeps_def)
  next
    case 2
    then show ?thesis using assms(1,4) by (simp add: keeps_self)
  qed
qed

text \<open>Removing a peer of the table frees it.\<close>

definition removed_peer :: "RTPSession \<Rightarrow> peer_ptr \<Rightarrow> apple_state \<Rightarrow> apple_state" where
  "removed_peer rtp p s = update_driver (\<lambda>v. v\<lparr>rtp_session := rtp\<rparr>) (s\<lparr>peer_store := (peer_store s)(p := None)\<rparr>)"

lemma remove_member:
  assumes "peers_ok s" and "q \<in> members (rtp_session (driver s))"
  obtains rtp where "RTPSessionRemovePeer (rtp_session (driver s)) q (peer_store s) =
      Inr (0, rtp, (peer_store s)(q := None))"
    and "\<exists>ps. rtp = (rtp_session (driver s))\<lparr>peers := ps\<rparr>" and "peers_ok (removed_peer rtp q s)"
    and "members rtp = members (rtp_session (driver s)) - {q}"
proof -
  let ?rtp = "rtp_session (driver s)" and ?h = "peer_store s"
  obtain r where r: "?h q = Some r" "peer_refs r = 1" using assms by (rule peers_ok_peer)
  have ok: "table_ok ?rtp ?h" using assms(1) by (simp add: peers_ok_def)
  show thesis
  proof (rule remove_peer_cases [OF ok r(1)])
    fix slot assume a: "slot < RTP_MAX_PEERS" "peers ?rtp ! slot = Some q"
      "RTPSessionRemovePeer ?rtp q ?h = Inr (0, ?rtp\<lparr>peers := (peers ?rtp)[slot := None]\<rparr>,
         if peer_refs r = 1 then ?h(q := None) else ?h(q \<mapsto> r\<lparr>peer_refs := peer_refs r - 1\<rparr>))"
    let ?rtp' = "?rtp\<lparr>peers := (peers ?rtp)[slot := None]\<rparr>"
    have t: "table_ok ?rtp' (?h(q := None))" "members ?rtp' = members ?rtp - {q}"
      using slot_clear_table [OF ok a(1,2), of "?h(q := None)"] by simp_all
    have "peers_ok (removed_peer ?rtp' q s)"
      using t assms(1) by (intro peers_okI) (auto simp: peers_ok_def removed_peer_def split: if_splits)
    then show thesis using a(3) r(2) t(2) by (intro that) auto
  qed (use assms(2) in simp)
qed

lemma removed_keeps:
  assumes "session_ok s" and "peers_ok (removed_peer rtp q s)" and "\<exists>ps. rtp = (rtp_session (driver s))\<lparr>peers := ps\<rparr>"
  shows "keeps s (removed_peer rtp q s) []"
proof -
  have "session_ok (removed_peer rtp q s)"
    using assms(2) by (rule session_ok_peers [OF assms(1)]) (simp_all add: removed_peer_def)
  then show ?thesis using assms(3) by (auto simp: keeps_def session_frame_def removed_peer_def)
qed

lemma respond_keeps:
  assumes "session_ok s" and "fresh_peer E s" and "cmd_size (command (driver s)) = 16"
    and "applemidi_respond E sk s = Inr (r, s', out)"
  shows "keeps s s' out"
proof -
  note ok = session_okD [OF assms(1)]
  have answer: "keeps s s' out"
    if "keeps s u []" "command (driver u) = command (driver s)"
      "transmit E sk (set_command t (put32 8 v (cmd_data (command (driver s)))) u) = Inr (r, s', out)" for u t v
    using keeps_trans [OF that(1) transmit_set(3) [OF that(3)]] that(1,2) ok(4) by (simp add: keeps_def)
  have "keeps s s' out" if "cmd_type (command (driver s)) = APPLEMIDI_COMMAND_INVITATION"
    using assms(4) that keeps_self [OF assms(1)]
    by (auto simp: applemidi_respond_def Let_def split: if_splits elim!: bind_res_eq_InrE
        dest!: accept_keeps [OF assms(1-3)] intro: answer)
  moreover have "keeps s s' out" if "cmd_type (command (driver s)) = APPLEMIDI_COMMAND_ENDSESSION"
  proof -
    have e: "bind_res (RTPSessionFindPeerBySSRC (rtp_session (driver s))
          (session_ssrc (cmd_data (command (driver s)))) (peer_store s)) (\<lambda>(r, peer).
          case peer of
            None \<Rightarrow> Inr (0, s, [])
          | Some p \<Rightarrow>
              bind_res (RTPSessionRemovePeer (rtp_session (driver s)) p (peer_store s)) (\<lambda>(r, rtp, h).
                Inr (0, update_driver (\<lambda>v. v\<lparr>rtp_session := rtp\<rparr>) (s\<lparr>peer_store := h\<rparr>), []))) = Inr (r, s', out)"
      using assms(4) that by (simp add: applemidi_respond_def Let_def commands_differ)
    show ?thesis
    proof (rule find_peer_cases [OF ok(6), of "session_ssrc (cmd_data (command (driver s)))"])
      fix q assume q: "q \<in> members (rtp_session (driver s))"
        "RTPSessionFindPeerBySSRC (rtp_session (driver s)) (session_ssrc (cmd_data (command (driver s)))) (peer_store s) = Inr (0, Some q)"
      obtain rtp where rtp: "RTPSessionRemovePeer (rtp_session (driver s)) q (peer_store s) = Inr (0, rtp, (peer_store s)(q := None))"
        "\<exists>ps. rtp = (rtp_session (driver s))\<lparr>peers := ps\<rparr>" "peers_ok (removed_peer rtp q s)"
        using ok(1) q(1) by (rule remove_member)
      then have "s' = removed_peer rtp q s \<and> out = []" using e q(2) by (simp add: removed_peer_def)
      then show ?thesis using removed_keeps [OF assms(1) rtp(3,2)] by simp
    qed (use e keeps_self [OF assms(1)] in auto)
  qed
  moreover have "keeps s s' out" if "cmd_type (command (driver s)) \<noteq> APPLEMIDI_COMMAND_INVITATION"
    "cmd_type (command (driver s)) \<noteq> APPLEMIDI_COMMAND_ENDSESSION"
    using assms(4) that keeps_self [OF assms(1)]
    by (auto simp: applemidi_respond_def Let_def split: if_splits dest: sync_keeps [OF assms(1)])
  ultimately show ?thesis by blast
qed


lemma decode_keeps:
  assumes "length (cmd_data c) = DATA_SIZE" and "decode_command msg n c = (r, c')"
  shows "length (cmd_data c') = DATA_SIZE" and "cmd_size c' = cmd_size c"
proof -
  have l: "length (overlay (overlay d 12 (take k (drop 16 msg))) (12 + k) [0]) = DATA_SIZE"
    if "length d = DATA_SIZE" "k \<le> 63" for d k
  proof -
    have "12 + length (take k (drop 16 msg)) \<le> length d" using that by (simp add: DATA_SIZE_def)
    then show ?thesis using that by (simp add: DATA_SIZE_def)
  qed
  have l63: "length (overlay (overlay d 12 (take 63 (drop 16 msg))) 75 [0]) = DATA_SIZE"
    if "length d = DATA_SIZE" for d using l [OF that, of 63] by simp
  have ln: "length (overlay (overlay d 12 (take (n - 16) (drop 16 msg))) (n - 4) [0]) = DATA_SIZE"
    if "length d = DATA_SIZE" "16 < n" "\<not> 63 < n - 16" for d using l [OF that(1), of "n - 16"] that(2,3) by simp
  show "length (cmd_data c') = DATA_SIZE" and "cmd_size c' = cmd_size c"
    using assms by (auto simp: decode_command_def Let_def NAME_SIZE_def ln l63 split: if_splits)
qed

lemma recv_keeps:
  assumes "length (cmd_data c) = DATA_SIZE" and "recv_command msg skb c = Inr (r, c')"
  shows "length (cmd_data c') = DATA_SIZE \<and> cmd_size c' = 16"
proof -
  obtain msg' n a where "decode_command msg' n (c\<lparr>cmd_size := 16, cmd_addr := a\<rparr>) = (r, c')"
    using assms(2) by (auto simp: recv_command_def Let_def split: if_splits elim!: bind_res_eq_InrE)
  from decode_keeps [OF _ this] assms(1) show ?thesis by simp
qed

lemma session_frame_lock:
  "session_frame (set_lock b s) s' \<Longrightarrow> session_frame s (set_lock (lock (driver s)) s')"
  by (auto simp: session_frame_def driver_ops)

lemma receive_keeps:
  assumes "session_ok s" and "fresh_peer E s" and "receive_skb E sk skb s = Inr (s', out)"
  shows "keeps s s' out"
proof -
  note ok = session_okD [OF assms(1)]
  have handled: "keeps s (set_lock False s2) out"
    if h: "\<not> lock (driver s)" "recv_command (stack_recv E) skb (command (driver s)) = Inr (r, c)"
      "r = 0 \<and> map_sum id snd (applemidi_respond E sk (update_driver (\<lambda>v. v\<lparr>command := c\<rparr>) (set_lock True s))) = Inr (s2, out) \<or>
       r \<noteq> 0 \<and> s2 = update_driver (\<lambda>v. v\<lparr>command := c\<rparr>) (set_lock True s) \<and> out = []" for r c s2 out
  proof -
    let ?u = "update_driver (\<lambda>v. v\<lparr>command := c\<rparr>) (set_lock True s)"
    have c: "length (cmd_data c) = DATA_SIZE" "cmd_size c = 16" using recv_keeps [OF ok(4) h(2)] by simp_all
    have u: "session_ok ?u" using c ok(5) by (intro session_okI [OF assms(1)]) (simp_all add: driver_ops)
    have f: "session_frame (set_lock True s) ?u" by (simp add: session_frame_refl)
    have "keeps ?u s2 out"
    proof (cases "r = 0")
      case True
      then obtain n where "applemidi_respond E sk ?u = Inr (n, s2, out)"
        using h(3) by (cases "applemidi_respond E sk ?u") auto
      then show ?thesis
        by (rule respond_keeps [OF u, rotated 2]) (use assms(2) c in \<open>simp_all add: fresh_peer_def driver_ops\<close>)
    qed (use h(3) u in \<open>auto intro: keeps_self\<close>)
    then have k: "session_ok s2" "session_frame (set_lock True s) s2" "quiet out"
      using session_frame_trans [OF f] by (auto simp: keeps_def)
    have "session_ok (set_lock False s2)"
      using session_okD(4,5) [OF k(1)] by (intro session_okI [OF k(1)]) (simp_all add: driver_ops)
    then show ?thesis using session_frame_lock [OF k(2)] h(1) k(3) by (simp add: keeps_def)
  qed
  have accepted: "keeps s (set_lock False s2) out"
    if "\<not> lock (driver s)" "recv_command (stack_recv E) skb (command (driver s)) = Inr (0, c)"
      "map_sum id snd (applemidi_respond E sk (update_driver (\<lambda>v. v\<lparr>command := c\<rparr>) (set_lock True s))) = Inr (s2, out)"
    for c s2 out using that by (intro handled [where r = 0 and c = c]) simp_all
  have ignored: "keeps s (set_lock False (update_driver (\<lambda>v. v\<lparr>command := c\<rparr>) (set_lock True s))) []"
    if "\<not> lock (driver s)" "recv_command (stack_recv E) skb (command (driver s)) = Inr (r, c)" "r \<noteq> 0"
    for r c using that by (intro handled [where r = r and c = c]) simp_all
  show ?thesis
    using assms(3) keeps_self [OF assms(1)]
    by (auto simp: receive_skb_def Let_def split: if_splits elim!: bind_res_eq_InrE)
      (rule accepted, assumption+, rule ignored, assumption+)
qed


lemma start_sync_keeps:
  assumes "session_ok s" and "start_sync E sk n a s = Inr (r, s', out)"
  shows "keeps s s' out"
proof -
  note ok = session_okD [OF assms(1)]
  obtain b where b: "applemidi_sync E sk (set_command APPLEMIDI_COMMAND_SYNCHRONIZATION
      (put32 0 (own_ssrc s) (put32 4 3 (cmd_data (command (driver s)))))
      (update_driver (\<lambda>v. v\<lparr>command := (command (driver s))\<lparr>cmd_addr := b, cmd_size := n\<rparr>\<rparr>) s)) = Inr (r, s', out)"
    using assms(2) by (auto simp: start_sync_def Let_def elim!: bind_res_eq_InrE)
  let ?u = "set_command APPLEMIDI_COMMAND_SYNCHRONIZATION
      (put32 0 (own_ssrc s) (put32 4 3 (cmd_data (command (driver s)))))
      (update_driver (\<lambda>v. v\<lparr>command := (command (driver s))\<lparr>cmd_addr := b, cmd_size := n\<rparr>\<rparr>) s)"
  have "session_ok ?u" using ok(4,5) by (intro session_okI [OF assms(1)]) (simp_all add: driver_ops)
  then have "keeps s ?u []" by (simp add: keeps_def session_frame_refl driver_ops)
  moreover have "keeps ?u s' out" using \<open>session_ok ?u\<close> b by (rule sync_keeps)
  ultimately show ?thesis using keeps_trans by fastforce
qed

lemma keeps_unlock:
  assumes "keeps (set_lock True s) s' out" and "\<not> lock (driver s)"
  shows "keeps s (set_lock False s') out"
proof -
  have k: "session_ok s'" "session_frame (set_lock True s) s'" "quiet out" using assms(1) by (simp_all add: keeps_def)
  have "session_ok (set_lock False s')"
    using session_okD(4,5) [OF k(1)] by (intro session_okI [OF k(1)]) (simp_all add: driver_ops)
  then show ?thesis using session_frame_lock [OF k(2)] assms(2) k(3) by (simp add: keeps_def)
qed

lemma session_ok_lock: "session_ok s \<Longrightarrow> session_ok (set_lock b s)"
  by (rule session_okI) (auto simp: driver_ops dest: session_okD(4,5))

lemma timeout_keeps:
  assumes "session_ok s" and "applemidi_idle_timeout E s = Inr (s', out)"
  shows "keeps s s' out"
proof (cases "lock (driver s)")
  case True
  then show ?thesis
    using assms keeps_self by (auto simp: applemidi_idle_timeout_def keeps_def quiet_def held_Cons elim: takes.elims gives.elims)
next
  case False
  let ?u = "update_driver (\<lambda>v. v\<lparr>drv_peer := snd (next_peer (rtp_session v) (drv_peer v))\<rparr>) (set_lock True s)"
  have l: "session_ok (set_lock True s)" using assms(1) by (rule session_ok_lock)
  have "session_ok ?u"
    using session_okD(4,5) [OF l] by (intro session_okI [OF l]) simp_all
  then have u: "session_ok ?u" "keeps (set_lock True s) ?u []" by (simp_all add: keeps_def session_frame_refl)
  have q: "quiet (Timer_mod 1500 # cs)" if "quiet cs" for cs
    using that by (auto simp: quiet_def held_Cons elim!: takes.elims gives.elims)
  have sync: "keeps s (set_lock False u') (Timer_mod 1500 # cs)"
    if h: "map_sum id snd (start_sync E sk n a ?u) = Inr (u', cs)" for sk n a u' cs
  proof -
    obtain r where "start_sync E sk n a ?u = Inr (r, u', cs)"
      using h by (cases "start_sync E sk n a ?u") auto
    from keeps_unlock [OF keeps_trans [OF u(2) start_sync_keeps [OF u(1) this], simplified] False]
    show ?thesis by (simp add: keeps_def q)
  qed
  have idle: "keeps s (set_lock False ?u) [Timer_mod 1500]"
    using keeps_unlock [OF u(2) False] q [of "[]"] by (simp add: keeps_def)
  show ?thesis
    using assms(2) False idle
    by (auto simp: applemidi_idle_timeout_def Let_def split: option.splits if_splits elim!: bind_res_eq_InrE)
      (rule sync, simp)
qed

text \<open>\<open>kmalloc\<close> never returns an object that is in use.\<close>

fun fresh_queue :: "nat \<Rightarrow> (apple_env \<times> sk_buff) list \<Rightarrow> apple_state \<Rightarrow> bool" where
  "fresh_queue sk [] s \<longleftrightarrow> True"
| "fresh_queue sk ((E, skb) # queue) s \<longleftrightarrow> fresh_peer E s \<and>
     (case receive_skb E sk skb s of Inl _ \<Rightarrow> True | Inr (u, out) \<Rightarrow> fresh_queue sk queue u)"

lemma callback_keeps:
  assumes "session_ok s" and "fresh_queue sk queue s" and "socket_callback sk queue s = Inr (s', out)"
  shows "keeps s s' out"
  using assms
proof (induction queue arbitrary: s s' out)
  case Nil
  then show ?case by (simp add: keeps_self)
next
  case (Cons x queue)
  obtain E skb where x: "x = (E, skb)" by (cases x)
  obtain u o1 o2 where u: "receive_skb E sk skb s = Inr (u, o1)" "socket_callback sk queue u = Inr (s', o2)" "out = o1 @ o2"
    using Cons.prems(3) by (auto simp: x elim!: bind_res_eq_InrE)
  have "keeps s u o1" using Cons.prems(1,2) u(1) by (intro receive_keeps) (auto simp: x)
  moreover have "keeps u s' o2"
    using calculation Cons.prems(2) u by (intro Cons.IH) (auto simp: keeps_def x)
  ultimately show ?case unfolding u(3) by (rule keeps_trans)
qed

end
