(* ===== verification/Apple_Protocol.thy ===== *)
theory Apple_Protocol
  imports Apple_Session
begin

text \<open>
  What the handlers of the AppleMIDI session protocol do, over the datagrams of its wire format:
  the handshake by which a host becomes a peer, its end, the exchange of three messages by
  which two hosts compare their clocks, and the use of a peer after it was freed.
\<close>

section \<open>Answers\<close>

lemma view_answer:
  assumes "command_view c = Some (Session t version tok s name)" and "session_command t'"
    and "length (cmd_data c) = DATA_SIZE"
  shows "command_view (c\<lparr>cmd_type := t', cmd_data := put32 8 own (cmd_data c)\<rparr>) = Some (Session t' version tok own name)"
  using assms by (auto simp: command_view_def Let_def field_defs DATA_SIZE_def split: if_splits)

lemma view_session:
  assumes "command_view c = Some (Session t version tok s name)"
  shows "cmd_type c = t" and "session_ssrc (cmd_data c) = s" and "session_command t"
  using assms by (auto simp: command_view_def Let_def split: if_splits)

lemma view_sync:
  assumes "command_view c = Some (Sync s n t1 t2 t3)"
  shows "cmd_type c = APPLEMIDI_COMMAND_SYNCHRONIZATION" and "sync_ssrc (cmd_data c) = s"
    and "sync_count (cmd_data c) = n" and "sync_timestamp1 (cmd_data c) = t1"
    and "sync_timestamp2 (cmd_data c) = t2" and "sync_timestamp3 (cmd_data c) = t3"
  using assms by (auto simp: command_view_def Let_def split: if_splits)

lemma send_answer:
  assumes "command_view (command (driver s)) = Some (Session t version tok ss name)" and "sendable_view (Session t version tok ss name)"
    and "session_command t'" and "length (cmd_data (command (driver s))) = DATA_SIZE" and "length (stack_send E) = 64"
    and "sin_family (cmd_addr (command (driver s))) = AF_INET"
    and "control_socket (driver s) = Some c" and "rtp_socket (driver s) = Some q" and "sk = c \<or> sk = q"
  shows "\<exists>r. transmit E sk (set_command t' (put32 8 own (cmd_data (command (driver s)))) s) =
    Inr (r, set_command t' (put32 8 own (cmd_data (command (driver s)))) s,
         [Send sk (cmd_addr (command (driver s)), wire (Session t' version tok own name))])"
  using transmit_wire [of "set_command t' (put32 8 own (cmd_data (command (driver s)))) s" "Session t' version tok own name" E c q sk]
    view_answer [OF assms(1,3,4)] assms
  by (simp add: driver_ops)

definition both_sockets :: "apple_state \<Rightarrow> nat \<Rightarrow> nat \<Rightarrow> bool" where
  "both_sockets s c q \<longleftrightarrow> control_socket (driver s) = Some c \<and> rtp_socket (driver s) = Some q \<and> c \<noteq> q"

definition inet :: "u32 \<Rightarrow> u16 \<Rightarrow> sockaddr_in" where
  "inet a p = \<lparr>sin_family = AF_INET, sin_addr = a, sin_port = p\<rparr>"

text \<open>The arrays of the two functions that build and read messages have 64 bytes.\<close>

definition stack_ok :: "apple_env \<Rightarrow> bool" where
  "stack_ok E \<longleftrightarrow> length (stack_send E) = 64 \<and> length (stack_recv E) = 64"

lemma receive_protocol:
  assumes "sendable_view v" and "named v" and "session_ok s" and "stack_ok E" and "\<not> lock (driver s)"
  shows "\<exists>m. command_view m = Some v \<and> length (cmd_data m) = DATA_SIZE \<and> cmd_size m = 16 \<and> cmd_addr m = inet src port \<and>
    receive_skb E sk (udp_skb port dport checksum src (wire v)) s =
      bind_res (map_sum id snd (applemidi_respond E sk (update_driver (\<lambda>v. v\<lparr>command := m\<rparr>) (set_lock True s))))
        (\<lambda>(s, out). Inr (set_lock False s, out))"
proof -
  have "length (stack_recv E) = 64" using assms(4) by (simp add: stack_ok_def)
  from assms(1,2) session_okD(4) [OF assms(3)] this assms(5) show ?thesis
    by (rule receive_wire [where src = src and sport = port and dport = dport and checksum = checksum and sk = sk])
       (unfold inet_def, blast)
qed

text \<open>An invitation on the control port is accepted and changes no peer.\<close>

lemma invitation_control:
  assumes "session_ok s" and "\<not> lock (driver s)" and "accept (driver s) \<noteq> 0" and "both_sockets s c q" and "stack_ok E"
    and "sendable_view (Session APPLEMIDI_COMMAND_INVITATION version tok ss name)" and "name \<noteq> []"
  obtains s1 where "receive_skb E c (udp_skb port dport checksum src
        (wire (Session APPLEMIDI_COMMAND_INVITATION version tok ss name))) s =
      Inr (s1, [Send c (inet src port, wire (Session APPLEMIDI_COMMAND_INVITATION_ACCEPTED version tok (own_ssrc s) name))])"
    and "session_ok s1" and "session_frame s s1" and "rtp_session (driver s1) = rtp_session (driver s)"
    and "peer_store s1 = peer_store s"
proof -
  let ?v = "Session APPLEMIDI_COMMAND_INVITATION version tok ss name"
  have r: "length (stack_recv E) = 64" "length (stack_send E) = 64" using assms(5) by (simp_all add: stack_ok_def)
  have sock: "control_socket (driver s) = Some c" "rtp_socket (driver s) = Some q" "c \<noteq> q"
    using assms(4) by (simp_all add: both_sockets_def)
  have nm: "named ?v" using assms(7) by simp
  obtain m where m: "command_view m = Some ?v" "length (cmd_data m) = DATA_SIZE" "cmd_addr m = inet src port"
    and recv: "receive_skb E c (udp_skb port dport checksum src (wire ?v)) s =
      bind_res (map_sum id snd (applemidi_respond E c (update_driver (\<lambda>v. v\<lparr>command := m\<rparr>) (set_lock True s))))
        (\<lambda>(s, out). Inr (set_lock False s, out))"
    using receive_protocol [OF assms(6) nm assms(1,5,2)] by blast
  let ?u = "update_driver (\<lambda>v. v\<lparr>command := m\<rparr>) (set_lock True s)"
  let ?u' = "set_command APPLEMIDI_COMMAND_INVITATION_ACCEPTED (put32 8 (own_ssrc s) (cmd_data m)) ?u"
  have "\<exists>r. transmit E c ?u' = Inr (r, ?u', [Send c (inet src port,
      wire (Session APPLEMIDI_COMMAND_INVITATION_ACCEPTED version tok (own_ssrc s) name))])"
    using send_answer [of ?u APPLEMIDI_COMMAND_INVITATION version tok ss name APPLEMIDI_COMMAND_INVITATION_ACCEPTED E c q c "own_ssrc s"]
      m assms(6) r sock by (simp add: driver_ops inet_def session_command_def)
  then have resp: "\<exists>r. applemidi_respond E c ?u = Inr (r, ?u', [Send c (inet src port,
      wire (Session APPLEMIDI_COMMAND_INVITATION_ACCEPTED version tok (own_ssrc s) name))])"
    using sock assms(3) view_session [OF m(1)] by (simp add: applemidi_respond_def driver_ops)
  have "session_ok (set_lock False ?u')" "session_frame s (set_lock False ?u')"
    using session_okD(4,5) [OF assms(1)] m(2) assms(2)
    by (auto simp: driver_ops session_frame_refl intro!: session_okI [OF assms(1)])
  then show thesis using resp recv by (intro that [of "set_lock False ?u'"]) (auto simp: driver_ops)
qed


lemma accept_peer_added:
  assumes "peers_ok s" and "new_peer E = Some p" and "peer_store s p = None" and "cmd_size (command (driver s)) = 16"
    and "card (members (rtp_session (driver s))) < RTP_MAX_PEERS"
  shows "\<exists>s' slot r. accept_peer E s = Inr s' \<and> peers_ok s' \<and>
    s' = update_driver (\<lambda>v. v\<lparr>rtp_session := (rtp_session v)\<lparr>peers := (peers (rtp_session v))[slot := Some p]\<rparr>\<rparr>)
             (s\<lparr>peer_store := (peer_store s)(p \<mapsto> r)\<rparr>) \<and>
    address r = \<lparr>ssrc = session_ssrc (cmd_data (command (driver s))), addr_size = 16, addr = cmd_addr (command (driver s))\<rparr> \<and>
    members (rtp_session (driver s')) = insert p (members (rtp_session (driver s)))"
  using assms(1-4)
proof (cases rule: accept_peer_cases)
  case (added s' slot r)
  then show ?thesis by blast
next
  case full
  then show ?thesis using assms(5) by simp
qed

text \<open>An invitation on the other port makes the host a peer.\<close>

text \<open>A new peer under an accepted invitation: the driver changes in its table of peers only.\<close>

lemma accept_peer_session:
  assumes "session_ok u" and "new_peer E = Some p" and "peer_store u p = None" and "cmd_size (command (driver u)) = 16"
    and "card (members (rtp_session (driver u))) < RTP_MAX_PEERS"
  obtains w r ps where "accept_peer E u = Inr w" and "session_ok w"
    and "driver w = (driver u)\<lparr>rtp_session := (rtp_session (driver u))\<lparr>peers := ps\<rparr>\<rparr>"
    and "clocks w = clocks u" and "global_clock w = global_clock u" and "mem w = mem u"
    and "peer_store w = (peer_store u)(p \<mapsto> r)"
    and "members (rtp_session (driver w)) = insert p (members (rtp_session (driver u)))"
    and "address r = \<lparr>ssrc = session_ssrc (cmd_data (command (driver u))), addr_size = 16, addr = cmd_addr (command (driver u))\<rparr>"
proof -
  obtain w slot r where w: "accept_peer E u = Inr w" "peers_ok w"
       "w = update_driver (\<lambda>v. v\<lparr>rtp_session := (rtp_session v)\<lparr>peers := (peers (rtp_session v))[slot := Some p]\<rparr>\<rparr>)
             (u\<lparr>peer_store := (peer_store u)(p \<mapsto> r)\<rparr>)"
       "address r = \<lparr>ssrc = session_ssrc (cmd_data (command (driver u))), addr_size = 16, addr = cmd_addr (command (driver u))\<rparr>"
       "members (rtp_session (driver w)) = insert p (members (rtp_session (driver u)))"
    using accept_peer_added [OF session_okD(1) [OF assms(1)] assms(2-5)] by blast
  have ok: "session_ok w" using w(2) by (rule session_ok_peers [OF assms(1)]) (simp_all add: w(3) driver_ops)
  show thesis
    by (rule that [OF w(1) ok, of "(peers (rtp_session (driver u)))[slot := Some p]" r, OF _ _ _ _ _ w(5,4)])
      (simp_all add: w(3) driver_ops)
qed

lemma invitation_rtp:
  assumes "session_ok s" and "\<not> lock (driver s)" and "accept (driver s) \<noteq> 0" and "both_sockets s c q" and "stack_ok E"
    and "sendable_view (Session APPLEMIDI_COMMAND_INVITATION version tok ss name)" and "name \<noteq> []"
    and "new_peer E = Some p" and "peer_store s p = None"
    and "card (members (rtp_session (driver s))) < RTP_MAX_PEERS"
  obtains s1 r where "receive_skb E q (udp_skb port dport checksum src
        (wire (Session APPLEMIDI_COMMAND_INVITATION version tok ss name))) s =
      Inr (s1, [Send q (inet src port, wire (Session APPLEMIDI_COMMAND_INVITATION_ACCEPTED version tok (own_ssrc s) name))])"
    and "session_ok s1" and "session_frame s s1"
    and "members (rtp_session (driver s1)) = insert p (members (rtp_session (driver s)))"
    and "peer_store s1 = (peer_store s)(p \<mapsto> r)" and "address r = \<lparr>ssrc = ss, addr_size = 16, addr = inet src port\<rparr>"
proof -
  let ?v = "Session APPLEMIDI_COMMAND_INVITATION version tok ss name"
  have st: "length (stack_recv E) = 64" "length (stack_send E) = 64" using assms(5) by (simp_all add: stack_ok_def)
  have sock: "control_socket (driver s) = Some c" "rtp_socket (driver s) = Some q" "c \<noteq> q"
    using assms(4) by (simp_all add: both_sockets_def)
  have nm: "named ?v" using assms(7) by simp
  obtain m where m: "command_view m = Some ?v" "length (cmd_data m) = DATA_SIZE" "cmd_addr m = inet src port" "cmd_size m = 16"
    and recv: "receive_skb E q (udp_skb port dport checksum src (wire ?v)) s =
      bind_res (map_sum id snd (applemidi_respond E q (update_driver (\<lambda>v. v\<lparr>command := m\<rparr>) (set_lock True s))))
        (\<lambda>(s, out). Inr (set_lock False s, out))"
    using receive_protocol [OF assms(6) nm assms(1,5,2)] by blast
  let ?u = "update_driver (\<lambda>v. v\<lparr>command := m\<rparr>) (set_lock True s)"
  have u: "session_ok ?u" using m(2) session_okD(5) [OF assms(1)] by (intro session_okI [OF assms(1)]) (simp_all add: driver_ops)
  have p: "peer_store ?u p = None" "cmd_size (command (driver ?u)) = 16" using assms(9) m(4) by (simp_all add: driver_ops)
  have n: "card (members (rtp_session (driver ?u))) < RTP_MAX_PEERS" using assms(10) by (simp add: driver_ops)
  obtain w r ps where w: "accept_peer E ?u = Inr w" "session_ok w"
       "driver w = (driver ?u)\<lparr>rtp_session := (rtp_session (driver ?u))\<lparr>peers := ps\<rparr>\<rparr>"
    and h: "clocks w = clocks ?u" "global_clock w = global_clock ?u" "mem w = mem ?u" "peer_store w = (peer_store ?u)(p \<mapsto> r)"
       "members (rtp_session (driver w)) = insert p (members (rtp_session (driver ?u)))"
       "address r = \<lparr>ssrc = session_ssrc (cmd_data (command (driver ?u))), addr_size = 16, addr = cmd_addr (command (driver ?u))\<rparr>"
    by (rule accept_peer_session [OF u assms(8) p n])
  have dw: "driver w = (driver s)\<lparr>lock := True, command := m, rtp_session := (rtp_session (driver s))\<lparr>peers := ps\<rparr>\<rparr>"
    by (simp add: w(3) driver_ops)
  let ?u' = "set_command APPLEMIDI_COMMAND_INVITATION_ACCEPTED (put32 8 (own_ssrc s) (cmd_data m)) w"
  have "\<exists>r. transmit E q ?u' = Inr (r, ?u', [Send q (inet src port,
      wire (Session APPLEMIDI_COMMAND_INVITATION_ACCEPTED version tok (own_ssrc s) name))])"
    using send_answer [of w APPLEMIDI_COMMAND_INVITATION version tok ss name APPLEMIDI_COMMAND_INVITATION_ACCEPTED E c q q "own_ssrc s"]
      m assms(6) st sock by (simp add: dw inet_def session_command_def)
  then have resp: "\<exists>r. applemidi_respond E q ?u = Inr (r, ?u', [Send q (inet src port,
      wire (Session APPLEMIDI_COMMAND_INVITATION_ACCEPTED version tok (own_ssrc s) name))])"
    using sock assms(3) view_session [OF m(1)] w(1) by (simp add: applemidi_respond_def driver_ops dw)
  have "session_ok (set_lock False ?u')"
    using session_okD(5) [OF w(2)] m(2) by (intro session_okI [OF w(2)]) (simp_all add: driver_ops)
  moreover have "session_frame s (set_lock False ?u')"
    using h(1-4) assms(2) by (auto simp: session_frame_def driver_ops dw)
  ultimately show thesis
    using resp recv h(4-6) m(3) view_session(2) [OF m(1)] by (intro that [of "set_lock False ?u'" r]) (auto simp: driver_ops)
qed

section \<open>Comparing clocks\<close>

definition now_of :: "apple_env \<Rightarrow> apple_state \<Rightarrow> s64" where
  "now_of E s = (case get_now E s of Inl _ \<Rightarrow> 0 | Inr (t, _) \<Rightarrow> t)"

lemma get_now_of: "clock_ok s \<Longrightarrow> get_now E s = Inr (now_of E s, s)"
  by (rule get_now_ok [of s E]) (simp_all add: now_of_def)

lemma now_of_frame:
  assumes "base (driver s') = base (driver s)" and "clocks s' = clocks s" and "clock_ok s"
  shows "now_of E s' = now_of E s"
  using assms by (auto simp: now_of_def get_now_def clock_ok_def MIDIClockGetNow_def get_clock_def get_real_time_def)

lemma view_count:
  assumes "command_view c = Some (Sync ss n t1 t2 t3)" and "length (cmd_data c) = DATA_SIZE"
  shows "command_view (c\<lparr>cmd_type := APPLEMIDI_COMMAND_SYNCHRONIZATION, cmd_data := put64 24 t (put32 4 2 (put32 0 own (cmd_data c)))\<rparr>) = Some (Sync own 2 t1 t2 t)"
    and "command_view (c\<lparr>cmd_type := APPLEMIDI_COMMAND_SYNCHRONIZATION, cmd_data := put64 16 t (put32 4 1 (put32 0 own (cmd_data c)))\<rparr>) = Some (Sync own 1 t1 t t3)"
  using assms
  by (auto simp: command_view_def Let_def field_defs DATA_SIZE_def commands_differ split: if_splits)

text \<open>What a driver does with the message of another host in the exchange.\<close>

fun sync_answer :: "u32 \<Rightarrow> s64 \<Rightarrow> message_view \<Rightarrow> message_view list" where
  "sync_answer own t (Sync ss n t1 t2 t3) =
     (if n = 0 then [Sync own 1 t1 t t3] else if n = 1 then [Sync own 2 t1 t2 t] else [])"
| "sync_answer own t v = []"

definition sync_reply :: "u32 \<Rightarrow> s64 \<Rightarrow> u32 \<Rightarrow> bytes \<Rightarrow> bytes" where
  "sync_reply own t n d =
     (if n = 0 then put64 16 t (put32 4 1 (put32 0 own d))
      else if n = 1 then put64 24 t (put32 4 2 (put32 0 own d))
      else put32 4 3 (put32 0 own d))"

lemma length_sync_reply: "length d = DATA_SIZE \<Longrightarrow> length (sync_reply own t n d) = DATA_SIZE"
  by (simp add: sync_reply_def)

definition sync_replied :: "u32 \<Rightarrow> s64 \<Rightarrow> peer_ptr option \<Rightarrow> apple_state \<Rightarrow> apple_state" where
  "sync_replied n t x s = set_sync (if n = 0 then 2 else 0) (set_command APPLEMIDI_COMMAND_SYNCHRONIZATION
     (sync_reply (own_ssrc s) t n (cmd_data (command (driver s)))) (update_driver (\<lambda>v. v\<lparr>drv_peer := x\<rparr>) s))"

text \<open>A message of another host within the exchange is replied to, or ends it.\<close>

lemma sync_known:
  fixes s :: apple_state
  defines "d \<equiv> cmd_data (command (driver s))"
  assumes "session_ok s" and "get_now E s = Inr (t, s)"
    and "\<not> (cmd_type (command (driver s)) \<noteq> APPLEMIDI_COMMAND_SYNCHRONIZATION \<or> sync_ssrc d = own_ssrc s \<or> sync_count d > 2)"
  obtains x where "set_option x \<subseteq> set_option (drv_peer (driver s)) \<union> members (rtp_session (driver s))"
    and "applemidi_sync E sk s = (if sync_count d = 2 then Inr (0, sync_replied 2 t x s, []) else transmit E sk (sync_replied (sync_count d) t x s))"
proof -
  obtain k found where find: "RTPSessionFindPeerBySSRC (rtp_session (driver s)) (sync_ssrc d) (peer_store s) = Inr (k, found)"
    "set_option found \<subseteq> members (rtp_session (driver s))"
    by (rule find_peer_cases [OF session_okD(6) [OF assms(2)], of "sync_ssrc d"]) auto
  define x where "x = (case found of None \<Rightarrow> drv_peer (driver s) | Some p \<Rightarrow> Some p)"
  have w: "(case found of None \<Rightarrow> s | Some p \<Rightarrow> update_driver (\<lambda>v. v\<lparr>drv_peer := Some p\<rparr>) s) = update_driver (\<lambda>v. v\<lparr>drv_peer := x\<rparr>) s"
    by (cases found) (simp_all add: x_def update_driver_def)
  have n: "sync_count d = 0 \<or> sync_count d = 1 \<or> sync_count d = 2"
    using assms(4) by (simp add: word_le_nat_alt word_less_nat_alt word_unat_eq_iff) arith
  have "applemidi_sync E sk s = (if sync_count d = 2 then Inr (0, sync_replied 2 t x s, []) else transmit E sk (sync_replied (sync_count d) t x s))"
    using assms(3,4) find(1) n w by (auto simp: applemidi_sync_def Let_def sync_replied_def sync_reply_def d_def)
  moreover have "set_option x \<subseteq> set_option (drv_peer (driver s)) \<union> members (rtp_session (driver s))"
    using find(2) by (auto simp: x_def split: option.splits)
  ultimately show ?thesis by (rule that [rotated])
qed

lemma respond_sync:
  assumes "session_ok u" and "command_view (command (driver u)) = Some (Sync ss n t1 t2 t3)"
    and "cmd_addr (command (driver u)) = inet src port" and "both_sockets u c q" and "stack_ok E" and "sk = c \<or> sk = q"
    and "n = 0 \<or> n = 1 \<or> n = 2" and "ss \<noteq> own_ssrc u"
  shows "\<exists>k x. applemidi_respond E sk u = Inr (k, sync_replied n (now_of E u) x u,
      map (\<lambda>v. Send sk (inet src port, wire v)) (sync_answer (own_ssrc u) (now_of E u) (Sync ss n t1 t2 t3)))"
proof -
  let ?m = "command (driver u)" and ?t = "now_of E u"
  note vs = view_sync [OF assms(2)] and d = session_okD(4) [OF assms(1)]
  have bad: "\<not> (cmd_type ?m \<noteq> APPLEMIDI_COMMAND_SYNCHRONIZATION \<or> sync_ssrc (cmd_data ?m) = own_ssrc u \<or> sync_count (cmd_data ?m) > 2)"
    using vs(1-3) assms(7,8) by auto
  obtain x where x: "applemidi_sync E sk u = (if n = 2 then Inr (0, sync_replied 2 ?t x u, []) else transmit E sk (sync_replied n ?t x u))"
    using sync_known [OF assms(1) get_now_of [OF session_okD(2) [OF assms(1)]] bad] vs(3) by metis
  have resp: "applemidi_respond E sk u = applemidi_sync E sk u"
    using vs(1) by (simp add: applemidi_respond_def commands_differ)
  have send: "\<exists>r. transmit E sk (sync_replied n ?t x u) = Inr (r, sync_replied n ?t x u, [Send sk (inet src port, wire v)])"
    if "command_view (?m\<lparr>cmd_type := APPLEMIDI_COMMAND_SYNCHRONIZATION, cmd_data := sync_reply (own_ssrc u) ?t n (cmd_data ?m)\<rparr>) = Some v"
      "sendable_view v" for v
    using transmit_wire [of "sync_replied n ?t x u" v E c q sk] that assms(3-6) length_sync_reply [OF d]
    by (simp add: sync_replied_def driver_ops stack_ok_def inet_def both_sockets_def)
  show ?thesis
  proof (cases "n = 2")
    case True
    then show ?thesis using resp x by auto
  next
    case False
    then obtain v where v: "sync_answer (own_ssrc u) ?t (Sync ss n t1 t2 t3) = [v]" "sendable_view v"
        "command_view (?m\<lparr>cmd_type := APPLEMIDI_COMMAND_SYNCHRONIZATION, cmd_data := sync_reply (own_ssrc u) ?t n (cmd_data ?m)\<rparr>) = Some v"
      using assms(7) view_count [OF assms(2) d] by (auto simp: sync_reply_def)
    from send [OF v(3,2)] show ?thesis using resp x False v(1) by auto
  qed
qed

lemma receive_sync:
  assumes "session_ok s" and "\<not> lock (driver s)" and "both_sockets s c q" and "stack_ok E" and "sk = c \<or> sk = q"
    and "n \<le> 2" and "ss \<noteq> own_ssrc s"
  shows "\<exists>s1. receive_skb E sk (udp_skb port dport checksum src (wire (Sync ss n t1 t2 t3))) s =
      Inr (s1, map (\<lambda>v. Send sk (inet src port, wire v)) (sync_answer (own_ssrc s) (now_of E s) (Sync ss n t1 t2 t3))) \<and>
    session_ok s1 \<and> session_frame s s1 \<and> sync (driver s1) = (if n = 0 then 2 else 0) \<and>
    rtp_session (driver s1) = rtp_session (driver s) \<and> peer_store s1 = peer_store s"
proof -
  let ?v = "Sync ss n t1 t2 t3"
  have n: "n < 256" "n = 0 \<or> n = 1 \<or> n = 2"
    using assms(6) by (simp_all add: word_le_nat_alt word_less_nat_alt word_unat_eq_iff) arith
  obtain m where m: "command_view m = Some ?v" "length (cmd_data m) = DATA_SIZE" "cmd_addr m = inet src port"
    and recv: "receive_skb E sk (udp_skb port dport checksum src (wire ?v)) s =
      bind_res (map_sum id snd (applemidi_respond E sk (update_driver (\<lambda>v. v\<lparr>command := m\<rparr>) (set_lock True s))))
        (\<lambda>(s, out). Inr (set_lock False s, out))"
    using receive_protocol [of ?v s E src port sk dport checksum] assms(1,2,4) n(1) by auto
  let ?u = "update_driver (\<lambda>v. v\<lparr>command := m\<rparr>) (set_lock True s)"
  have u: "session_ok ?u" using m(2) session_okD(5) [OF assms(1)] by (intro session_okI [OF assms(1)]) (simp_all add: driver_ops)
  have du: "command (driver ?u) = m" "both_sockets ?u c q" "own_ssrc ?u = own_ssrc s" "now_of E ?u = now_of E s"
    using assms(3) now_of_frame [of ?u s E] session_okD(2) [OF assms(1)] by (simp_all add: driver_ops both_sockets_def)
  obtain k x where r: "applemidi_respond E sk ?u = Inr (k, sync_replied n (now_of E s) x ?u,
      map (\<lambda>v. Send sk (inet src port, wire v)) (sync_answer (own_ssrc s) (now_of E s) ?v))"
    using respond_sync [where E = E, OF u, unfolded du, OF m(1,3) du(2) assms(4,5) n(2) assms(7)] by blast
  let ?s1 = "set_lock False (sync_replied n (now_of E s) x ?u)"
  have "session_ok ?s1" by (rule session_okI [OF assms(1)]) (simp_all add: sync_replied_def driver_ops length_sync_reply m(2))
  moreover have "session_frame s ?s1" using assms(2) by (auto simp: sync_replied_def driver_ops session_frame_def intro: exI [of _ "peers (rtp_session (driver s))"])
  ultimately show ?thesis using recv r by (intro exI [of _ ?s1]) (simp add: sync_replied_def driver_ops del: wire.simps sync_answer.simps)
qed

text \<open>The timer starts an exchange with the next peer, with what is left of the other two time stamps.\<close>

lemma timeout_sync:
  assumes "session_ok s" and "\<not> lock (driver s)" and "both_sockets s c q" and "stack_ok E"
    and "sync (driver s) = 0" and "snd (next_peer (rtp_session (driver s)) (drv_peer (driver s))) = Some p"
    and "peer_store s p = Some r" and "sin_family (addr (address r)) = AF_INET"
  shows "\<exists>s1 x y. applemidi_idle_timeout E s =
      Inr (s1, [Timer_mod 1500, Send q (addr (address r), wire (Sync (own_ssrc s) 0 (now_of E s) x y))]) \<and>
    session_ok s1 \<and> session_frame s s1 \<and> sync (driver s1) = 1 \<and> drv_peer (driver s1) = Some p \<and>
    rtp_session (driver s1) = rtp_session (driver s) \<and> peer_store s1 = peer_store s"
proof -
  let ?u = "update_driver (\<lambda>v. v\<lparr>drv_peer := snd (next_peer (rtp_session v) (drv_peer v))\<rparr>) (set_lock True s)"
  let ?c = "command (driver s)" and ?a = "addr (address r)"
  let ?w = "update_driver (\<lambda>v. v\<lparr>command := ?c\<lparr>cmd_addr := ?a, cmd_size := 16\<rparr>\<rparr>) ?u"
  let ?d = "put32 0 (own_ssrc s) (put32 4 3 (cmd_data ?c))"
  let ?w1 = "set_command APPLEMIDI_COMMAND_SYNCHRONIZATION ?d ?w"
  let ?d' = "put64 8 (now_of E s) (put32 4 0 (put32 0 (own_ssrc s) ?d))"
  let ?w2 = "set_sync 1 (set_command APPLEMIDI_COMMAND_SYNCHRONIZATION ?d' ?w1)"
  let ?x = "sync_timestamp2 (cmd_data ?c)" and ?y = "sync_timestamp3 (cmd_data ?c)"
  note ok = session_okD [OF assms(1)]
  have size: "addr_size (address r) = 16" using ok(1) assms(7) by (simp add: peers_ok_def)
  have w1: "session_ok ?w1" using ok(4,5) by (intro session_okI [OF assms(1)]) (simp_all add: driver_ops)
  have t: "get_now E ?w1 = Inr (now_of E s, ?w1)"
    using get_now_of [OF session_okD(2) [OF w1]] now_of_frame [of ?w1 s] ok(2) by (simp add: driver_ops)
  have s1: "sync_ssrc ?d = own_ssrc s" using ok(4) by (simp add: field_defs DATA_SIZE_def)
  have "start_sync E q 16 ?a ?u = applemidi_sync E q ?w1"
    by (simp add: start_sync_def Let_def driver_ops)
  also have "... = transmit E q ?w2"
    using t s1 by (simp add: applemidi_sync_def Let_def driver_ops)
  finally have sync: "start_sync E q 16 ?a ?u = transmit E q ?w2" .
  have v: "command_view (command (driver ?w2)) = Some (Sync (own_ssrc s) 0 (now_of E s) ?x ?y)"
    using ok(4) by (simp add: driver_ops command_view_def Let_def commands_differ field_defs DATA_SIZE_def)
  obtain k where "transmit E q ?w2 = Inr (k, ?w2, [Send q (?a, wire (Sync (own_ssrc s) 0 (now_of E s) ?x ?y))])"
    using transmit_wire [OF v, of E c q q] ok(4) assms(3,4,8)
    by (auto simp: driver_ops both_sockets_def stack_ok_def simp del: wire.simps)
  then have "applemidi_idle_timeout E s =
      Inr (set_lock False ?w2, [Timer_mod 1500, Send q (?a, wire (Sync (own_ssrc s) 0 (now_of E s) ?x ?y))])"
    using sync size assms(2,3,5-7)
    by (simp add: applemidi_idle_timeout_def Let_def RTPPeerGetAddress_def get_peer_def both_sockets_def driver_ops
        del: wire.simps own_ssrc_eq)
  moreover have "session_ok (set_lock False ?w2)"
    using ok(4,5) by (intro session_okI [OF assms(1)]) (simp_all add: driver_ops)
  ultimately show ?thesis
    using assms(2,6) by (intro exI [of _ "set_lock False ?w2"] exI) (auto simp: driver_ops session_frame_refl)
qed

section \<open>Sample drivers\<close>

definition sample_apple :: apple_state where
  "sample_apple = \<lparr>driver = \<lparr>lock = False, base = \<lparr>base_refs = 1, base_port = None, base_clock = Some 8\<rparr>,
      control_socket = Some 11, rtp_socket = Some 12, drv_port = 5008, accept = 1, sync = 0, token = 77,
      drv_name = [80, 105] @ replicate 30 0, command = sample_command, drv_peer = None, rtp_session = sample_table,
      rtpmidi_session = Some sample_midi_session\<rparr>,
    peer_store = sample_heap, mem = sample_buffers,
    clocks = [8 \<mapsto> \<lparr>clock_refs = 1, offset = 0, rate = 10000, numer = 1, denom = 100000\<rparr>], global_clock = Some 8\<rparr>"

definition sample_world :: apple_env where
  "sample_world = \<lparr>network = \<lambda>s a n bs. (int (length bs), 0), ktime = 5000000, new_peer = Some 42, new_clock = Some 9,
    stack_send = replicate 64 7, stack_recv = replicate 64 7, stack_addr = sample_addr, stack_w = 0\<rparr>"

lemma sample_apple_simps [simp]:
  "lock (driver sample_apple) = False" "accept (driver sample_apple) = 1" "sync (driver sample_apple) = 0"
  "rtp_session (driver sample_apple) = sample_table" "peer_store sample_apple = sample_heap"
  "control_socket (driver sample_apple) = Some 11" "rtp_socket (driver sample_apple) = Some 12"
  "drv_peer (driver sample_apple) = None"
  by (simp_all add: sample_apple_def)

lemma sample_heap_simps [simp]: "sample_heap 40 = Some (sample_peer 3)" "sample_heap 41 = Some (sample_peer 9)"
  "sample_heap 42 = None" "dom sample_heap = {40, 41}"
  by (auto simp: sample_heap_def split: if_splits)

lemma sample_apple_ok [simp]: "session_ok sample_apple" "both_sockets sample_apple 11 12" "stack_ok sample_world"
  "new_peer sample_world = Some 42"
proof -
  have "peers_ok sample_apple"
  proof (intro peers_okI)
    fix q r assume "peer_store sample_apple q = Some r"
    then show "peer_refs r = 1 \<and> addr_size (address r) = 16"
      by (auto simp: sample_heap_def sample_peer_def split: if_splits)
  qed (simp_all del: insert_iff)
  then show "session_ok sample_apple"
    by (simp add: session_ok_def clock_ok_def name_ok_def sample_apple_def)
qed (simp_all add: both_sockets_def stack_ok_def sample_world_def)

section \<open>Properties\<close>

text \<open>
  C10. The handshake of an invitation, by a host that gives a name while the table of peers has a free place: a driver that accepts answers the invitation on its control port and
  the one on its RTP port, each from the socket it came in on and to the address it came from, with an acceptance
  that repeats version, token and name and gives the driver's own SSRC. The first changes no peer; with the second
  the host is a peer of the table, with its SSRC and the address of its RTP port. The state stays well-formed
  and the lock is free again.
\<close>

theorem invitation_handshake:
  assumes "session_ok s" and "\<not> lock (driver s)" and "accept (driver s) \<noteq> 0" and "both_sockets s c q"
    and "stack_ok E1" and "stack_ok E2"
    and "sendable_view (Session APPLEMIDI_COMMAND_INVITATION version tok ss name)" and "name \<noteq> []"
    and "new_peer E2 = Some p" and "peer_store s p = None"
    and "card (members (rtp_session (driver s))) < RTP_MAX_PEERS"
  shows "\<exists>s1 s2 r.
    receive_skb E1 c (udp_skb port1 dport1 checksum1 src (wire (Session APPLEMIDI_COMMAND_INVITATION version tok ss name))) s =
      Inr (s1, [Send c (inet src port1, wire (Session APPLEMIDI_COMMAND_INVITATION_ACCEPTED version tok (own_ssrc s) name))]) \<and>
    peer_store s1 = peer_store s \<and> members (rtp_session (driver s1)) = members (rtp_session (driver s)) \<and>
    receive_skb E2 q (udp_skb port2 dport2 checksum2 src (wire (Session APPLEMIDI_COMMAND_INVITATION version tok ss name))) s1 =
      Inr (s2, [Send q (inet src port2, wire (Session APPLEMIDI_COMMAND_INVITATION_ACCEPTED version tok (own_ssrc s) name))]) \<and>
    members (rtp_session (driver s2)) = insert p (members (rtp_session (driver s))) \<and>
    peer_store s2 = (peer_store s)(p \<mapsto> r) \<and> address r = \<lparr>ssrc = ss, addr_size = 16, addr = inet src port2\<rparr> \<and>
    session_ok s2 \<and> \<not> lock (driver s2)"
proof -
  obtain s1 where s1: "receive_skb E1 c (udp_skb port1 dport1 checksum1 src (wire (Session APPLEMIDI_COMMAND_INVITATION version tok ss name))) s =
      Inr (s1, [Send c (inet src port1, wire (Session APPLEMIDI_COMMAND_INVITATION_ACCEPTED version tok (own_ssrc s) name))])"
    "session_ok s1" "session_frame s s1" "rtp_session (driver s1) = rtp_session (driver s)" "peer_store s1 = peer_store s"
    using invitation_control [OF assms(1-5,7,8)] by metis
  have "\<not> lock (driver s1)" "accept (driver s1) \<noteq> 0" "both_sockets s1 c q"
    using s1(3) assms(2-4) by (simp_all add: session_frame_def both_sockets_def)
  moreover have "peer_store s1 p = None" "card (members (rtp_session (driver s1))) < RTP_MAX_PEERS"
    using s1(4,5) assms(10,11) by simp_all
  ultimately obtain s2 r where "receive_skb E2 q (udp_skb port2 dport2 checksum2 src
        (wire (Session APPLEMIDI_COMMAND_INVITATION version tok ss name))) s1 =
      Inr (s2, [Send q (inet src port2, wire (Session APPLEMIDI_COMMAND_INVITATION_ACCEPTED version tok (own_ssrc s1) name))])"
    "session_ok s2" "session_frame s1 s2"
    "members (rtp_session (driver s2)) = insert p (members (rtp_session (driver s1)))"
    "peer_store s2 = (peer_store s1)(p \<mapsto> r)" "address r = \<lparr>ssrc = ss, addr_size = 16, addr = inet src port2\<rparr>"
    using invitation_rtp [OF s1(2) _ _ _ assms(6-9)] by metis
  with s1 assms(2) show ?thesis by (auto simp: session_frame_def)
qed


lemma invitation_handshake_witness:
  "\<exists>s2. members (rtp_session (driver s2)) = {40, 41, 42} \<and> session_ok s2 \<and>
    (\<exists>s1. receive_skb sample_world 12 (udp_skb 5009 5009 0 7
      (wire (Session APPLEMIDI_COMMAND_INVITATION 2 99 6 [77]))) s1 =
      Inr (s2, [Send 12 (inet 7 5009, wire (Session APPLEMIDI_COMMAND_INVITATION_ACCEPTED 2 99 (own_ssrc sample_apple) [77]))]))"
  using invitation_handshake [of sample_apple 11 12 sample_world sample_world 2 99 6 "[77]" 42 5008 5008 0 7 5009 5009 0]
  by (simp add: session_command_def RTP_MAX_PEERS_def insert_commute del: wire.simps own_ssrc_eq) blast


text \<open>
  C14. The comparison of clocks between two drivers: the timer of the first sends the time of its clock to the address
  of its next peer; the second answers with the time of its own clock added; the first answers with its
  time once more; the second takes it without an answer. The messages that are handed over carry the three times in
  order, both drivers end with no exchange under way, and their peers and locks are as before.
\<close>

theorem clock_sync_exchange:
  assumes "session_ok A" and "session_ok B" and "\<not> lock (driver A)" and "\<not> lock (driver B)"
    and "both_sockets A ca qa" and "both_sockets B cb qb" and "list_all stack_ok [E1, E2, E3, E4]"
    and "own_ssrc A \<noteq> own_ssrc B" and "sync (driver A) = 0"
    and "snd (next_peer (rtp_session (driver A)) (drv_peer (driver A))) = Some p"
    and "peer_store A p = Some r" and "addr (address r) = inet ipB portB"
  shows "\<exists>A1 B1 A2 B2 x y.
    applemidi_idle_timeout E1 A =
      Inr (A1, [Timer_mod 1500, Send qa (inet ipB portB, wire (Sync (own_ssrc A) 0 (now_of E1 A) x y))]) \<and>
    receive_skb E2 qb (udp_skb portA d2 c2 ipA (wire (Sync (own_ssrc A) 0 (now_of E1 A) x y))) B =
      Inr (B1, [Send qb (inet ipA portA, wire (Sync (own_ssrc B) 1 (now_of E1 A) (now_of E2 B) y))]) \<and>
    receive_skb E3 qa (udp_skb portB d3 c3 ipB (wire (Sync (own_ssrc B) 1 (now_of E1 A) (now_of E2 B) y))) A1 =
      Inr (A2, [Send qa (inet ipB portB, wire (Sync (own_ssrc A) 2 (now_of E1 A) (now_of E2 B) (now_of E3 A)))]) \<and>
    receive_skb E4 qb (udp_skb portA d4 c4 ipA (wire (Sync (own_ssrc A) 2 (now_of E1 A) (now_of E2 B) (now_of E3 A)))) B1 =
      Inr (B2, []) \<and>
    sync (driver A1) = 1 \<and> sync (driver B1) = 2 \<and> sync (driver A2) = 0 \<and> sync (driver B2) = 0 \<and>
    rtp_session (driver A2) = rtp_session (driver A) \<and> peer_store A2 = peer_store A \<and> \<not> lock (driver A2) \<and>
    rtp_session (driver B2) = rtp_session (driver B) \<and> peer_store B2 = peer_store B \<and> \<not> lock (driver B2)"
proof -
  have st: "stack_ok E1" "stack_ok E2" "stack_ok E3" "stack_ok E4" using assms(7) by simp_all
  have f: "sin_family (addr (address r)) = AF_INET" by (simp add: assms(12) inet_def)
  obtain A1 x y where A1: "applemidi_idle_timeout E1 A =
      Inr (A1, [Timer_mod 1500, Send qa (inet ipB portB, wire (Sync (own_ssrc A) 0 (now_of E1 A) x y))])"
    "session_ok A1" "session_frame A A1" "sync (driver A1) = 1" "rtp_session (driver A1) = rtp_session (driver A)"
    "peer_store A1 = peer_store A"
    using timeout_sync [OF assms(1,3,5) st(1) assms(9-11) f] unfolding assms(12) by blast
  have n: "(0 :: u32) \<le> 2" "(1 :: u32) \<le> 2" "(2 :: u32) \<le> 2" by simp_all
  obtain B1 where B1: "receive_skb E2 qb (udp_skb portA d2 c2 ipA (wire (Sync (own_ssrc A) 0 (now_of E1 A) x y))) B =
      Inr (B1, [Send qb (inet ipA portA, wire (Sync (own_ssrc B) 1 (now_of E1 A) (now_of E2 B) y))])"
    "session_ok B1" "session_frame B B1" "sync (driver B1) = 2" "rtp_session (driver B1) = rtp_session (driver B)"
    "peer_store B1 = peer_store B"
    using receive_sync [OF assms(2,4,6) st(2) _ n(1) assms(8), of qb portA d2 c2 ipA "now_of E1 A" x y]
    by (auto simp del: wire.simps own_ssrc_eq)
  have fA: "\<not> lock (driver A1)" "both_sockets A1 ca qa" "now_of E3 A1 = now_of E3 A" "own_ssrc A1 = own_ssrc A"
    using A1(3,5) assms(3,5) now_of_frame [of A1 A] session_okD(2) [OF assms(1)]
    by (simp_all add: session_frame_def both_sockets_def)
  have fB: "\<not> lock (driver B1)" "both_sockets B1 cb qb" "own_ssrc B1 = own_ssrc B"
    using B1(3,5) assms(4,6) by (simp_all add: session_frame_def both_sockets_def)
  obtain A2 where A2: "receive_skb E3 qa (udp_skb portB d3 c3 ipB (wire (Sync (own_ssrc B) 1 (now_of E1 A) (now_of E2 B) y))) A1 =
      Inr (A2, [Send qa (inet ipB portB, wire (Sync (own_ssrc A) 2 (now_of E1 A) (now_of E2 B) (now_of E3 A)))])"
    "session_frame A1 A2" "sync (driver A2) = 0" "rtp_session (driver A2) = rtp_session (driver A1)" "peer_store A2 = peer_store A1"
    using receive_sync [OF A1(2) fA(1,2) st(3) _ n(2), of qa "own_ssrc B" portB d3 c3 ipB "now_of E1 A" "now_of E2 B" y] assms(8)
    unfolding fA(3,4) by (auto simp del: wire.simps own_ssrc_eq)
  obtain B2 where B2: "receive_skb E4 qb (udp_skb portA d4 c4 ipA (wire (Sync (own_ssrc A) 2 (now_of E1 A) (now_of E2 B) (now_of E3 A)))) B1 =
      Inr (B2, [])"
    "session_frame B1 B2" "sync (driver B2) = 0" "rtp_session (driver B2) = rtp_session (driver B1)" "peer_store B2 = peer_store B1"
    using receive_sync [OF B1(2) fB(1,2) st(4) _ n(3), of qb "own_ssrc A" portA d4 c4 ipA "now_of E1 A" "now_of E2 B" "now_of E3 A"] assms(8)
    unfolding fB(3) by (auto simp del: wire.simps own_ssrc_eq)
  have "\<not> lock (driver A2)" "\<not> lock (driver B2)"
    using A2(2) B2(2) fA(1) fB(1) by (simp_all add: session_frame_def)
  moreover have "rtp_session (driver A2) = rtp_session (driver A)" "peer_store A2 = peer_store A"
    "rtp_session (driver B2) = rtp_session (driver B)" "peer_store B2 = peer_store B"
    using A1(5,6) A2(4,5) B1(5,6) B2(4,5) by simp_all
  ultimately show ?thesis
    using A1(1,4) B1(1,4) A2(1,3) B2(1,3) by (intro exI [of _ A1] exI [of _ B1] exI [of _ A2] exI [of _ B2] exI conjI)
qed


definition sample_other :: apple_state where
  "sample_other = update_driver (\<lambda>v. v\<lparr>rtp_session := (rtp_session v)\<lparr>self := \<lparr>ssrc = 5, addr_size = 16, addr = sample_addr\<rparr>\<rparr>\<rparr>) sample_apple"

lemma sample_other_ok [simp]: "session_ok sample_other" "both_sockets sample_other 11 12" "\<not> lock (driver sample_other)"
  "own_ssrc sample_other = 5" "own_ssrc sample_apple = 0xCAFE"
proof -
  have "peers_ok sample_other"
    using session_okD(1) [OF sample_apple_ok(1)]
    by (simp add: peers_ok_def sample_other_def table_ok_def members_def peer_list_def)
  then show "session_ok sample_other"
    by (rule session_ok_peers [OF sample_apple_ok(1)]) (simp_all add: sample_other_def)
qed (simp_all add: sample_other_def both_sockets_def sample_table_def sample_session_def)

lemma sample_next:
  "snd (next_peer (rtp_session (driver sample_apple)) (drv_peer (driver sample_apple))) = Some 40"
  "addr (address (sample_peer 3)) = inet 0xC0A80002 5004"
  by (simp_all add: next_peer_def first_peer_eq peer_list_def [symmetric] sample_peer_def sample_addr_def inet_def AF_INET_def)

lemma sample_timeout:
  "\<exists>s' x y. applemidi_idle_timeout sample_world sample_apple = Inr (s', [Timer_mod 1500,
      Send 12 (inet 0xC0A80002 5004, wire (Sync (own_ssrc sample_apple) 0 (now_of sample_world sample_apple) x y))])"
proof -
  have f: "sin_family (addr (address (sample_peer 3))) = AF_INET" "peer_store sample_apple 40 = Some (sample_peer 3)"
    by (simp_all add: sample_next(2) inet_def)
  show ?thesis
    using timeout_sync [OF sample_apple_ok(1) _ sample_apple_ok(2,3) _ sample_next(1) f(2,1)]
    unfolding sample_next(2) by (simp del: wire.simps own_ssrc_eq) blast
qed

lemma clock_sync_exchange_witness:
  "\<exists>A1 x y. applemidi_idle_timeout sample_world sample_apple =
    Inr (A1, [Timer_mod 1500, Send 12 (inet 0xC0A80002 5004, wire (Sync 0xCAFE 0 (now_of sample_world sample_apple) x y))])"
  using clock_sync_exchange [of sample_apple sample_other 11 12 11 12 sample_world sample_world sample_world sample_world 40 "sample_peer 3"]
    sample_next
  by (simp del: wire.simps own_ssrc_eq) blast

end
