(* ===== verification/Apple_Ending.thy ===== *)
theory Apple_Ending
  imports Apple_Protocol
begin

text \<open>
  The end of a session another host asks for: the peer is removed from the table and freed. The driver keeps a
  pointer to the peer it last compared clocks with, which the removal does not change.
\<close>

section \<open>The peer an SSRC names\<close>

lemma find_only_peer:
  assumes "table_ok session h" and "q \<in> members session" and "peer_ssrc h q = ss"
    and "\<And>p. p \<in> members session \<Longrightarrow> peer_ssrc h p = ss \<Longrightarrow> p = q"
  shows "RTPSessionFindPeerBySSRC session ss h = Inr (0, Some q)"
  using assms(1)
proof (cases rule: find_peer_cases [where s = ss])
  case (found p)
  then show ?thesis using assms(4) by blast
next
  case missing
  then show ?thesis using assms(2,3) by blast
qed

lemma find_none:
  assumes "table_ok session h" and "\<And>p. p \<in> members session \<Longrightarrow> peer_ssrc h p \<noteq> ss"
  shows "RTPSessionFindPeerBySSRC session ss h = Inr (1, None)"
  using assms(1)
proof (cases rule: find_peer_cases [where s = ss])
  case (found p)
  then show ?thesis using assms(2) by blast
qed

text \<open>A message that ends a session, decoded in a well-formed state.\<close>

lemma receive_ending:
  assumes "session_ok s" and "\<not> lock (driver s)" and "stack_ok E" and "sendable_view (Session APPLEMIDI_COMMAND_ENDSESSION version tok ss name)"
  shows "\<exists>u. session_ok u \<and> session_frame (set_lock True s) u \<and> rtp_session (driver u) = rtp_session (driver s) \<and> peer_store u = peer_store s \<and>
    drv_peer (driver u) = drv_peer (driver s) \<and> sync (driver u) = sync (driver s) \<and>
    receive_skb E sk (udp_skb port dport checksum src (wire (Session APPLEMIDI_COMMAND_ENDSESSION version tok ss name))) s =
      bind_res (RTPSessionFindPeerBySSRC (rtp_session (driver u)) ss (peer_store u)) (\<lambda>(r, peer).
        case peer of
          None \<Rightarrow> Inr (set_lock False u, [])
        | Some p \<Rightarrow> bind_res (RTPSessionRemovePeer (rtp_session (driver u)) p (peer_store u)) (\<lambda>(r, rtp, h).
            Inr (set_lock False (update_driver (\<lambda>v. v\<lparr>rtp_session := rtp\<rparr>) (u\<lparr>peer_store := h\<rparr>)), [])))"
proof -
  have st: "length (stack_recv E) = 64" using assms(3) by (simp add: stack_ok_def)
  note ok = session_okD [OF assms(1)]
  obtain c where c: "cmd_type c = APPLEMIDI_COMMAND_ENDSESSION" "session_ssrc (cmd_data c) = ss" "length (cmd_data c) = DATA_SIZE"
    and recv: "receive_skb E sk (udp_skb port dport checksum src (wire (Session APPLEMIDI_COMMAND_ENDSESSION version tok ss name))) s =
      bind_res (map_sum id snd (applemidi_respond E sk (update_driver (\<lambda>v. v\<lparr>command := c\<rparr>) (set_lock True s))))
        (\<lambda>(s, out). Inr (set_lock False s, out))"
    using receive_session [OF assms(4) ok(4) st assms(2)] by metis
  let ?u = "update_driver (\<lambda>v. v\<lparr>command := c\<rparr>) (set_lock True s)"
  have "session_ok ?u" using c(3) ok(5) by (intro session_okI [OF assms(1)]) (simp_all add: driver_ops)
  moreover have "session_frame (set_lock True s) ?u" by (simp add: session_frame_refl)
  moreover have "applemidi_respond E sk ?u =
      bind_res (RTPSessionFindPeerBySSRC (rtp_session (driver ?u)) ss (peer_store ?u)) (\<lambda>(r, peer).
        case peer of
          None \<Rightarrow> Inr (0, ?u, [])
        | Some p \<Rightarrow> bind_res (RTPSessionRemovePeer (rtp_session (driver ?u)) p (peer_store ?u)) (\<lambda>(r, rtp, h).
            Inr (0, update_driver (\<lambda>v. v\<lparr>rtp_session := rtp\<rparr>) (?u\<lparr>peer_store := h\<rparr>), [])))"
    using c by (simp add: applemidi_respond_def Let_def commands_differ cong: option.case_cong)
  then have "bind_res (map_sum id snd (applemidi_respond E sk ?u)) (\<lambda>(s, out). Inr (set_lock False s, out)) =
      bind_res (RTPSessionFindPeerBySSRC (rtp_session (driver ?u)) ss (peer_store ?u)) (\<lambda>(r, peer).
        case peer of
          None \<Rightarrow> Inr (set_lock False ?u, [])
        | Some p \<Rightarrow> bind_res (RTPSessionRemovePeer (rtp_session (driver ?u)) p (peer_store ?u)) (\<lambda>(r, rtp, h).
            Inr (set_lock False (update_driver (\<lambda>v. v\<lparr>rtp_session := rtp\<rparr>) (?u\<lparr>peer_store := h\<rparr>)), [])))"
    by (auto simp: bind_res_def split: sum.splits prod.splits option.splits)
  ultimately show ?thesis using recv by (intro exI [of _ ?u]) (simp add: driver_ops)
qed

text \<open>The peer with the SSRC of the message is removed from the table and freed.\<close>

lemma remove_named:
  assumes "session_ok u" and "q \<in> members (rtp_session (driver u))"
    and "\<And>p. p \<in> members (rtp_session (driver u)) \<Longrightarrow> peer_ssrc (peer_store u) p = ss \<longleftrightarrow> p = q"
  shows "\<exists>rtp. bind_res (RTPSessionFindPeerBySSRC (rtp_session (driver u)) ss (peer_store u)) (\<lambda>(r, peer).
        case peer of
          None \<Rightarrow> Inr (set_lock False u, [])
        | Some p \<Rightarrow> bind_res (RTPSessionRemovePeer (rtp_session (driver u)) p (peer_store u)) (\<lambda>(r, rtp, h).
            Inr (set_lock False (update_driver (\<lambda>v. v\<lparr>rtp_session := rtp\<rparr>) (u\<lparr>peer_store := h\<rparr>)), []))) =
      Inr (set_lock False (removed_peer rtp q u), []) \<and>
    keeps u (removed_peer rtp q u) [] \<and> members rtp = members (rtp_session (driver u)) - {q}"
proof -
  note ok = session_okD [OF assms(1)]
  have find: "RTPSessionFindPeerBySSRC (rtp_session (driver u)) ss (peer_store u) = Inr (0, Some q)"
    using assms(2,3) by (intro find_only_peer [OF ok(6)]) auto
  obtain rtp where rtp: "RTPSessionRemovePeer (rtp_session (driver u)) q (peer_store u) = Inr (0, rtp, (peer_store u)(q := None))"
    "\<exists>ps. rtp = (rtp_session (driver u))\<lparr>peers := ps\<rparr>" "peers_ok (removed_peer rtp q u)"
    "members rtp = members (rtp_session (driver u)) - {q}"
    using ok(1) assms(2) by (rule remove_member)
  then show ?thesis
    unfolding find using removed_keeps [OF assms(1) rtp(3,2)] by (intro exI [of _ rtp]) (simp add: removed_peer_def)
qed

lemma session_end_result:
  assumes "session_ok s" and "\<not> lock (driver s)" and "stack_ok E" and "sendable_view (Session APPLEMIDI_COMMAND_ENDSESSION version tok ss name)"
    and "\<And>p. p \<in> members (rtp_session (driver s)) \<Longrightarrow> peer_ssrc (peer_store s) p = ss \<longleftrightarrow> found = Some p"
    and "\<And>p. found = Some p \<Longrightarrow> p \<in> members (rtp_session (driver s))"
  shows "\<exists>s'. receive_skb E sk (udp_skb port dport checksum src (wire (Session APPLEMIDI_COMMAND_ENDSESSION version tok ss name))) s =
      Inr (s', []) \<and>
    members (rtp_session (driver s')) = members (rtp_session (driver s)) - set_option found \<and>
    peer_store s' = peer_store s |` (- set_option found) \<and> drv_peer (driver s') = drv_peer (driver s) \<and>
    sync (driver s') = sync (driver s) \<and> session_ok s' \<and> session_frame s s' \<and> \<not> lock (driver s')"
proof -
  obtain u where u: "session_ok u" "session_frame (set_lock True s) u" "rtp_session (driver u) = rtp_session (driver s)"
    "peer_store u = peer_store s" "drv_peer (driver u) = drv_peer (driver s)" "sync (driver u) = sync (driver s)"
    and recv: "receive_skb E sk (udp_skb port dport checksum src (wire (Session APPLEMIDI_COMMAND_ENDSESSION version tok ss name))) s =
      bind_res (RTPSessionFindPeerBySSRC (rtp_session (driver u)) ss (peer_store u)) (\<lambda>(r, peer).
        case peer of
          None \<Rightarrow> Inr (set_lock False u, [])
        | Some p \<Rightarrow> bind_res (RTPSessionRemovePeer (rtp_session (driver u)) p (peer_store u)) (\<lambda>(r, rtp, h).
            Inr (set_lock False (update_driver (\<lambda>v. v\<lparr>rtp_session := rtp\<rparr>) (u\<lparr>peer_store := h\<rparr>)), [])))"
    using receive_ending [OF assms(1-4)] by blast
  have frame: "session_frame s (set_lock False w) \<and> \<not> lock (driver (set_lock False w)) \<and> session_ok (set_lock False w)"
    if "keeps u w []" for w
  proof -
    have w: "session_frame u w" "session_ok w" using that by (simp_all add: keeps_def)
    from session_frame_lock [OF session_frame_trans [OF u(2) w(1)]] session_ok_lock [OF w(2)] assms(2)
    show ?thesis by (simp add: driver_ops)
  qed
  show ?thesis
  proof (cases found)
    case None
    then have "RTPSessionFindPeerBySSRC (rtp_session (driver u)) ss (peer_store u) = Inr (1, None)"
      using find_none assms(5) u(3,4) session_okD(6) [OF u(1)] by simp
    moreover have "peer_store s |` UNIV = peer_store s" by (rule ext) simp
    ultimately show ?thesis
      using recv None u(3-6) frame [OF keeps_self [OF u(1)]] by (auto simp: driver_ops)
  next
    case (Some q)
    have q: "q \<in> members (rtp_session (driver u))" using assms(6) Some u(3) by simp
    have only: "\<And>p. p \<in> members (rtp_session (driver u)) \<Longrightarrow> peer_ssrc (peer_store u) p = ss \<longleftrightarrow> p = q"
      using assms(5) Some u(3,4) by auto
    obtain rtp where recv': "receive_skb E sk (udp_skb port dport checksum src (wire (Session APPLEMIDI_COMMAND_ENDSESSION version tok ss name))) s =
        Inr (set_lock False (removed_peer rtp q u), [])"
      and rtp: "keeps u (removed_peer rtp q u) []" "members rtp = members (rtp_session (driver u)) - {q}"
      unfolding recv using remove_named [OF u(1) q only] by blast
    have "(peer_store s)(q := None) = peer_store s |` (- {q})" by (auto simp: restrict_map_def)
    moreover have "rtp_session (driver (removed_peer rtp q u)) = rtp" "peer_store (removed_peer rtp q u) = (peer_store s)(q := None)"
      "drv_peer (driver (removed_peer rtp q u)) = drv_peer (driver s)" "sync (driver (removed_peer rtp q u)) = sync (driver s)"
      using u(4-6) by (simp_all add: removed_peer_def)
    ultimately show ?thesis
      using frame [OF rtp(1)] rtp(2) u(3) Some
      by (intro exI [of _ "set_lock False (removed_peer rtp q u)"] conjI recv') (simp_all add: driver_ops)
  qed
qed


section \<open>Sessions the driver ends\<close>

lemma string_ends:
  assumes "k < length s" and "s ! k = 0"
  shows "length (takeWhile (\<lambda>b. b \<noteq> 0) s) \<le> k"
proof (rule ccontr)
  assume n: "\<not> length (takeWhile (\<lambda>b. b \<noteq> 0) s) \<le> k"
  then have "takeWhile (\<lambda>b. b \<noteq> 0) s ! k = s ! k" by (simp add: takeWhile_nth)
  moreover have "takeWhile (\<lambda>b. b \<noteq> 0) s ! k \<in> set (takeWhile (\<lambda>b. b \<noteq> 0) s)" using n by (intro nth_mem) simp
  ultimately show False using set_takeWhileD assms(2) by fastforce
qed

text \<open>A command whose name ends before its 48th character can be sent, to any address.\<close>

lemma session_sendable:
  assumes "session_command (cmd_type c)" and "length (cmd_data c) = DATA_SIZE" and "cmd_data c ! 59 = 0"
  obtains v where "command_view c = Some v" and "sendable_view v"
proof -
  have "session_name (cmd_data c) ! 47 = 0" using assms(2,3) by (simp add: session_name_def DATA_SIZE_def NAME_SIZE_def)
  then have "length (takeWhile (\<lambda>b. b \<noteq> 0) (session_name (cmd_data c))) \<le> 47"
    using assms(2) by (intro string_ends) (simp_all add: NAME_SIZE_def)
  then show thesis using assms(1) by (intro that) (auto simp: command_view_def Let_def dest: set_takeWhileD)
qed

lemma transmit_total:
  assumes "command_view (command (driver s)) = Some v" and "sendable_view v"
    and "length (cmd_data (command (driver s))) = DATA_SIZE" and "length (stack_send E) = 64"
    and "control_socket (driver s) = Some c" and "sk = c \<or> rtp_socket (driver s) \<noteq> None"
  shows "\<exists>r out. transmit E sk s = Inr (r, s, out)"
  using build_command_wire [OF assms(1-4)] assms(5,6)
  by (auto simp: transmit_def send_command_def Let_def)

lemma name_array:
  assumes "name_ok s"
  obtains a where "strncpy (drv_name (driver s)) NAME_SIZE = Inr a" and "length a = NAME_SIZE" and "a ! 47 = 0"
proof -
  let ?n = "drv_name (driver s)" and ?k = "length (takeWhile (\<lambda>c. c \<noteq> 0) (drv_name (driver s)))"
  have n: "0 \<in> set ?n" "length ?n = 32" using assms by (simp_all add: name_ok_def)
  then have "?k \<le> 32" using length_takeWhile_le [of "\<lambda>c. c \<noteq> 0" ?n] by simp
  then show thesis using n
    by (intro that [of "take NAME_SIZE (take ?k ?n @ replicate NAME_SIZE 0)"])
       (simp_all add: strncpy_def strlen_def NAME_SIZE_def nth_append)
qed

lemma endsession_total:
  assumes "session_ok s" and "control_socket (driver s) = Some c" and "length (stack_send E) = 64"
  shows "\<exists>r s' out. applemidi_endsession E c 16 a s = Inr (r, s', out) \<and> keeps s s' out \<and>
    rtp_session (driver s') = rtp_session (driver s) \<and> peer_store s' = peer_store s"
proof -
  let ?c = "command (driver s)"
  note ok = session_okD [OF assms(1)]
  obtain n where n: "strncpy (drv_name (driver s)) NAME_SIZE = Inr n" "length n = NAME_SIZE" "n ! 47 = 0"
    using ok(3) by (rule name_array)
  let ?s = "update_driver (\<lambda>v. v\<lparr>command := ?c\<lparr>cmd_addr := a, cmd_size := 16\<rparr>\<rparr>) s"
  let ?d = "put32 8 (own_ssrc s) (put32 4 (token (driver s)) (put32 0 2 (cmd_data ?c)))"
  let ?d' = "overlay ?d 12 n"
  let ?u = "set_command APPLEMIDI_COMMAND_ENDSESSION ?d' ?s"
  have l: "length ?d = 80" using ok(4) by (simp add: DATA_SIZE_def)
  then have d: "length ?d' = DATA_SIZE" "?d' ! 59 = 0"
    using n(2,3) by (simp_all add: DATA_SIZE_def NAME_SIZE_def overlay_def nth_append)
  have t: "session_command APPLEMIDI_COMMAND_ENDSESSION" by (simp add: session_command_def)
  obtain v where "command_view (command (driver ?u)) = Some v" "sendable_view v"
    using session_sendable [of "command (driver ?u)"] d t by (auto simp: driver_ops)
  then obtain r out where "transmit E c ?u = Inr (r, ?u, out)"
    using transmit_total [of ?u v E c c] d assms(2,3) by (auto simp: driver_ops)
  moreover have "keeps s ?u []"
    using d ok(5) by (auto simp: keeps_def driver_ops session_frame_refl intro!: session_okI [OF assms(1)])
  ultimately show ?thesis
    using keeps_transmit n(1) by (fastforce simp: applemidi_endsession_def Let_def driver_ops)
qed

lemma disconnect_peer_total:
  assumes "session_ok s" and "control_socket (driver s) = Some c" and "length (stack_send E) = 64"
    and "q \<in> members (rtp_session (driver s))"
  shows "\<exists>r s' out. applemidi_disconnect_peer E q s = Inr (r, s', out) \<and> keeps s s' out \<and>
    members (rtp_session (driver s')) = members (rtp_session (driver s)) - {q}"
proof -
  note ok = session_okD [OF assms(1)]
  obtain p where p: "peer_store s q = Some p" "addr_size (address p) = 16"
    using ok(1) assms(4) by (rule peers_ok_peer)
  obtain r u out where u: "applemidi_endsession E c 16 (stack_addr E) s = Inr (r, u, out)" "keeps s u out"
    "rtp_session (driver u) = rtp_session (driver s)" "peer_store u = peer_store s"
    using endsession_total [OF assms(1-3)] by blast
  have uk: "session_ok u" "q \<in> members (rtp_session (driver u))" using u(2,3) assms(4) by (simp_all add: keeps_def)
  obtain rtp where rtp: "RTPSessionRemovePeer (rtp_session (driver u)) q (peer_store u) = Inr (0, rtp, (peer_store u)(q := None))"
    "\<exists>ps. rtp = (rtp_session (driver u))\<lparr>peers := ps\<rparr>" "peers_ok (removed_peer rtp q u)"
    "members rtp = members (rtp_session (driver u)) - {q}"
    using session_okD(1) [OF uk(1)] uk(2) by (rule remove_member)
  have "applemidi_disconnect_peer E q s = Inr (r, removed_peer rtp q u, out)"
    using p u(1) rtp(1) assms(2)
    by (simp add: applemidi_disconnect_peer_def RTPPeerGetAddress_def get_peer_def removed_peer_def)
  moreover have "keeps s (removed_peer rtp q u) out"
    using keeps_trans [OF u(2) removed_keeps [OF uk(1) rtp(3,2)]] by simp
  ultimately show ?thesis using rtp(4) u(3) by (auto simp: removed_peer_def)
qed

lemma members_bounded:
  assumes "session_ok s"
  shows "card (members (rtp_session (driver s))) \<le> RTP_MAX_PEERS"
proof -
  have "card (members (rtp_session (driver s))) \<le> length (peer_list (rtp_session (driver s)))"
    unfolding members_def by (rule card_length)
  also have "... \<le> length (peers (rtp_session (driver s)))" unfolding peer_list_def by (rule length_occupied)
  finally show ?thesis using session_okD(6) [OF assms] by (simp add: table_ok_def)
qed

lemma disconnect_peers_total:
  assumes "session_ok s" and "members (rtp_session (driver s)) = {} \<or> control_socket (driver s) = Some c" and "length (stack_send E) = 64"
    and "card (members (rtp_session (driver s))) \<le> n"
  shows "\<exists>s' out. disconnect_peers n E s = Inr (s', out) \<and> keeps s s' out \<and> members (rtp_session (driver s')) = {}"
  using assms
proof (induction n arbitrary: s)
  case 0
  then have "members (rtp_session (driver s)) = {}" by (simp add: members_def)
  then have "snd (next_peer (rtp_session (driver s)) None) = None"
    by (simp add: next_peer_def first_peer_eq members_def peer_list_def [symmetric])
  then show ?case using 0 keeps_self \<open>members (rtp_session (driver s)) = {}\<close> by simp
next
  case (Suc n)
  show ?case
  proof (cases "peer_list (rtp_session (driver s))")
    case Nil
    then have "snd (next_peer (rtp_session (driver s)) None) = None" "members (rtp_session (driver s)) = {}"
      by (simp_all add: next_peer_def first_peer_eq members_def peer_list_def [symmetric])
    then show ?thesis using Suc.prems(1) keeps_self by simp
  next
    case (Cons q qs)
    then have q: "snd (next_peer (rtp_session (driver s)) None) = Some q" "q \<in> members (rtp_session (driver s))"
      by (simp_all add: next_peer_def first_peer_eq members_def peer_list_def [symmetric])
    then have c: "control_socket (driver s) = Some c" using Suc.prems(2) by auto
    obtain r u out where u: "applemidi_disconnect_peer E q s = Inr (r, u, out)" "keeps s u out"
      "members (rtp_session (driver u)) = members (rtp_session (driver s)) - {q}"
      using disconnect_peer_total [OF Suc.prems(1) c Suc.prems(3) q(2)] by blast
    have "finite (members (rtp_session (driver s)))" by (simp add: members_def)
    then have "card (members (rtp_session (driver u))) \<le> n" using u(3) q(2) Suc.prems(4) by simp
    moreover have "session_ok u" "control_socket (driver u) = Some c"
      using u(2) c by (simp_all add: keeps_def session_frame_def)
    ultimately obtain s' out' where "disconnect_peers n E u = Inr (s', out')" "keeps u s' out'" "members (rtp_session (driver s')) = {}"
      using Suc.IH [of u] Suc.prems(3) by blast
    then show ?thesis using u(1) q(1) keeps_trans [OF u(2)] by (simp add: exI)
  qed
qed

lemma disconnect_result:
  assumes "session_ok s" and "control_socket (driver s) \<noteq> None \<or> members (rtp_session (driver s)) = {}"
    and "length (stack_send E) = 64"
  shows "\<exists>s' out. applemidi_disconnect RTP_MAX_PEERS E None s = Inr (0, s', out) \<and>
    members (rtp_session (driver s')) = {} \<and> peer_store s' = Map.empty \<and>
    control_socket (driver s') = None \<and> rtp_socket (driver s') = None \<and>
    (\<forall>x. held x out = held x (release_socket (control_socket (driver s)) @ release_socket (rtp_socket (driver s)))) \<and>
    session_ok s' \<and> mem s' = mem s \<and> clocks s' = clocks s \<and> base (driver s') = base (driver s) \<and>
    rtpmidi_session (driver s') = rtpmidi_session (driver s) \<and>
    (\<exists>ps. rtp_session (driver s') = (rtp_session (driver s))\<lparr>peers := ps\<rparr>)"
proof -
  obtain u out where u: "disconnect_peers RTP_MAX_PEERS E s = Inr (u, out)" "keeps s u out" "members (rtp_session (driver u)) = {}"
    using disconnect_peers_total [OF assms(1) _ assms(3) members_bounded [OF assms(1)]] assms(2) by blast
  have f: "session_ok u" "quiet out" "control_socket (driver u) = control_socket (driver s)" "rtp_socket (driver u) = rtp_socket (driver s)"
    "mem u = mem s" "clocks u = clocks s" "base (driver u) = base (driver s)" "rtpmidi_session (driver u) = rtpmidi_session (driver s)"
    "\<exists>ps. rtp_session (driver u) = (rtp_session (driver s))\<lparr>peers := ps\<rparr>"
    using u(2) by (simp_all add: keeps_def session_frame_def)
  let ?s' = "update_driver (\<lambda>v. v\<lparr>control_socket := None, rtp_socket := None\<rparr>) u"
  have "applemidi_disconnect RTP_MAX_PEERS E None s =
      Inr (0, ?s', out @ release_socket (control_socket (driver s)) @ release_socket (rtp_socket (driver s)))"
    using u(1) f(3,4) by (simp add: applemidi_disconnect_def update_driver_def)
  moreover have "session_ok ?s'" using session_okD(4,5) [OF f(1)] by (intro session_okI [OF f(1)]) simp_all
  moreover have "peer_store u = Map.empty" using session_okD(1) [OF f(1)] u(3) by (simp add: peers_ok_def)
  ultimately show ?thesis using u(3) f by (intro exI [of _ ?s']
        exI [of _ "out @ release_socket (control_socket (driver s)) @ release_socket (rtp_socket (driver s))"]) (simp add: quiet_def)
qed

section \<open>Properties\<close>

text \<open>
  C27. The end of a session: when the SSRC of an end-of-session message names one peer of the table, this peer and no
  other is removed and freed, with any name in the message or none; when it names none, the peers stay as they are.
  Nothing is answered, the state stays well-formed and the lock is free again.
\<close>

theorem session_ended_by_peer:
  assumes "session_ok s" and "\<not> lock (driver s)" and "stack_ok E" and "sendable_view (Session APPLEMIDI_COMMAND_ENDSESSION version tok ss name)"
    and "\<And>p. p \<in> members (rtp_session (driver s)) \<Longrightarrow> peer_ssrc (peer_store s) p = ss \<longleftrightarrow> found = Some p"
    and "\<And>p. found = Some p \<Longrightarrow> p \<in> members (rtp_session (driver s))"
  shows "\<exists>s'. receive_skb E sk (udp_skb port dport checksum src (wire (Session APPLEMIDI_COMMAND_ENDSESSION version tok ss name))) s =
      Inr (s', []) \<and>
    members (rtp_session (driver s')) = members (rtp_session (driver s)) - set_option found \<and>
    peer_store s' = peer_store s |` (- set_option found) \<and> drv_peer (driver s') = drv_peer (driver s) \<and>
    sync (driver s') = sync (driver s) \<and> session_ok s' \<and> session_frame s s' \<and> \<not> lock (driver s')"
  using assms by (rule session_end_result)

lemma sample_ssrc: "p \<in> members sample_table \<Longrightarrow> peer_ssrc sample_heap p = 3 \<longleftrightarrow> p = 40"
  by (auto simp: peer_ssrc_def sample_peer_def)

lemma session_ended_by_peer_witness:
  "\<exists>s'. receive_skb sample_world 11 (udp_skb 5008 5008 0 7 (wire (Session APPLEMIDI_COMMAND_ENDSESSION 2 99 3 []))) sample_apple =
      Inr (s', []) \<and> members (rtp_session (driver s')) = {41} \<and> session_ok s'"
  using session_ended_by_peer [of sample_apple sample_world 2 99 3 "[]" "Some 40" 11 5008 5008 0 7]
  by (auto simp: sample_ssrc session_command_def simp del: wire.simps sample_table_simps(2)) auto

text \<open>
  C19. A peer that is used after it was freed: when the peer the driver last compared clocks with ends its session and
  no exchange is under way, the next run of the timer reads the address of this peer, which is no longer there.
\<close>

theorem ended_peer_used:
  assumes "session_ok s" and "\<not> lock (driver s)" and "stack_ok E" and "sendable_view (Session APPLEMIDI_COMMAND_ENDSESSION version tok ss name)"
    and "\<And>p. p \<in> members (rtp_session (driver s)) \<Longrightarrow> peer_ssrc (peer_store s) p = ss \<longleftrightarrow> p = q"
    and "q \<in> members (rtp_session (driver s))" and "drv_peer (driver s) = Some q" and "sync (driver s) = 0"
  shows "\<exists>s'. receive_skb E sk (udp_skb port dport checksum src (wire (Session APPLEMIDI_COMMAND_ENDSESSION version tok ss name))) s =
      Inr (s', []) \<and> applemidi_idle_timeout E' s' = Inl Use_after_free"
proof -
  have only: "\<And>p. p \<in> members (rtp_session (driver s)) \<Longrightarrow> peer_ssrc (peer_store s) p = ss \<longleftrightarrow> Some q = Some p"
    using assms(5) by auto
  have q: "\<And>p. Some q = Some p \<Longrightarrow> p \<in> members (rtp_session (driver s))" using assms(6) by simp
  obtain s' where s': "receive_skb E sk (udp_skb port dport checksum src (wire (Session APPLEMIDI_COMMAND_ENDSESSION version tok ss name))) s = Inr (s', [])"
    "members (rtp_session (driver s')) = members (rtp_session (driver s)) - {q}" "peer_store s' q = None"
    "drv_peer (driver s') = Some q" "sync (driver s') = 0" "\<not> lock (driver s')"
    using session_end_result [OF assms(1-4) only q, of sk port dport checksum src] assms(7,8) by (auto simp del: wire.simps)
  have "next_peer (rtp_session (driver s')) (Some q) = (1, Some q)" using s'(2) by (intro next_peer_stale) simp
  then have "applemidi_idle_timeout E' s' = Inl Use_after_free"
    using s'(3-6) by (simp add: applemidi_idle_timeout_def Let_def driver_ops RTPPeerGetAddress_def get_peer_def)
  with s'(1) show ?thesis by blast
qed

lemma ended_peer_used_witness:
  "\<exists>s'. receive_skb sample_world 11 (udp_skb 5008 5008 0 7 (wire (Session APPLEMIDI_COMMAND_ENDSESSION 2 99 3 [])))
      (update_driver (\<lambda>v. v\<lparr>drv_peer := Some 40\<rparr>) sample_apple) = Inr (s', []) \<and>
    applemidi_idle_timeout sample_world s' = Inl Use_after_free"
proof -
  let ?s = "update_driver (\<lambda>v. v\<lparr>drv_peer := Some 40\<rparr>) sample_apple"
  have "session_ok ?s" using keeps_peer [OF sample_apple_ok(1)] by (simp add: keeps_def)
  then show ?thesis
    using ended_peer_used [of ?s sample_world 2 99 3 "[]" 40 11 5008 5008 0 7 sample_world]
    by (simp add: sample_ssrc session_command_def del: wire.simps sample_table_simps(2)) auto
qed

text \<open>
  C26. Leaving: whatever address the end-of-session messages go to, the loop over the peers ends after at most sixteen rounds, with
  every peer removed and freed; then both sockets are released, each once, and the driver has none. The code is 0.
\<close>

theorem disconnect_ends_all:
  assumes "session_ok s" and "control_socket (driver s) \<noteq> None \<or> members (rtp_session (driver s)) = {}"
    and "length (stack_send E) = 64"
  shows "\<exists>s' out. applemidi_disconnect RTP_MAX_PEERS E None s = Inr (0, s', out) \<and>
    members (rtp_session (driver s')) = {} \<and> peer_store s' = Map.empty \<and>
    control_socket (driver s') = None \<and> rtp_socket (driver s') = None \<and>
    held x out = held x (release_socket (control_socket (driver s)) @ release_socket (rtp_socket (driver s)))"
  using disconnect_result [OF assms] by blast

lemma disconnect_ends_all_witness:
  "\<exists>s' out. applemidi_disconnect RTP_MAX_PEERS sample_world None sample_apple = Inr (0, s', out) \<and> peer_store s' = Map.empty \<and>
    held (Socket 11) out = - 1"
  using disconnect_ends_all [OF sample_apple_ok(1), of sample_world "Socket 11"] sample_apple_ok(3)
  by (auto simp: stack_ok_def release_socket_def held_Cons)


section \<open>The timer while the driver is being destroyed\<close>

text \<open>What the end of all sessions leaves alone: the lock, the state of the exchange of clocks and its peer.\<close>

definition exchange :: "apple_state \<Rightarrow> bool \<times> u8 \<times> peer_ptr option" where
  "exchange s = (lock (driver s), sync (driver s), drv_peer (driver s))"

lemma exchange_update [simp]:
  "exchange (set_command t d s) = exchange s"
  "exchange (update_driver (\<lambda>v. v\<lparr>command := c\<rparr>) s) = exchange s"
  "exchange (update_driver (\<lambda>v. v\<lparr>rtp_session := rtp\<rparr>) (s\<lparr>peer_store := h\<rparr>)) = exchange s"
  "exchange (update_driver (\<lambda>v. v\<lparr>control_socket := x\<rparr>) s) = exchange s"
  "exchange (update_driver (\<lambda>v. v\<lparr>rtp_socket := y\<rparr>) s) = exchange s"
  by (simp_all add: exchange_def driver_ops)

lemma endsession_exchange: "applemidi_endsession E sk n a s = Inr (r, s', out) \<Longrightarrow> exchange s' = exchange s"
  by (auto simp: applemidi_endsession_def Let_def elim!: bind_res_eq_InrE dest!: transmit_state)

lemma disconnect_peer_exchange: "applemidi_disconnect_peer E q s = Inr (r, s', out) \<Longrightarrow> exchange s' = exchange s"
  by (auto simp: applemidi_disconnect_peer_def split: option.splits elim!: bind_res_eq_InrE dest!: endsession_exchange)

lemma disconnect_peers_exchange: "disconnect_peers n E s = Inr (s', out) \<Longrightarrow> exchange s' = exchange s"
  by (induction n arbitrary: s out)
    (auto split: option.splits elim!: bind_res_eq_InrE dest!: disconnect_peer_exchange)

lemma disconnect_exchange: "applemidi_disconnect n E so s = Inr (r, s', out) \<Longrightarrow> exchange s' = exchange s"
  by (auto simp: applemidi_disconnect_def Let_def simp del: disconnect_peers.simps split: if_splits elim!: bind_res_eq_InrE dest!: disconnect_peers_exchange)

text \<open>
  C20. The timer while the driver is destroyed: the sessions are ended first and the timer is deleted last, so it may still run
  in between. The end of the sessions leaves the driver the peer of its last exchange of clocks, and this peer is freed. If there was one and no
  exchange is under way, a run of the timer after the end of the sessions uses the freed peer; if there was none, it returns and
  only starts itself again.
\<close>

theorem timer_after_disconnect:
  assumes "session_ok s" and "\<not> lock (driver s)" and "control_socket (driver s) \<noteq> None \<or> members (rtp_session (driver s)) = {}"
    and "length (stack_send E) = 64" and "sync (driver s) = 0"
  shows "\<exists>s' out. applemidi_disconnect RTP_MAX_PEERS E None s = Inr (0, s', out) \<and>
    (if drv_peer (driver s) = None then \<exists>s2. applemidi_idle_timeout E' s' = Inr (s2, [Timer_mod 1500])
     else applemidi_idle_timeout E' s' = Inl Use_after_free)"
proof -
  obtain s' out where d: "applemidi_disconnect RTP_MAX_PEERS E None s = Inr (0, s', out)" "members (rtp_session (driver s')) = {}"
    "peer_store s' = Map.empty" using disconnect_result [OF assms(1,3,4)] by blast
  have e: "lock (driver s') = lock (driver s)" "sync (driver s') = 0" "drv_peer (driver s') = drv_peer (driver s)"
    using disconnect_exchange [OF d(1)] assms(5) by (simp_all add: exchange_def)
  have "snd (next_peer (rtp_session (driver s')) (drv_peer (driver s))) = drv_peer (driver s)"
    using d(2) next_peer_stale [of _ "rtp_session (driver s')"]
    by (cases "drv_peer (driver s)") (simp_all add: next_peer_start members_def)
  then have "(if drv_peer (driver s) = None then \<exists>s2. applemidi_idle_timeout E' s' = Inr (s2, [Timer_mod 1500])
     else applemidi_idle_timeout E' s' = Inl Use_after_free)"
    using d(3) e assms(2) by (cases "drv_peer (driver s)")
      (simp_all add: applemidi_idle_timeout_def Let_def driver_ops RTPPeerGetAddress_def get_peer_def)
  with d(1) show ?thesis by blast
qed

lemma timer_after_disconnect_witness:
  "\<exists>s' out. applemidi_disconnect RTP_MAX_PEERS sample_world None (update_driver (\<lambda>v. v\<lparr>drv_peer := Some 40\<rparr>) sample_apple) = Inr (0, s', out) \<and>
    applemidi_idle_timeout sample_world s' = Inl Use_after_free"
proof -
  let ?s = "update_driver (\<lambda>v. v\<lparr>drv_peer := Some 40\<rparr>) sample_apple"
  have "session_ok ?s" using keeps_peer [OF sample_apple_ok(1)] by (simp add: keeps_def)
  then show ?thesis
    using timer_after_disconnect [of ?s sample_world sample_world] sample_apple_ok(3) by (auto simp: stack_ok_def)
qed

end
