(* ===== verification/Apple_Notes.thy ===== *)
theory Apple_Notes
  imports Apple_Ending
begin

text \<open>
  The input callback of the ALSA port (\<open>applemidi/alsa.c\<close>): a note event becomes a MIDI message that is sent to
  every peer, under the lock of the driver. Its private object has the driver, the message and a list with this
  one message. The loop over the peers gets the fuel that is enough for a table of \<open>RTP_MAX_PEERS\<close> slots.
\<close>

section \<open>The callback\<close>

definition SND_SEQ_EVENT_NOTEON :: u8 where "SND_SEQ_EVENT_NOTEON = 6"
definition SND_SEQ_EVENT_NOTEOFF :: u8 where "SND_SEQ_EVENT_NOTEOFF = 7"

lemmas event_types = SND_SEQ_EVENT_NOTEON_def SND_SEQ_EVENT_NOTEOFF_def

record alsa_event =
  ev_type :: u8
  ev_channel :: u8
  ev_note :: u8
  ev_velocity :: u8

text \<open>A spinlock that is held is waited for; here nobody else gives it back, so the call does not return.\<close>

definition send_note :: "apple_env \<Rightarrow> ALSADriver \<Rightarrow> MIDIMessage \<Rightarrow> apple_state \<Rightarrow> (apple_state \<times> acall list) res" where
  "send_note E alsa msg s =
     (let s = update_driver (\<lambda>v. v\<lparr>base := (base v)\<lparr>base_port := Some (alsa\<lparr>alsa_msg := msg\<rparr>)\<rparr>\<rparr>) s;
          rtp = rtp_session (driver s)
      in bind_res (deref (rtpmidi_session (driver s))) (\<lambda>session.
         bind_res (returned (RTPMIDISessionSend (RTP_MAX_PEERS + 1) (stack_w E) (network E) rtp
             session [Some msg] (peer_store s) (mem s))) (\<lambda>(r, ms, h, m, out).
           Inr (update_driver (\<lambda>v. v\<lparr>rtpmidi_session := Some ms, lock := False\<rparr>) (s\<lparr>peer_store := h, mem := m\<rparr>),
                map (Send (the (socket rtp))) out))))"

definition alsa_input :: "apple_env \<Rightarrow> alsa_event \<Rightarrow> apple_state \<Rightarrow> (int \<times> apple_state \<times> acall list) res" where
  "alsa_input E ev s =
     bind_res (deref (base_port (base (driver s)))) (\<lambda>alsa.
     if lock (driver s) then Inl Deadlock
     else
       let s = set_lock True s in
       if ev_type ev \<noteq> SND_SEQ_EVENT_NOTEON \<and> ev_type ev \<noteq> SND_SEQ_EVENT_NOTEOFF then Inr (1, s, [])
       else
         let status = (if ev_type ev = SND_SEQ_EVENT_NOTEON then 0x90 else 0x80);
             msg = alsa_msg alsa;
             d = (message_data msg)\<lparr>bytes := (bytes (message_data msg))
                    [0 := status OR (ev_channel ev AND 0xf), 1 := ev_note ev, 2 := ev_velocity ev, 3 := 0],
                  data_size := 3, data_ptr := None\<rparr>
         in bind_res (MIDIMessageFormatDetect (bytes d)) (\<lambda>f.
            bind_res (send_note E alsa (msg\<lparr>message_data := d, format := f, timestamp := 0\<rparr>) s) (\<lambda>(s, out).
              Inr (0, s, out))))"

section \<open>Sending changes no peer but its counters, and takes and frees no memory\<close>

definition peer_fixed :: "RTPPeer \<Rightarrow> u32 \<times> RTPAddress" where
  "peer_fixed r = (peer_refs r, address r)"

definition same_peers :: "peer_heap \<Rightarrow> peer_heap \<Rightarrow> bool" where
  "same_peers h h' \<longleftrightarrow> (\<forall>q. map_option peer_fixed (h' q) = map_option peer_fixed (h q))"

lemma same_peers_refl [simp]: "same_peers h h"
  by (simp add: same_peers_def)

lemma same_peers_trans: "same_peers h h' \<Longrightarrow> same_peers h' h'' \<Longrightarrow> same_peers h h''"
  by (simp add: same_peers_def)

lemma same_peers_dom: "same_peers h h' \<Longrightarrow> dom h' = dom h"
  by (auto simp: same_peers_def dom_def) (metis map_option_is_None option.distinct(1) option.exhaust)+

lemma same_peers_Some:
  assumes "same_peers h h'" and "h' q = Some r'"
  obtains r where "h q = Some r" and "peer_fixed r' = peer_fixed r"
  using assms unfolding same_peers_def by (metis (no_types, lifting) map_option_eq_Some)

definition same_blocks :: "memory \<Rightarrow> memory \<Rightarrow> bool" where
  "same_blocks m m' \<longleftrightarrow> dom m' = dom m"

lemma same_blocks_refl [simp]: "same_blocks m m"
  by (simp add: same_blocks_def)

lemma same_blocks_trans: "same_blocks m m' \<Longrightarrow> same_blocks m' m'' \<Longrightarrow> same_blocks m m''"
  by (simp add: same_blocks_def)

lemma write_mem_blocks: "write_mem m p bs = Inr m' \<Longrightarrow> same_blocks m m'"
  by (auto simp: write_mem_def same_blocks_def split: if_splits mem_ptr.splits option.splits elim!: bind_res_eq_InrE)

lemma put_block_blocks: "block_of m p = Inr bs' \<Longrightarrow> same_blocks m (put_block m p bs)"
  by (auto simp: block_of_def put_block_def same_blocks_def split: mem_ptr.splits option.splits)

lemma send_packet_peers:
  "RTPSessionSendPacket sock session info h m = Inr (r, info', h', m', out) \<Longrightarrow> same_peers h h' \<and> same_blocks m m'"
  by (auto simp: RTPSessionSendPacket_def Let_def get_peer_def same_peers_def peer_fixed_def split: if_splits option.splits prod.splits
      elim!: bind_res_eq_InrE dest!: write_mem_blocks)


lemma broadcast_peers:
  "broadcast n sock rtp minfo iov p result info h m out = Some (Inr (result', info', h', m', out')) \<Longrightarrow>
    same_peers h h' \<and> same_blocks m m'"
proof (induction n sock rtp minfo iov p result info h m out rule: broadcast.induct)
  case (3 n sock rtp minfo iov p result info h m out)
  let ?info = "info\<lparr>info_peer := Some p, iovlen := (if journal minfo \<noteq> 0 then 3 else 2), info_iov := iov,
      payload_size := iov_len (iov ! 0) + iov_len (iov ! 1) + iov_len (iov ! 2)\<rparr>"
  obtain r i h1 m1 o1 where send: "RTPSessionSendPacket sock rtp (Some ?info) h m = Inr (r, i, h1, m1, o1)"
    using "3.prems" by (auto simp: Let_def split: sum.splits)
  then have "broadcast n sock rtp minfo iov (snd (next_peer rtp (Some p))) r (the i) h1 m1 (out @ o1) =
      Some (Inr (result', info', h', m', out'))" using "3.prems" by (simp add: Let_def)
  with "3.IH" [OF refl send] have "same_peers h1 h' \<and> same_blocks m1 m'" by simp
  with send_packet_peers [OF send] show ?case using same_peers_trans same_blocks_trans by blast
qed simp_all

lemma map_sum_eq_Inr: "map_sum id f z = Inr y \<longleftrightarrow> (\<exists>x. z = Inr x \<and> y = f x)"
  by (cases z) auto

lemma send_peers:
  assumes "RTPMIDISessionSend n w sock rtp session ms h m = Some (Inr (r, session', h', m', out))"
  shows "same_peers h h'" and "same_blocks m m'" and "ms_refs session' = ms_refs session"
    and "ms_size session' = ms_size session" and "ms_buffer session' = ms_buffer session"
proof -
  have "same_peers h h' \<and> same_blocks m m' \<and> ms_refs session' = ms_refs session \<and>
      ms_size session' = ms_size session \<and> ms_buffer session' = ms_buffer session"
    using assms
    by (auto simp: RTPMIDISessionSend_def Let_def map_sum_eq_Inr split: sum.splits prod.splits
        elim!: bind_res_eq_InrE dest!: broadcast_peers intro: same_blocks_trans [OF put_block_blocks])
  then show "same_peers h h'" and "same_blocks m m'" and "ms_refs session' = ms_refs session"
    and "ms_size session' = ms_size session" and "ms_buffer session' = ms_buffer session" by simp_all
qed

lemma peers_ok_same:
  assumes "peers_ok s" and "rtp_session (driver s') = rtp_session (driver s)" and "same_peers (peer_store s) (peer_store s')"
  shows "peers_ok s'"
proof (rule peers_okI)
  have d: "dom (peer_store s') = dom (peer_store s)" using assms(3) by (rule same_peers_dom)
  show fixed: "peer_refs r = 1 \<and> addr_size (address r) = 16" if "peer_store s' q = Some r" for q r
    using assms(3) that assms(1) by (auto simp: peers_ok_def peer_fixed_def elim!: same_peers_Some)
  have "\<exists>r. peer_store s' q = Some r \<and> peer_refs r = 1" if "q \<in> members (rtp_session (driver s))" for q
    using that fixed d assms(1) by (force simp: peers_ok_def)
  then show "table_ok (rtp_session (driver s')) (peer_store s')"
    using assms(1,2) by (fastforce simp: peers_ok_def table_ok_def)
  show "q \<in> members (rtp_session (driver s')) \<longleftrightarrow> q \<in> dom (peer_store s')" for q
    using assms(1,2) d by (simp add: peers_ok_def)
qed


section \<open>What no event changes\<close>

definition alsa_handles :: "ALSADriver \<Rightarrow> nat option \<times> int" where
  "alsa_handles a = (alsa_card a, alsa_client a)"

definition buffers_of :: "RTPMIDISession \<Rightarrow> u32 \<times> u32 \<times> mem_ptr" where
  "buffers_of session = (ms_refs session, ms_size session, ms_buffer session)"

definition system_frame :: "apple_state \<Rightarrow> apple_state \<Rightarrow> bool" where
  "system_frame s s' \<longleftrightarrow> clocks s' = clocks s \<and> global_clock s' = global_clock s \<and> same_blocks (mem s) (mem s') \<and>
     base_clock (base (driver s')) = base_clock (base (driver s)) \<and> base_refs (base (driver s')) = base_refs (base (driver s)) \<and>
     map_option alsa_handles (base_port (base (driver s'))) = map_option alsa_handles (base_port (base (driver s))) \<and>
     control_socket (driver s') = control_socket (driver s) \<and> rtp_socket (driver s') = rtp_socket (driver s) \<and>
     accept (driver s') = accept (driver s) \<and> drv_name (driver s') = drv_name (driver s) \<and>
     token (driver s') = token (driver s) \<and> 
     map_option buffers_of (rtpmidi_session (driver s')) = map_option buffers_of (rtpmidi_session (driver s)) \<and>
     (\<exists>ps. rtp_session (driver s') = (rtp_session (driver s))\<lparr>peers := ps\<rparr>)"

lemma session_frame_system: "session_frame s s' \<Longrightarrow> system_frame s s'"
  by (auto simp: session_frame_def system_frame_def)

lemma system_frame_trans: "system_frame s s' \<Longrightarrow> system_frame s' s'' \<Longrightarrow> system_frame s s''"
  by (auto simp: system_frame_def same_blocks_def)

lemma system_frame_self [simp]: "system_frame s s"
  by (rule session_frame_system) simp

lemma quiet_sends [simp]: "quiet (map (Send k) ps)"
  by (induction ps) (auto simp: quiet_def held_Cons elim!: takes.elims gives.elims)

lemma send_note_keeps:
  assumes "session_ok s" and "base_port (base (driver s)) = Some a" and "send_note E a msg s = Inr (s', out)"
  shows "session_ok s'" and "system_frame s s'" and "quiet out" and "\<not> lock (driver s')"
    and "rtp_session (driver s') = rtp_session (driver s)"
proof -
  note ok = session_okD [OF assms(1)]
  obtain session r x h m ds where sent: "RTPMIDISessionSend (RTP_MAX_PEERS + 1) (stack_w E) (network E) (rtp_session (driver s))
      session [Some msg] (peer_store s) (mem s) = Some (Inr (r, x, h, m, ds))"
    and ms: "rtpmidi_session (driver s) = Some session"
    and s': "s' = update_driver (\<lambda>v. v\<lparr>rtpmidi_session := Some x, lock := False\<rparr>)
      ((update_driver (\<lambda>v. v\<lparr>base := (base v)\<lparr>base_port := Some (a\<lparr>alsa_msg := msg\<rparr>)\<rparr>\<rparr>) s)\<lparr>peer_store := h, mem := m\<rparr>)"
    and out: "out = map (Send (the (socket (rtp_session (driver s))))) ds"
    using assms(3) by (auto simp: send_note_def Let_def returned_def deref_def split: option.splits elim!: bind_res_eq_InrE)
  have "peers_ok s'" using peers_ok_same [OF ok(1), of s'] send_peers(1) [OF sent] by (simp add: s' update_driver_def)
  moreover have "clock_ok s'" using ok(2) by (simp add: s' clock_ok_def update_driver_def)
  moreover have "name_ok s'" using ok(3) by (simp add: s' name_ok_def update_driver_def)
  ultimately show "session_ok s'" using ok(4,5) by (simp add: session_ok_def s' update_driver_def)
  show "system_frame s s'"
    using send_peers(2-5) [OF sent] assms(2) ms
    by (auto simp: system_frame_def s' alsa_handles_def buffers_of_def update_driver_def intro: exI [of _ "peers (rtp_session (driver s))"])
  show "quiet out" "\<not> lock (driver s')" "rtp_session (driver s') = rtp_session (driver s)"
    by (simp_all add: out s' update_driver_def)
qed

lemma note_keeps:
  assumes "session_ok s" and "alsa_input E ev s = Inr (r, s', out)"
  shows "session_ok s' \<and> system_frame s s' \<and> quiet out \<and> \<not> lock (driver s) \<and> lock (driver s') = (r = 1) \<and>
    rtp_session (driver s') = rtp_session (driver s)"
proof -
  have locked: "session_ok (set_lock True s)" "system_frame s (set_lock True s)"
    using session_ok_lock [OF assms(1)] by (auto simp: system_frame_def driver_ops intro: exI [of _ "peers (rtp_session (driver s))"])
  obtain a where a: "base_port (base (driver s)) = Some a" "\<not> lock (driver s)"
    using assms(2) by (cases "base_port (base (driver s))") (auto simp: alsa_input_def split: if_splits)
  show ?thesis
  proof (cases "r = 0")
    case True
    then obtain msg where "send_note E a msg (set_lock True s) = Inr (s', out)"
      using assms(2) a by (auto simp: alsa_input_def Let_def split: if_splits elim!: bind_res_eq_InrE)
    note k = send_note_keeps [OF locked(1) _ this]
    show ?thesis using k system_frame_trans [OF locked(2)] a True by (simp add: driver_ops)
  next
    case False
    then have "r = 1 \<and> s' = set_lock True s \<and> out = []"
      using assms(2) a by (auto simp: alsa_input_def Let_def split: if_splits elim!: bind_res_eq_InrE)
    then show ?thesis using locked a by (simp add: driver_ops)
  qed
qed


section \<open>Properties\<close>

definition note_bytes :: "alsa_event \<Rightarrow> three_bytes" where
  "note_bytes ev = ((if ev_type ev = SND_SEQ_EVENT_NOTEON then 0x90 else 0x80) OR (ev_channel ev AND 0xf), ev_note ev, ev_velocity ev)"

lemma nibble_cases: "(c :: u8) AND 0xf \<in> of_nat ` {..< 16}"
proof -
  have "c AND 0xf \<le> 0xf" by (rule word_and_le1)
  then have "unat (c AND 0xf) < 16" by (simp add: word_le_nat_alt)
  moreover have "c AND 0xf = of_nat (unat (c AND 0xf))" by simp
  ultimately show ?thesis by blast
qed

lemma note_status:
  fixes c k :: u8
  assumes "k \<in> {0x80, 0x90}"
  shows "(k OR (c AND 0xf)) AND 0xf0 = k" and "0x80 \<le> k OR (c AND 0xf)" and "k OR (c AND 0xf) \<le> 0xef"
proof -
  have "\<forall>i \<in> {..< 16 :: nat}. (k OR of_nat i) AND 0xf0 = k \<and> 0x80 \<le> k OR of_nat i \<and> k OR of_nat i \<le> 0xef"
    using assms by (auto simp: lessThan_nat_numeral lessThan_Suc)
  then show "(k OR (c AND 0xf)) AND 0xf0 = k" "0x80 \<le> k OR (c AND 0xf)" "k OR (c AND 0xf) \<le> 0xef"
    using nibble_cases [of c] by auto
qed

definition note_event :: "alsa_event \<Rightarrow> bool" where
  "note_event ev \<longleftrightarrow> ev_type ev \<in> {SND_SEQ_EVENT_NOTEON, SND_SEQ_EVENT_NOTEOFF} \<and> ev_note ev < 0x80 \<and> ev_velocity ev < 0x80"

definition event_message :: "alsa_event \<Rightarrow> MIDIMessage \<Rightarrow> MIDIMessage" where
  "event_message ev msg = msg\<lparr>message_data := (message_data msg)\<lparr>bytes := [fst (note_bytes ev), ev_note ev, ev_velocity ev, 0],
     data_size := 3, data_ptr := None\<rparr>, format := Some note_off_on, timestamp := 0\<rparr>"

lemma input_note:
  assumes "\<not> lock (driver s)" and "base_port (base (driver s)) = Some a"
    and "length (bytes (message_data (alsa_msg a))) = 4" and "note_event ev"
  shows "alsa_input E ev s = bind_res (send_note E a (event_message ev (alsa_msg a)) (set_lock True s)) (\<lambda>(s, out). Inr (0, s, out))"
proof -
  obtain b0 b1 b2 b3 where b: "bytes (message_data (alsa_msg a)) = [b0, b1, b2, b3]"
    using assms(3) by (auto simp: length_Suc_conv eval_nat_numeral)
  have f: "MIDIMessageFormatDetect [fst (note_bytes ev), ev_note ev, ev_velocity ev, 0] = Inr (Some note_off_on)"
    using note_status(1) [of "0x90" "ev_channel ev"] note_status(1) [of "0x80" "ev_channel ev"]
    by (simp add: MIDIMessageFormatDetect_def formats_def test_note_off_on_def note_status_defs note_bytes_def)
  show ?thesis
    using assms(1,2,4) f by (auto simp: alsa_input_def Let_def b note_event_def event_types note_bytes_def event_message_def numeral_2_eq_2 numeral_3_eq_3)
qed

lemma event_message_valid:
  shows "format (event_message ev msg) = Some note_off_on" and "timestamp (event_message ev msg) = 0"
    and "timed (event_message ev msg) = (0, note_bytes ev)"
  by (simp_all add: event_message_def timed_def three_bytes_of_def note_bytes_def)

lemma note_event_valid:
  assumes "note_event ev"
  shows "valid_list enc_command valid_command (True, 0, 0) [(0, note_bytes ev)]"
  using assms note_status(2,3) [of "0x90" "ev_channel ev"] note_status(2,3) [of "0x80" "ev_channel ev"]
  by (auto simp: note_bytes_def note_event_def)

lemma note_sent:
  assumes "session_ok s" and "\<not> lock (driver s)" and "base_port (base (driver s)) = Some a"
    and "length (bytes (message_data (alsa_msg a))) = 4" and "note_event ev" and "socket_takes_all (network E)"
    and "rtpmidi_session (driver s) = Some session"
    and "session_buffers (rtp_session (driver s)) session (mem s) b rbuf mb buf" and "9 \<le> length buf"
  shows "\<exists>s' out payload. alsa_input E ev s = Inr (0, s', map (Send (the (socket (rtp_session (driver s))))) out) \<and>
    list_all2 (packet_for (rtp_session (driver s)) (peer_store s) 0 payload) (peer_list (rtp_session (driver s))) out \<and>
    dec_payload 0 payload = Some [(0, note_bytes ev)] \<and>
    (\<forall>q. peer_store s' q = map_option (peer_after 0) (peer_store s q)) \<and>
    rtp_session (driver s') = rtp_session (driver s) \<and> session_ok s' \<and> \<not> lock (driver s')"
proof -
  let ?m = "event_message ev (alsa_msg a)" and ?rtp = "rtp_session (driver s)"
  note v = event_message_valid [of ev "alsa_msg a"]
  note ok = session_okD [OF assms(1)]
  have vl: "valid_list enc_command valid_command (True, timestamp (hd [?m]), 0) (map timed [?m])" using v(2,3) note_event_valid [OF assms(5)] by simp
  have one: "\<forall>msg \<in> set [?m]. format msg = Some note_off_on" and len: "7 * length [?m] + 2 \<le> length buf"
    using v(1) assms(9) by simp_all
  obtain x h m out payload where send: "RTPMIDISessionSend (RTP_MAX_PEERS + 1) (stack_w E) (network E) ?rtp session
      (map Some [?m]) (peer_store s) (mem s) = Some (Inr (0, x, h, m, out))"
    and pk: "list_all2 (packet_for ?rtp (peer_store s) (ucast (timestamp (hd [?m]))) payload) (peer_list ?rtp) out"
    and dec: "dec_payload (timestamp (hd [?m])) payload = Some (map timed [?m])"
    and h: "\<forall>q. h q = (if q \<in> members ?rtp then map_option (peer_after (ucast (timestamp (hd [?m])))) (peer_store s q) else peer_store s q)"
    using broadcast_delivers [OF ok(6) assms(6,8) _ one vl len, of "stack_w E"] by blast
  have m: "q \<in> members ?rtp \<or> peer_store s q = None" for q using ok(1) by (auto simp: peers_ok_def)
  have h': "h q = map_option (peer_after 0) (peer_store s q)" for q using h v(2) m [of q] by auto
  define s' where "s' = update_driver (\<lambda>v. v\<lparr>rtpmidi_session := Some x, lock := False\<rparr>)
      ((update_driver (\<lambda>v. v\<lparr>base := (base v)\<lparr>base_port := Some (a\<lparr>alsa_msg := ?m\<rparr>)\<rparr>\<rparr>) (set_lock True s))\<lparr>peer_store := h, mem := m\<rparr>)"
  have "send_note E a ?m (set_lock True s) = Inr (s', map (Send (the (socket ?rtp))) out)"
    using send assms(7) by (simp add: send_note_def Let_def s'_def driver_ops del: One_nat_def)
  then have "alsa_input E ev s = Inr (0, s', map (Send (the (socket ?rtp))) out)"
    by (simp add: input_note [OF assms(2-5)])
  moreover from note_keeps [OF assms(1) this] have "session_ok s' \<and> \<not> lock (driver s') \<and> rtp_session (driver s') = ?rtp" by simp
  moreover have "peer_store s' = h" by (simp add: s'_def update_driver_def)
  ultimately show ?thesis using pk dec h' v(2,3) by auto
qed


text \<open>
  C6. From the keyboard to the network: a note event of ALSA, in a well-formed state with free lock, is sent
  to every peer of the table in one packet each, in which the peer reads one MIDI command, with the status byte of the
  event's kind and channel, its note and its velocity. Of the peers only sequence numbers and times change, the state stays
  well-formed and the lock is free again.
\<close>

theorem note_delivered:
  assumes "session_ok s" and "\<not> lock (driver s)" and "base_port (base (driver s)) = Some a"
    and "length (bytes (message_data (alsa_msg a))) = 4" and "note_event ev" and "socket_takes_all (network E)"
    and "rtpmidi_session (driver s) = Some session"
    and "session_buffers (rtp_session (driver s)) session (mem s) b rbuf mb buf" and "9 \<le> length buf"
  shows "\<exists>s' out payload. alsa_input E ev s = Inr (0, s', map (Send (the (socket (rtp_session (driver s))))) out) \<and>
    list_all2 (packet_for (rtp_session (driver s)) (peer_store s) 0 payload) (peer_list (rtp_session (driver s))) out \<and>
    dec_payload 0 payload = Some [(0, note_bytes ev)] \<and>
    (\<forall>q. peer_store s' q = map_option (peer_after 0) (peer_store s q)) \<and>
    rtp_session (driver s') = rtp_session (driver s) \<and> session_ok s' \<and> \<not> lock (driver s')"
  using note_sent [OF assms] .


definition sample_port :: ALSADriver where
  "sample_port = \<lparr>alsa_card = Some 5, alsa_client = 128, alsa_msg = note_message 0 (0, 0, 0)\<rparr>"

definition sample_listening :: apple_state where
  "sample_listening = update_driver (\<lambda>v. v\<lparr>base := (base v)\<lparr>base_port := Some sample_port\<rparr>\<rparr>) sample_apple"

lemma sample_listening_simps [simp]:
  "lock (driver sample_listening) = False" "base_port (base (driver sample_listening)) = Some sample_port"
  "rtp_session (driver sample_listening) = sample_table" "rtpmidi_session (driver sample_listening) = Some sample_midi_session"
  "mem sample_listening = sample_buffers" "peer_store sample_listening = sample_heap"
  by (simp_all add: sample_listening_def sample_apple_def)

lemma sample_listening_ok: "session_ok sample_listening"
proof -
  have "session_ok (update_driver (\<lambda>v. v\<lparr>base := (base v)\<lparr>base_port := Some sample_port\<rparr>\<rparr>) sample_apple)"
    using session_okD [OF sample_apple_ok(1)]
    by (simp add: session_ok_def peers_ok_def clock_ok_def name_ok_def)
  then show ?thesis by (simp add: sample_listening_def)
qed

lemma note_delivered_witness:
  "\<exists>s' p1 p2 payload. alsa_input sample_world \<lparr>ev_type = 6, ev_channel = 2, ev_note = 60, ev_velocity = 100\<rparr> sample_listening =
      Inr (0, s', [Send 3 p1, Send 3 p2]) \<and> dec_payload 0 payload = Some [(0, 0x92, 60, 100)]"
proof -
  let ?ev = "\<lparr>ev_type = 6, ev_channel = 2, ev_note = 60, ev_velocity = 100\<rparr>"
  have n: "socket_takes_all (network sample_world)" by (simp add: socket_takes_all_def sample_world_def)
  have e: "note_event ?ev" "note_bytes ?ev = (0x92, 60, 100)" by (simp_all add: note_event_def note_bytes_def event_types)
  have l: "length (bytes (message_data (alsa_msg sample_port))) = 4"
    by (simp add: sample_port_def note_message_def)
  have so: "the (socket sample_table) = 3" by (simp add: sample_table_def sample_session_def)
  have x: "list_all2 P [a, b] xs \<Longrightarrow> \<exists>x y. xs = [x, y]" for P :: "peer_ptr \<Rightarrow> packet \<Rightarrow> bool" and a b xs
    by (auto simp: list_all2_Cons1)
  obtain s' out payload where r: "alsa_input sample_world ?ev sample_listening = Inr (0, s', map (Send 3) out)"
    "list_all2 (packet_for sample_table sample_heap 0 payload) [40, 41] out" "dec_payload 0 payload = Some [(0, 0x92, 60, 100)]"
    using note_delivered [of sample_listening sample_port ?ev sample_world sample_midi_session 0 "replicate 512 0" 1 "replicate 512 0"]
      n e l so sample_session_buffers sample_listening_ok by (auto simp del: One_nat_def)
  then show ?thesis using x [OF r(2)] by auto
qed

lemma receive_locked:
  assumes "sendable_view v" and "lock (driver s)"
  shows "receive_skb E sk (udp_skb sport dport checksum src (wire v)) s = Inr (s, [])"
proof -
  have w: "4 \<le> length (wire v)" "length (wire v) \<le> 1000" using length_wire [OF assms(1)] by simp_all
  have l: "uint (of_nat (8 + length (wire v)) :: u16) = int (8 + length (wire v))"
    using w(2) by (simp add: uint_nat unat_of_nat del: of_nat_add)
  let ?skb = "udp_skb sport dport checksum src (wire v)"
  have "net16 (skb_data ?skb) 4 = Inr (of_nat (8 + length (wire v)))" "drop 8 (skb_data ?skb) = wire v"
    by (simp_all add: udp_skb_def)
  then show ?thesis using w(1) l test_wire [OF assms(1)] assms(2) by (simp add: receive_skb_def)
qed

text \<open>
  C21. An event that is no note: the callback returns 1 and keeps the lock. From then on every datagram of the session
  protocol is dropped, every run of the timer only arms the timer again, and the next event of any kind waits for
  the lock forever.
\<close>

theorem foreign_event_locks:
  assumes "\<not> lock (driver s)" and "base_port (base (driver s)) = Some a"
    and "ev_type ev \<notin> {SND_SEQ_EVENT_NOTEON, SND_SEQ_EVENT_NOTEOFF}" and "sendable_view v"
  shows "\<exists>s'. alsa_input E ev s = Inr (1, s', []) \<and>
    receive_skb E' sk (udp_skb port dport checksum src (wire v)) s' = Inr (s', []) \<and>
    applemidi_idle_timeout E' s' = Inr (s', [Timer_mod 1500]) \<and> alsa_input E' ev' s' = Inl Deadlock"
proof -
  have "alsa_input E ev s = Inr (1, set_lock True s, [])"
    using assms(1-3) by (simp add: alsa_input_def Let_def)
  moreover have "receive_skb E' sk (udp_skb port dport checksum src (wire v)) (set_lock True s) = Inr (set_lock True s, [])"
    using receive_locked [OF assms(4)] by (simp add: driver_ops)
  moreover have "applemidi_idle_timeout E' (set_lock True s) = Inr (set_lock True s, [Timer_mod 1500])"
    by (simp add: applemidi_idle_timeout_def driver_ops)
  moreover have "alsa_input E' ev' (set_lock True s) = Inl Deadlock"
    using assms(2) by (simp add: alsa_input_def driver_ops)
  ultimately show ?thesis by blast
qed

lemma foreign_event_locks_witness:
  "\<exists>s'. alsa_input sample_world \<lparr>ev_type = 10, ev_channel = 0, ev_note = 7, ev_velocity = 100\<rparr> sample_listening = Inr (1, s', []) \<and>
    receive_skb sample_world 12 (udp_skb 5009 5009 0 7 (wire (Feedback 3 8))) s' = Inr (s', [])"
  using foreign_event_locks [of sample_listening sample_port "\<lparr>ev_type = 10, ev_channel = 0, ev_note = 7, ev_velocity = 100\<rparr>"
      "Feedback 3 8" sample_world sample_world 12 5009 5009 0 7]
  by (auto simp: event_types simp del: wire.simps)

end
