(* ===== verification/Apple_System.thy ===== *)
theory Apple_System
  imports Apple_Notes
begin

text \<open>
  The AppleMIDI driver as a whole: its timer, the datagrams of its two sockets and the events of its ALSA port, in any
  order and with any contents, as a step relation on the state of the driver, labelled with the calls the step makes.
  A step is one run of a handler that returns; what a handler does that does not return is a matter of its own properties.
\<close>

section \<open>Steps\<close>

inductive apple_step :: "apple_state \<Rightarrow> acall list \<Rightarrow> apple_state \<Rightarrow> bool" where
  timer: "applemidi_idle_timeout E s = Inr (s', out) \<Longrightarrow> apple_step s out s'"
| datagrams: "control_socket (driver s) = Some sk \<or> rtp_socket (driver s) = Some sk \<Longrightarrow> fresh_queue sk queue s \<Longrightarrow>
     socket_callback sk queue s = Inr (s', out) \<Longrightarrow> apple_step s out s'"
| event: "alsa_input E ev s = Inr (r, s', out) \<Longrightarrow> apple_step s out s'"

inductive apple_run :: "apple_state \<Rightarrow> acall list \<Rightarrow> apple_state \<Rightarrow> bool" where
  start: "apple_run s [] s"
| step: "apple_run s out s1 \<Longrightarrow> apple_step s1 out' s2 \<Longrightarrow> apple_run s (out @ out') s2"

section \<open>Invariants\<close>

lemma keeps_system: "keeps s s' out \<Longrightarrow> session_ok s' \<and> system_frame s s' \<and> quiet out \<and> lock (driver s') = lock (driver s)"
  by (auto simp: keeps_def session_frame_system session_frame_def)

lemma step_keeps:
  assumes "apple_step s out s'" and "session_ok s"
  shows "session_ok s' \<and> system_frame s s' \<and> quiet out \<and> (lock (driver s) \<longrightarrow> lock (driver s'))"
  using assms(1)
proof (cases rule: apple_step.cases)
  case (timer E)
  then show ?thesis using keeps_system [OF timeout_keeps [OF assms(2)]] by blast
next
  case (datagrams sk queue)
  then show ?thesis using keeps_system [OF callback_keeps [OF assms(2)]] by blast
next
  case (event E ev r)
  then show ?thesis using note_keeps [OF assms(2)] by blast
qed

lemma run_keeps:
  assumes "apple_run s out s'" and "session_ok s"
  shows "session_ok s' \<and> system_frame s s' \<and> quiet out \<and> (lock (driver s) \<longrightarrow> lock (driver s'))"
  using assms
proof (induction rule: apple_run.induct)
  case (start s)
  then show ?case by simp
next
  case (step s out s1 out' s2)
  then show ?case using step_keeps [of s1 out' s2] system_frame_trans by auto
qed

lemma u8_le_2: "(x :: u8) \<le> 2 \<Longrightarrow> x \<in> {0, 1, 2}"
proof -
  assume "x \<le> 2"
  then have "unat x = 0 \<or> unat x = 1 \<or> unat x = 2" by (auto simp: word_le_nat_alt)
  then show ?thesis by (auto simp: word_unat_eq_iff)
qed

section \<open>Properties\<close>

text \<open>
  C11. Whatever the network and the sequencer send, in any order and with any contents: as long as the handlers return, the state
  stays well-formed. The peers in memory are exactly the at most sixteen of the table, each with the one reference of
  the table, so no peer is lost or freed twice; the exchange of clocks is in one of its three states; the sockets,
  the clock, the name, the token and the buffers of the driver stay the ones it was created with; no resource of the kernel is
  taken or given back; and a lock that was left held stays held.
\<close>

theorem any_traffic_keeps_state:
  assumes "session_ok s" and "apple_run s out s'"
  shows "session_ok s' \<and> dom (peer_store s') = members (rtp_session (driver s')) \<and>
    (\<forall>q r. peer_store s' q = Some r \<longrightarrow> peer_refs r = 1) \<and>
    card (members (rtp_session (driver s'))) \<le> RTP_MAX_PEERS \<and> sync (driver s') \<in> {0, 1, 2} \<and>
    system_frame s s' \<and> held x out = 0 \<and> (lock (driver s) \<longrightarrow> lock (driver s'))"
proof -
  have k: "session_ok s'" "system_frame s s'" "quiet out" "lock (driver s) \<longrightarrow> lock (driver s')"
    using run_keeps [OF assms(2,1)] by simp_all
  have "sync (driver s') \<in> {0, 1, 2}" using session_okD(5) [OF k(1)] by (rule u8_le_2)
  with k members_bounded [OF k(1)] session_okD(1) [OF k(1)] show ?thesis by (simp add: peers_ok_def quiet_def)
qed

lemma any_traffic_keeps_state_witness:
  "\<exists>s' out. apple_run sample_apple out s' \<and> out \<noteq> [] \<and> session_ok s'"
proof -
  obtain s' x y where "applemidi_idle_timeout sample_world sample_apple =
      Inr (s', [Timer_mod 1500, Send 12 (inet 0xC0A80002 5004, wire (Sync (own_ssrc sample_apple) 0 (now_of sample_world sample_apple) x y))])"
    using sample_timeout by blast
  then have "apple_run sample_apple ([] @ [Timer_mod 1500,
      Send 12 (inet 0xC0A80002 5004, wire (Sync (own_ssrc sample_apple) 0 (now_of sample_world sample_apple) x y))]) s'"
    by (rule apple_run.step [OF apple_run.start apple_step.timer])
  from any_traffic_keeps_state [OF sample_apple_ok(1) this] this show ?thesis by blast
qed

end
