(* ===== verification/Kernel_Calls.thy ===== *)
theory Kernel_Calls
  imports C_Prelude
begin

text \<open>
  The services of the Linux kernel the CMIDID module uses. None of their code is under
  \<open>src/\<close>, so an operation of the model returns the calls it makes, in order, with their
  arguments (a list of \<open>kcall\<close>), and takes the results the kernel gives as parameters (the
  fields of the environment records). Constants of kernel headers are symbolic where only
  their identity matters; the error codes are those of the kernel's \<open>errno\<close> headers.
  For every resource, \<open>kheld\<close> is how often a log takes it less how often it gives it back.
\<close>

section \<open>Error codes\<close>

definition EIO :: int where "EIO = 5"
definition ENOMEM :: int where "ENOMEM = 12"
definition EINVAL :: int where "EINVAL = 22"

lemmas errno_defs = EIO_def ENOMEM_def EINVAL_def

section \<open>ALSA sequencer events\<close>

datatype seq_event_type = SNDRV_SEQ_EVENT_NOTEON | SNDRV_SEQ_EVENT_NOTEOFF

datatype seq_event_flag = SNDRV_SEQ_EVENT_LENGTH_FIXED | SNDRV_SEQ_PRIORITY_NORMAL

datatype seq_queue = SNDRV_SEQ_QUEUE_DIRECT

datatype seq_client = SNDRV_SEQ_ADDRESS_SUBSCRIBERS | Seq_client int

record snd_seq_event =
  ev_type :: seq_event_type
  ev_flags :: "seq_event_flag list"
  ev_note :: u8
  ev_channel :: u8
  ev_velocity :: u8
  ev_duration :: u32
  ev_off_velocity :: u8
  ev_queue :: seq_queue
  ev_dest_client :: seq_client
  ev_dest_port :: u8
  ev_source_client :: seq_client
  ev_source_port :: u8

section \<open>Buttons and timers of a key\<close>

text \<open>
  The two buttons of a key: the source indexes the arrays of length two of \<open>struct key\<close>
  with \<open>START_BUTTON\<close> (0) and \<open>END_BUTTON\<close> (1) only, so an array becomes a function of
  the button. A timer is identified by the slot of the key array it is embedded in, which is
  what the address \<open>&state.keys[i].hrtimers[b]\<close> stands for.
\<close>

datatype button = START_BUTTON | END_BUTTON

lemma UNIV_button: "UNIV = {START_BUTTON, END_BUTTON}"
  by (auto intro: button.exhaust)

instantiation button :: enum
begin

definition "enum_class.enum = [START_BUTTON, END_BUTTON]"
definition "enum_class.enum_all P \<longleftrightarrow> P START_BUTTON \<and> P END_BUTTON"
definition "enum_class.enum_ex P \<longleftrightarrow> P START_BUTTON \<or> P END_BUTTON"

instance
  by standard (simp_all add: enum_button_def enum_all_button_def enum_ex_button_def UNIV_button)

end

lemma all_button: "(\<forall>b. P b) \<longleftrightarrow> P START_BUTTON \<and> P END_BUTTON"
  by (metis button.exhaust)

lemma ex_button: "(\<exists>b. P b) \<longleftrightarrow> P START_BUTTON \<or> P END_BUTTON"
  by (metis button.exhaust)

type_synonym timer_ref = "nat \<times> button"

section \<open>Calls\<close>

datatype kcall =
    Alloc_chrdev_region
  | Unregister_chrdev_region
  | Cdev_alloc
  | Cdev_add
  | Cdev_del
  | Kobject_put
  | Class_create
  | Class_destroy
  | Device_create
  | Device_destroy
  | Snd_card_create
  | Snd_card_free "nat option"
  | Seq_create_client "nat option"
  | Seq_delete_client int
  | Seq_create_port int
  | Seq_dispatch int snd_seq_event
  | Kzalloc_keys nat
  | Kfree_keys
  | Gpio_request_array int int
  | Gpio_free_array int int
  | Hrtimer_init timer_ref
  | Hrtimer_start timer_ref u32
  | Hrtimer_cancel timer_ref
  | Request_irq u32
  | Free_irq u32

text \<open>The events a list of calls hands to the sequencer, in order.\<close>

fun dispatched :: "kcall list \<Rightarrow> snd_seq_event list" where
  "dispatched [] = []"
| "dispatched (Seq_dispatch c ev # ks) = ev # dispatched ks"
| "dispatched (k # ks) = dispatched ks"

lemma dispatched_append [simp]: "dispatched (xs @ ys) = dispatched xs @ dispatched ys"
  by (induction xs rule: dispatched.induct) simp_all

section \<open>Resources\<close>

text \<open>
  Everything the module takes from the kernel and has to give back: the device number, the references to the character device,
  the class and the file of the device, the sound card, the sequencer client, the memory of the keys, pairs of GPIOs, interrupt
  lines, and timers, which are taken by \<open>hrtimer_init\<close> and given back by \<open>hrtimer_cancel\<close>. \<open>kheld r cs\<close> is how often \<open>r\<close> was
  taken by the calls \<open>cs\<close>, all taken to succeed, less how often it was given back.
\<close>

datatype kresource =
    K_region
  | K_cdev
  | K_class
  | K_device
  | K_card
  | K_client
  | K_keys
  | K_gpios int int
  | K_irq u32
  | K_timer timer_ref

fun call_takes :: "kcall \<Rightarrow> kresource option" where
  "call_takes Alloc_chrdev_region = Some K_region"
| "call_takes Cdev_alloc = Some K_cdev"
| "call_takes Class_create = Some K_class"
| "call_takes Device_create = Some K_device"
| "call_takes Snd_card_create = Some K_card"
| "call_takes (Seq_create_client c) = Some K_client"
| "call_takes (Kzalloc_keys n) = Some K_keys"
| "call_takes (Gpio_request_array g g') = Some (K_gpios g g')"
| "call_takes (Request_irq n) = Some (K_irq n)"
| "call_takes (Hrtimer_init t) = Some (K_timer t)"
| "call_takes _ = None"

fun call_gives :: "kcall \<Rightarrow> kresource option" where
  "call_gives Unregister_chrdev_region = Some K_region"
| "call_gives Cdev_del = Some K_cdev"
| "call_gives Kobject_put = Some K_cdev"
| "call_gives Class_destroy = Some K_class"
| "call_gives Device_destroy = Some K_device"
| "call_gives (Snd_card_free c) = Some K_card"
| "call_gives (Seq_delete_client c) = Some K_client"
| "call_gives Kfree_keys = Some K_keys"
| "call_gives (Gpio_free_array g g') = Some (K_gpios g g')"
| "call_gives (Free_irq n) = Some (K_irq n)"
| "call_gives (Hrtimer_cancel t) = Some (K_timer t)"
| "call_gives _ = None"

fun kheld :: "kresource \<Rightarrow> kcall list \<Rightarrow> int" where
  "kheld r [] = 0"
| "kheld r (c # cs) = of_bool (call_takes c = Some r) - of_bool (call_gives c = Some r) + kheld r cs"

lemma kheld_append [simp]: "kheld r (xs @ ys) = kheld r xs + kheld r ys"
  by (induction xs) simp_all

end
