(* ===== verification/Apple_Main.thy ===== *)
theory Apple_Main
  imports Apple_System Kernel_Calls
begin

text \<open>
  Opening the sockets of the AppleMIDI driver, its creation and destruction, and the init and exit functions of the
  module (\<open>applemidi/applemidi.c\<close>). The steps of \<open>Apple_System\<close> begin when the driver is complete; what the callback of a
  socket meets before that is \<open>raspi_callback\<close>.
\<close>

section \<open>Opening the sockets\<close>

text \<open>What the kernel answers while the driver is created.\<close>

record create_env =
  register :: register_env
  driver_object :: "MIDIDriverAppleMIDI option"
  clock_object :: "nat option"
  time_init :: u64
  time_token :: u64
  control_create :: "int \<times> nat"
  control_bind :: int
  rtp_create :: "int \<times> nat"
  rtp_bind :: int
  session_object :: "RTPSession option"
  session_block :: "(nat \<times> bytes) option"
  random_ssrc :: u32
  midi_object :: "RTPMIDISession option"
  midi_block :: "(nat \<times> bytes) option"

text \<open>The two labels at the end of the function, the first of which falls through to the second.\<close>

definition control_fail :: "MIDIDriverAppleMIDI \<Rightarrow> (MIDIDriverAppleMIDI \<times> acall list) res" where
  "control_fail v = bind_res (deref (control_socket v)) (\<lambda>c. Inr (v\<lparr>control_socket := None\<rparr>, [Sock_release c]))"

definition rtp_fail :: "MIDIDriverAppleMIDI \<Rightarrow> (MIDIDriverAppleMIDI \<times> acall list) res" where
  "rtp_fail v =
     bind_res (deref (rtp_socket v)) (\<lambda>r.
     bind_res (control_fail (v\<lparr>rtp_socket := None\<rparr>)) (\<lambda>(v, cs). Inr (v, Sock_release r # cs)))"

definition connect_control :: "create_env \<Rightarrow> MIDIDriverAppleMIDI \<Rightarrow> (int \<times> bool \<times> MIDIDriverAppleMIDI \<times> acall list) res" where
  "connect_control K v =
     (if control_socket v \<noteq> None then Inr (0, True, v, [])
      else let (err, c) = control_create K
           in if err < 0 then Inr (- EIO, False, v, [])
              else
                let v = v\<lparr>control_socket := Some c\<rparr>; cs = [Sock_create c, Sock_bind c (drv_port v)]
                in if control_bind K \<noteq> 0
                   then bind_res (control_fail v) (\<lambda>(v, fs). Inr (control_bind K, False, v, cs @ fs))
                   else Inr (0, True, v, cs @ [Sock_callback c]))"

definition connect_rtp :: "create_env \<Rightarrow> MIDIDriverAppleMIDI \<Rightarrow> (int \<times> MIDIDriverAppleMIDI \<times> acall list) res" where
  "connect_rtp K v =
     (if rtp_socket v \<noteq> None then Inr (0, v, [])
      else let (err, r) = rtp_create K
           in if err < 0 then bind_res (control_fail v) (\<lambda>(v, fs). Inr (0, v, fs))
              else
                let v = v\<lparr>rtp_socket := Some r\<rparr>; cs = [Sock_create r, Sock_bind r (drv_port v + 1)]
                in bind_res (deref (control_socket v)) (\<lambda>_.
                   if rtp_bind K \<noteq> 0
                   then bind_res (rtp_fail v) (\<lambda>(v, fs). Inr (rtp_bind K, v, cs @ fs))
                   else Inr (0, v, cs @ [Sock_callback r])))"

text \<open>The second socket is opened only when the first one was; the result of a failed \<open>sock_create\<close> of the second is 0.\<close>

definition applemidi_connect :: "create_env \<Rightarrow> MIDIDriverAppleMIDI \<Rightarrow> (int \<times> MIDIDriverAppleMIDI \<times> acall list) res" where
  "applemidi_connect K v =
     bind_res (connect_control K v) (\<lambda>(result, go, v, cs).
       if go then bind_res (connect_rtp K v) (\<lambda>(result, v, cs'). Inr (result, v, cs @ cs'))
       else Inr (result, v, cs))"

section \<open>The driver\<close>

definition APPLEMIDI_CLOCK_RATE :: u32 where "APPLEMIDI_CLOCK_RATE = 10000"

definition empty_command :: AppleMIDICommand where
  "empty_command = \<lparr>cmd_peer = None, cmd_addr = \<lparr>sin_family = 0, sin_addr = 0, sin_port = 0\<rparr>, cmd_size = 0, cmd_type = 0,
     cmd_data = replicate DATA_SIZE 0\<rparr>"

text \<open>\<open>None\<close> when there was no memory for the driver; then nothing else happened.\<close>

definition MIDIDriverAppleMIDICreate ::
    "create_env \<Rightarrow> bytes \<Rightarrow> u16 \<Rightarrow> peer_heap \<Rightarrow> memory \<Rightarrow> clock_heap \<Rightarrow> nat option \<Rightarrow> (apple_state option \<times> acall list) res" where
  "MIDIDriverAppleMIDICreate K name p h m clks global =
     (case driver_object K of
        None \<Rightarrow> Inr (None, [])
      | Some v \<Rightarrow>
          let v = v\<lparr>lock := False\<rparr> in
          bind_res (MIDIDriverInit (register K) (clock_object K) (time_init K) APPLEMIDI_CLOCK_RATE global clks) (\<lambda>(b, global, clks, cs).
          let v = v\<lparr>base := b, control_socket := None, rtp_socket := None, drv_port := p, accept := 0xff, sync := 0\<rparr> in
          bind_res (strncpy name 32) (\<lambda>n.
          let v = v\<lparr>drv_name := n[31 := 0]\<rparr> in
          bind_res (applemidi_connect K v) (\<lambda>(result, v, cs').
          let v = v\<lparr>drv_peer := None\<rparr> in
          bind_res (RTPSessionCreate (session_object K) (session_block K) (random_ssrc K) (rtp_socket v) m) (\<lambda>(rtp, m).
          let (ms, rtp, m) = RTPMIDISessionCreate (midi_object K) (midi_block K) rtp m;
              v = v\<lparr>rtp_session := rtp, rtpmidi_session := ms\<rparr> in
          bind_res (returned (MIDIClockGetNow None (time_token K) (time_token K) (base_clock b) global clks)) (\<lambda>(t, global, clks).
          let v = v\<lparr>token := ucast t, command := empty_command\<rparr>
          in Inr (Some \<lparr>driver = v, peer_store = h, mem = m, clocks = clks, global_clock = global\<rparr>,
                  Kmalloc_driver # cs @ cs' @ [Timer_setup, Timer_mod 5000])))))))"

text \<open>
  What is left in memory: the two session objects, each \<open>None\<close> when it was freed, the peers, the buffers and the clocks.
\<close>

record apple_left =
  left_rtpmidi :: "RTPMIDISession option"
  left_rtp :: "RTPSession option"
  left_peers :: peer_heap
  left_memory :: memory
  left_clocks :: clock_heap

definition MIDIDriverAppleMIDIDestroy :: "apple_env \<Rightarrow> apple_state \<Rightarrow> (apple_left \<times> acall list) res" where
  "MIDIDriverAppleMIDIDestroy E s =
     bind_res (applemidi_disconnect RTP_MAX_PEERS E None s) (\<lambda>(_, s, cs).
     bind_res (deref (rtpmidi_session (driver s))) (\<lambda>ms.
     bind_res (RTPMIDISessionRelease ms (rtp_session (driver s)) (peer_store s) (mem s)) (\<lambda>(ms, rtp, h, m).
     bind_res (case rtp of None \<Rightarrow> Inl Use_after_free | Some rtp \<Rightarrow> RTPSessionRelease rtp h m) (\<lambda>(rtp, h, m).
     bind_res (MIDIDriverRelease (base (driver s)) (clocks s)) (\<lambda>(b, clks, cs').
       Inr (\<lparr>left_rtpmidi = ms, left_rtp = rtp, left_peers = h, left_memory = m, left_clocks = clks\<rparr>,
            cs @ cs' @ [Timer_del, Kfree_driver]))))))"

section \<open>The module\<close>

text \<open>The string \<open>kernel\<close>.\<close>

definition kernel_name :: bytes where "kernel_name = [107, 101, 114, 110, 101, 108, 0]"

text \<open>The result code, the driver \<open>raspi\<close> and the calls.\<close>

definition mod_init ::
    "create_env \<Rightarrow> u32 \<Rightarrow> peer_heap \<Rightarrow> memory \<Rightarrow> clock_heap \<Rightarrow> nat option \<Rightarrow> (int \<times> apple_state option \<times> acall list) res" where
  "mod_init K port h m clks global =
     bind_res (MIDIDriverAppleMIDICreate K kernel_name (ucast port) h m clks global) (\<lambda>(raspi, cs).
       Inr (if raspi = None then 1 else 0, raspi, cs))"

definition mod_exit :: "apple_env \<Rightarrow> apple_state option \<Rightarrow> (apple_left \<times> acall list) option res" where
  "mod_exit E raspi =
     (case raspi of
        None \<Rightarrow> Inr None
      | Some s \<Rightarrow> map_sum id Some (MIDIDriverAppleMIDIDestroy E s))"

text \<open>
  The callback of a socket takes the driver from the global variable \<open>raspi\<close>, which is set when the creation of the driver
  returns; the sockets and their callbacks are there before. Until then a datagram that is long enough for a message is
  first looked at and then reaches for the lock or the RTP socket of a driver that is a null pointer.
\<close>

definition early_skb :: "sk_buff \<Rightarrow> unit res" where
  "early_skb skb =
     bind_res (net16 (skb_data skb) 4) (\<lambda>l.
     if uint l \<ge> 8 + 4
     then bind_res (test_applemidi (drop 8 (skb_data skb)) (uint l - 8)) (\<lambda>_. Inl Null_pointer)
     else Inr ())"

fun raspi_callback ::
    "nat \<Rightarrow> (apple_env \<times> sk_buff) list \<Rightarrow> apple_state option \<Rightarrow> (apple_state option \<times> acall list) res" where
  "raspi_callback sk queue (Some s) = map_sum id (map_prod Some id) (socket_callback sk queue s)"
| "raspi_callback sk [] None = Inr (None, [])"
| "raspi_callback sk ((E, skb) # queue) None = bind_res (early_skb skb) (\<lambda>_. raspi_callback sk queue None)"


section \<open>Connecting\<close>

definition opened :: "create_env \<Rightarrow> bool" where
  "opened K \<longleftrightarrow> 0 \<le> fst (control_create K) \<and> control_bind K = 0 \<and> 0 \<le> fst (rtp_create K) \<and> rtp_bind K = 0"

lemma connect_eq:
  fixes K :: create_env
  assumes "control_socket v = None" and "rtp_socket v = None"
  defines "c \<equiv> snd (control_create K)" and "r \<equiv> snd (rtp_create K)"
  defines "cc \<equiv> [Sock_create c, Sock_bind c (drv_port v)]" and "rc \<equiv> [Sock_create r, Sock_bind r (drv_port v + 1)]"
  shows "applemidi_connect K v = Inr
    (if fst (control_create K) < 0 then (- EIO, v, [])
     else if control_bind K \<noteq> 0 then (control_bind K, v, cc @ [Sock_release c])
     else if fst (rtp_create K) < 0 then (0, v, cc @ [Sock_callback c, Sock_release c])
     else if rtp_bind K \<noteq> 0 then (rtp_bind K, v, cc @ [Sock_callback c] @ rc @ [Sock_release r, Sock_release c])
     else (0, v\<lparr>control_socket := Some c, rtp_socket := Some r\<rparr>, cc @ [Sock_callback c] @ rc @ [Sock_callback r]))"
proof -
  have v: "v\<lparr>control_socket := None\<rparr> = v" "v\<lparr>rtp_socket := None, control_socket := None\<rparr> = v"
    "v\<lparr>control_socket := None, rtp_socket := None\<rparr> = v" using assms(1,2) by simp_all
  show ?thesis
    using assms(1,2)
    by (simp add: applemidi_connect_def connect_control_def connect_rtp_def control_fail_def rtp_fail_def c_def r_def cc_def rc_def
        Let_def split_beta v)
qed

lemma held_sockets:
  "held x [] = 0" "held x (Sock_create k # cs) = (if x = Socket k then 1 else 0) + held x cs"
  "held x (Sock_release k # cs) = - (if x = Socket k then 1 else 0) + held x cs"
  "held x (Sock_bind k p # cs) = held x cs" "held x (Sock_callback k # cs) = held x cs"
  by (cases x; simp add: held_Cons)+

lemma connect_result:
  assumes "control_socket v = None" and "rtp_socket v = None"
  shows "\<exists>result v' cs. applemidi_connect K v = Inr (result, v', cs) \<and>
    v' = (if opened K then v\<lparr>control_socket := Some (snd (control_create K)), rtp_socket := Some (snd (rtp_create K))\<rparr> else v) \<and>
    (\<forall>x. held x cs + held x (release_socket (control_socket v') @ release_socket (rtp_socket v')) = 0)"
proof -
  obtain result v' cs where r: "applemidi_connect K v = Inr (result, v', cs)"
    using connect_eq [OF assms, of K] by (auto split: if_splits)
  then have "v' = (if opened K then v\<lparr>control_socket := Some (snd (control_create K)), rtp_socket := Some (snd (rtp_create K))\<rparr> else v)"
    using connect_eq [OF assms, of K] by (auto simp: opened_def split: if_splits)
  moreover have "held x cs + held x (release_socket (control_socket v') @ release_socket (rtp_socket v')) = 0" for x
    using r connect_eq [OF assms, of K] assms by (auto simp: release_socket_def held_sockets split: if_splits)
  ultimately show ?thesis using r by blast
qed


section \<open>Creating\<close>

text \<open>
  Client numbers are positive and a card that was created is there; of the clocks only the global one is assumed not to
  exist yet. The kernel has memory for the objects, in blocks that are not in use.
\<close>

definition registers :: "register_env \<Rightarrow> bool" where
  "registers R \<longleftrightarrow> alsa_object R \<and> private_object R \<noteq> None \<and> (0 \<le> fst (card_create R) \<longrightarrow> snd (card_create R) \<noteq> None) \<and>
     client_create R (snd (card_create R)) \<noteq> 0"

lemma register_balanced:
  assumes "registers R"
  obtains port cs where "ALSARegisterClient R = Inr (port, cs)"
    and "\<And>x. held x cs + held x (ALSADeleteClient port) = 0"
proof -
  obtain msg err c where r: "alsa_object R" "private_object R = Some msg" "card_create R = (err, c)" "client_create R c \<noteq> 0"
    "0 \<le> err \<longrightarrow> c \<noteq> None"
    using assms by (cases "card_create R") (auto simp: registers_def)
  then have "\<exists>p. ALSARegisterClient R = Inr p"
    by (simp add: ALSARegisterClient_def Let_def split: prod.splits)
  then obtain port cs where p: "ALSARegisterClient R = Inr (port, cs)" by auto
  have "held x cs + held x (ALSADeleteClient port) = 0" for x
    using p r
    by (cases x) (auto simp: ALSARegisterClient_def create_port_def Let_def ALSADeleteClient_def fail_port_def fail_client_def fail_card_def
        held_Cons split: if_splits)
  with p show thesis by (rule that)
qed

lemma provide_global:
  assumes "unat t0 * 10000 < 18446744073709551616"
  obtains k where "MIDIClockProvide (Some c) t0 APPLEMIDI_CLOCK_RATE None h = Some (Inr (c, Some c, h(c \<mapsto> k)))"
    and "clock_refs k = 2" and "denom k \<noteq> 0"
proof -
  have b: "unat t0 * unat (clock_rate APPLEMIDI_CLOCK_RATE) < 18446744073709551616"
    using assms by (simp add: clock_rate_def APPLEMIDI_CLOCK_RATE_def)
  from b show thesis
  proof (rule clock_create [where c = c and h = h])
    fix k n d
    assume k: "MIDIClockCreate (Some c) t0 APPLEMIDI_CLOCK_RATE h = Some (Inr (c, h(c \<mapsto> k)))"
      "k = \<lparr>clock_refs = 1, offset = - of_nat (unat t0 * unat (clock_rate APPLEMIDI_CLOCK_RATE) div 1000000000),
              rate = clock_rate APPLEMIDI_CLOCK_RATE, numer = n, denom = d\<rparr>"
      "\<forall>t. unat t * unat (clock_rate APPLEMIDI_CLOCK_RATE) < 18446744073709551616 \<longrightarrow>
        get_real_time t k = Inr (of_nat (unat t * unat (clock_rate APPLEMIDI_CLOCK_RATE) div 1000000000))"
    have "denom k \<noteq> 0" using k(3) [rule_format, of 0] by (auto simp: get_real_time_def split: if_splits)
    then show thesis using k(1,2)
      by (intro that [of "k\<lparr>clock_refs := 2\<rparr>"]) (simp_all add: MIDIClockProvide_def MIDIClockRetain_def get_clock_def)
  qed
qed


definition startable :: "create_env \<Rightarrow> memory \<Rightarrow> nat \<Rightarrow> nat \<Rightarrow> nat \<Rightarrow> bool" where
  "startable K m c b1 b2 \<longleftrightarrow> driver_object K \<noteq> None \<and> registers (register K) \<and> clock_object K = Some c \<and>
     unat (time_init K) * 10000 < 18446744073709551616 \<and> session_object K \<noteq> None \<and> midi_object K \<noteq> None \<and>
     map_option fst (session_block K) = Some b1 \<and> map_option fst (midi_block K) = Some b2 \<and>
     b1 \<noteq> b2 \<and> b1 \<notin> dom m \<and> b2 \<notin> dom m"

text \<open>A driver that can be destroyed, with its two blocks and its clock.\<close>

definition destroyable :: "nat \<Rightarrow> nat \<Rightarrow> nat \<Rightarrow> apple_state \<Rightarrow> bool" where
  "destroyable c b1 b2 s \<longleftrightarrow> session_ok s \<and>
     map_option buffers_of (rtpmidi_session (driver s)) = Some (1, 512, In_block b2 0) \<and>
     session_refs (rtp_session (driver s)) = 2 \<and> buffer (rtp_session (driver s)) = In_block b1 0 \<and>
     base_refs (base (driver s)) = 1 \<and> base_clock (base (driver s)) = Some c \<and>
     map_option clock_refs (clocks s c) = Some 2"

text \<open>The resources a driver holds beside its object and its timer.\<close>

definition handles :: "apple_state \<Rightarrow> acall list" where
  "handles s = release_socket (control_socket (driver s)) @ release_socket (rtp_socket (driver s)) @
     ALSADeleteClient (base_port (base (driver s)))"

definition object_and_timer :: "resource \<Rightarrow> int" where
  "object_and_timer x = (if x = Driver_object \<or> x = Timer then 1 else 0)"

lemma kernel_name_copied: "strncpy kernel_name 32 = Inr ([107, 101, 114, 110, 101, 108] @ replicate 26 0)"
  by (simp add: strncpy_def strlen_def kernel_name_def)

lemma held_timer: "held x [Timer_setup, Timer_mod n] = (if x = Timer then 1 else 0)"
  by (cases x) (simp_all add: held_Cons)

lemma startable_objects:
  assumes "startable K m c b1 b2"
  obtains v0 x0 y0 bs1 bs2 where "driver_object K = Some v0" and "session_object K = Some x0" and "midi_object K = Some y0"
    and "session_block K = Some (b1, bs1)" and "midi_block K = Some (b2, bs2)"
proof -
  have "driver_object K \<noteq> None" "session_object K \<noteq> None" "midi_object K \<noteq> None"
    "map_option fst (session_block K) = Some b1" "map_option fst (midi_block K) = Some b2" using assms by (simp_all add: startable_def)
  then show ?thesis using that by auto
qed

text \<open>The two sessions are created over their two blocks; the packet session has no peer and is retained by the other one.\<close>

lemma sessions_created:
  obtains rtp where "RTPSessionCreate (Some x0) (Some (b1, bs1)) r sk m = Inr (rtp, m(b1 \<mapsto> bs1))"
    and "RTPMIDISessionCreate (Some y0) (Some (b2, bs2)) rtp (m(b1 \<mapsto> bs1)) =
      (Some (y0\<lparr>ms_refs := 1, midi_info := zero_info, ms_size := 512, ms_buffer := In_block b2 0\<rparr>),
       RTPSessionRetain rtp, m(b1 \<mapsto> bs1, b2 \<mapsto> bs2))"
    and "session_refs rtp = 1" and "buffer rtp = In_block b1 0" and "socket rtp = sk" and "buflen rtp = 512"
    and "members (RTPSessionRetain rtp) = {}" and "length (peers (RTPSessionRetain rtp)) = RTP_MAX_PEERS"
    and "peer_list (RTPSessionRetain rtp) = []"
  using that by (simp add: RTPSessionCreate_def RTP_BUF_LEN_def Let_def RTPMIDISessionCreate_def zero_info_def RTPSessionRetain_def
      members_def peer_list_def)

lemma create_result:
  assumes "startable K m c b1 b2"
  shows "\<exists>s cs. MIDIDriverAppleMIDICreate K kernel_name p Map.empty m clks None = Inr (Some s, cs) \<and>
    destroyable c b1 b2 s \<and> \<not> lock (driver s) \<and> accept (driver s) = 0xff \<and> sync (driver s) = 0 \<and>
    drv_peer (driver s) = None \<and> members (rtp_session (driver s)) = {} \<and> peer_store s = Map.empty \<and>
    dom (mem s) = {b1, b2} \<union> dom m \<and> (\<exists>k. clocks s = clks(c \<mapsto> k)) \<and>
    (control_socket (driver s), rtp_socket (driver s)) =
      (if opened K then (Some (snd (control_create K)), Some (snd (rtp_create K))) else (None, None)) \<and>
    socket (rtp_session (driver s)) = rtp_socket (driver s) \<and> cmd_data (command (driver s)) = replicate DATA_SIZE 0 \<and>
    (\<forall>x. held x cs + held x (handles s) = object_and_timer x) \<and>
    (\<exists>rs. ALSARegisterClient (register K) = Inr (base_port (base (driver s)), rs)) \<and>
    (\<forall>bs1 bs2. opened K \<and> session_block K = Some (b1, bs1) \<and> midi_block K = Some (b2, bs2) \<and> length bs1 = 512 \<and> length bs2 = 512 \<longrightarrow>
      (\<exists>ms. rtpmidi_session (driver s) = Some ms \<and> session_buffers (rtp_session (driver s)) ms (mem s) b1 bs1 b2 bs2))"
proof -
  obtain v0 x0 y0 bs1 bs2 where O: "driver_object K = Some v0" "session_object K = Some x0" "midi_object K = Some y0"
    "session_block K = Some (b1, bs1)" "midi_block K = Some (b2, bs2)" using assms by (rule startable_objects)
  have K: "registers (register K)" "clock_object K = Some c" "unat (time_init K) * 10000 < 18446744073709551616"
    and b: "b1 \<noteq> b2" "b1 \<notin> dom m" "b2 \<notin> dom m" using assms by (simp_all add: startable_def)
  obtain port rs where reg: "ALSARegisterClient (register K) = Inr (port, rs)" "\<And>x. held x rs + held x (ALSADeleteClient port) = 0"
    using register_balanced [OF K(1)] by blast
  obtain k where k: "MIDIClockProvide (Some c) (time_init K) APPLEMIDI_CLOCK_RATE None clks = Some (Inr (c, Some c, clks(c \<mapsto> k)))"
    "clock_refs k = 2" "denom k \<noteq> 0" using K(3) by (rule provide_global)
  let ?b = "\<lparr>base_refs = 1, base_port = port, base_clock = Some c\<rparr>"
  let ?n = "[107, 101, 114, 110, 101, 108] @ replicate 26 0 :: bytes"
  let ?v = "v0\<lparr>lock := False, base := ?b, control_socket := None, rtp_socket := None, drv_port := p, accept := 0xff, sync := 0, drv_name := ?n\<rparr>"
  have nm: "(replicate 26 (0 :: u8))[25 := 0] = replicate 26 0" using list_update_id [of "replicate 26 (0 :: u8)" 25] by simp
  have sock: "control_socket ?v = None" "rtp_socket ?v = None" by simp_all
  obtain result v' os where con: "applemidi_connect K ?v = Inr (result, v', os)"
    and v': "v' = (if opened K then ?v\<lparr>control_socket := Some (snd (control_create K)), rtp_socket := Some (snd (rtp_create K))\<rparr> else ?v)"
    and bal: "\<And>x. held x os + held x (release_socket (control_socket v') @ release_socket (rtp_socket v')) = 0"
    using connect_result [OF sock, of K] by blast
  obtain rtp where rtp: "RTPSessionCreate (Some x0) (Some (b1, bs1)) (random_ssrc K) (rtp_socket v') m = Inr (rtp, m(b1 \<mapsto> bs1))"
    and ms: "RTPMIDISessionCreate (Some y0) (Some (b2, bs2)) rtp (m(b1 \<mapsto> bs1)) =
      (Some (y0\<lparr>ms_refs := 1, midi_info := zero_info, ms_size := 512, ms_buffer := In_block b2 0\<rparr>),
       RTPSessionRetain rtp, m(b1 \<mapsto> bs1, b2 \<mapsto> bs2))"
    and refs: "session_refs rtp = 1" and buf: "buffer rtp = In_block b1 0" "socket rtp = rtp_socket v'" "buflen rtp = 512"
    and mem: "members (RTPSessionRetain rtp) = {}" "length (peers (RTPSessionRetain rtp)) = RTP_MAX_PEERS"
      "peer_list (RTPSessionRetain rtp) = []"
    by (rule sessions_created)
  have now: "MIDIClockGetNow None (time_token K) (time_token K) (Some c) (Some c) (clks(c \<mapsto> k)) =
      Some (Inr (time_token K * numer k div denom k + offset k, Some c, clks(c \<mapsto> k)))"
    using k(3) by (simp add: MIDIClockGetNow_def get_clock_def get_real_time_def)
  let ?w = "v'\<lparr>drv_peer := None, rtp_session := RTPSessionRetain rtp,
      rtpmidi_session := Some (y0\<lparr>ms_refs := 1, midi_info := zero_info, ms_size := 512, ms_buffer := In_block b2 0\<rparr>),
      token := ucast (time_token K * numer k div denom k + offset k), command := empty_command\<rparr>"
  let ?s = "\<lparr>driver = ?w, peer_store = Map.empty, mem = m(b1 \<mapsto> bs1, b2 \<mapsto> bs2), clocks = clks(c \<mapsto> k), global_clock = Some c\<rparr>"
  let ?cs = "Kmalloc_driver # rs @ os @ [Timer_setup, Timer_mod 5000]"
  have vf: "lock v' = False" "base v' = ?b" "accept v' = 0xff" "sync v' = 0" "drv_name v' = ?n"
    by (simp_all add: v')
  have create: "MIDIDriverAppleMIDICreate K kernel_name p Map.empty m clks None = Inr (Some ?s, ?cs)"
    using reg(1) k(1) con rtp now
    by (simp add: MIDIDriverAppleMIDICreate_def O K(2) MIDIDriverInit_def kernel_name_copied nm ms Let_def vf(2))
  have ok: "session_ok ?s" using mem k(3) vf(4)
    by (simp add: session_ok_def empty_command_def peers_ok_def table_ok_def clock_ok_def name_ok_def vf)
  have d: "destroyable c b1 b2 ?s"
    using ok k(2) vf(2) refs buf(1) by (simp add: destroyable_def buffers_of_def RTPSessionRetain_def)
  have "held x ?cs + held x (handles ?s) = object_and_timer x" for x
    using reg(2) [of x] bal [of x] by (cases x) (simp_all add: handles_def vf(2) held_Cons object_and_timer_def)
  then show ?thesis
    using create d mem(1) b vf buf v' reg(1) O(4,5)
    by (intro exI [of _ ?s] exI [of _ ?cs]) (auto simp: RTPSessionRetain_def empty_command_def session_buffers_def)
qed


section \<open>Running\<close>

lemma sync_session: "applemidi_sync E sk s = Inr (r, s', out) \<Longrightarrow> rtp_session (driver s') = rtp_session (driver s)"
  by (auto simp: applemidi_sync_def Let_def get_now_def driver_ops split: if_splits option.splits
      elim!: bind_res_eq_InrE dest!: transmit_state)

lemma timeout_session:
  "applemidi_idle_timeout E s = Inr (s', out) \<Longrightarrow> rtp_session (driver s') = rtp_session (driver s)"
  by (auto simp: applemidi_idle_timeout_def start_sync_def Let_def map_sum_eq_Inr driver_ops split: if_splits option.splits
      elim!: bind_res_eq_InrE dest!: sync_session)

lemma run_destroyable:
  assumes "apple_run s out s'" and "destroyable c b1 b2 s"
  shows "destroyable c b1 b2 s'"
proof -
  have "session_ok s" using assms(2) by (simp add: destroyable_def)
  from run_keeps [OF assms(1) this] have k: "session_ok s'" "system_frame s s'" by simp_all
  then show ?thesis using assms(2) by (auto simp: destroyable_def system_frame_def)
qed

lemma run_without_sockets:
  assumes "apple_run s out s'" and "session_ok s" and "control_socket (driver s) = None" and "rtp_socket (driver s) = None"
  shows "rtp_session (driver s') = rtp_session (driver s)"
  using assms
proof (induction rule: apple_run.induct)
  case (step s out s1 out' s2)
  have k: "session_ok s1" "system_frame s s1" using run_keeps [OF step.hyps(1) step.prems(1)] by simp_all
  have "control_socket (driver s1) = None" "rtp_socket (driver s1) = None" using k(2) step.prems by (simp_all add: system_frame_def)
  then have "rtp_session (driver s2) = rtp_session (driver s1)"
    using step.hyps(2) timeout_session note_keeps [OF k(1)] by (auto elim!: apple_step.cases)
  then show ?case using step by simp
qed simp

lemma run_handles:
  assumes "system_frame s s'"
  shows "held x (handles s') = held x (handles s)"
proof -
  have f: "control_socket (driver s') = control_socket (driver s)" "rtp_socket (driver s') = rtp_socket (driver s)"
    "map_option alsa_handles (base_port (base (driver s'))) = map_option alsa_handles (base_port (base (driver s)))"
    using assms by (simp_all add: system_frame_def)
  have "ALSADeleteClient (base_port (base (driver s'))) = ALSADeleteClient (base_port (base (driver s)))"
    using f(3) by (cases "base_port (base (driver s))"; cases "base_port (base (driver s'))")
      (simp_all add: ALSADeleteClient_def alsa_handles_def)
  with f(1,2) show ?thesis by (simp add: handles_def)
qed

section \<open>Destroying\<close>

lemma release_no_peers: "members session = {} \<Longrightarrow> release_peers (peers session) h = Inr h"
proof -
  have "h |` UNIV = h" by (rule ext) simp
  then show "members session = {} \<Longrightarrow> release_peers (peers session) h = Inr h"
    using release_peers_last [of "peers session" h] by (simp add: members_def peer_list_def)
qed

lemma sessions_released:
  assumes "buffers_of ms = (1, 512, In_block b2 0)" and "session_refs rtp = 2" and "buffer rtp = In_block b1 0" and "members rtp = {}"
  shows "RTPMIDISessionRelease ms rtp h m = Inr (None, Some (rtp\<lparr>session_refs := 1\<rparr>), h, m(b2 := None))"
    and "RTPSessionRelease (rtp\<lparr>session_refs := 1\<rparr>) h m = Inr (None, h, m(b1 := None))"
  using assms release_no_peers [of "rtp\<lparr>session_refs := 0\<rparr>" h]
  by (simp_all add: RTPMIDISessionRelease_def RTPMIDISessionDestroy_def RTPSessionRelease_def RTPSessionDestroy_def buffers_of_def
      mem_free_def Let_def members_def peer_list_def)

lemma destroy_result:
  assumes "destroyable c b1 b2 s" and "control_socket (driver s) \<noteq> None \<or> members (rtp_session (driver s)) = {}"
    and "length (stack_send E) = 64"
  shows "\<exists>k out. MIDIDriverAppleMIDIDestroy E s =
      Inr (\<lparr>left_rtpmidi = None, left_rtp = None, left_peers = Map.empty, left_memory = (mem s)(b2 := None, b1 := None), left_clocks = (clocks s)(c \<mapsto> k)\<rparr>, out) \<and> clock_refs k = 1 \<and>
    (\<forall>x. held x out = held x (handles s) - object_and_timer x)"
proof -
  have ok: "session_ok s" using assms(1) by (simp add: destroyable_def)
  obtain u out where u: "applemidi_disconnect RTP_MAX_PEERS E None s = Inr (0, u, out)"
    "members (rtp_session (driver u)) = {}" "peer_store u = Map.empty"
    "mem u = mem s" "clocks u = clocks s" "base (driver u) = base (driver s)"
    "rtpmidi_session (driver u) = rtpmidi_session (driver s)" "\<exists>ps. rtp_session (driver u) = (rtp_session (driver s))\<lparr>peers := ps\<rparr>"
    "\<And>x. held x out = held x (release_socket (control_socket (driver s)) @ release_socket (rtp_socket (driver s)))"
    using disconnect_result [OF ok assms(2,3)] by blast
  obtain ms where ms: "rtpmidi_session (driver s) = Some ms" "buffers_of ms = (1, 512, In_block b2 0)"
    using assms(1) by (auto simp: destroyable_def)
  have r: "session_refs (rtp_session (driver u)) = 2" "buffer (rtp_session (driver u)) = In_block b1 0"
    using u(8) assms(1) by (auto simp: destroyable_def)
  note rel = sessions_released [OF ms(2) r u(2)]
  obtain k where k: "clocks s c = Some k" "clock_refs k = 2" using assms(1) by (auto simp: destroyable_def)
  have b: "base_refs (base (driver s)) = 1" "base_clock (base (driver s)) = Some c" using assms(1) by (simp_all add: destroyable_def)
  have base: "MIDIDriverRelease (base (driver u)) (clocks u) =
      Inr ((base (driver s))\<lparr>base_refs := 0\<rparr>, (clocks s)(c \<mapsto> k\<lparr>clock_refs := 1\<rparr>), ALSADeleteClient (base_port (base (driver s))))"
    using b k by (simp add: u(5,6) MIDIDriverRelease_def MIDIDriverDestroy_def MIDIClockRelease_def get_clock_def Let_def)
  have "MIDIDriverAppleMIDIDestroy E s = Inr (\<lparr>left_rtpmidi = None, left_rtp = None, left_peers = Map.empty, left_memory = (mem s)(b2 := None, b1 := None), left_clocks = (clocks s)(c \<mapsto> k\<lparr>clock_refs := 1\<rparr>)\<rparr>,
      out @ ALSADeleteClient (base_port (base (driver s))) @ [Timer_del, Kfree_driver])"
    using u(1,3,4,7) ms(1) rel base by (simp add: MIDIDriverAppleMIDIDestroy_def)
  moreover have "held x (out @ ALSADeleteClient (base_port (base (driver s))) @ [Timer_del, Kfree_driver]) =
      held x (handles s) - object_and_timer x" for x
    using u(9) [of x] by (cases x) (simp_all add: handles_def held_Cons object_and_timer_def)
  moreover have "clock_refs (k\<lparr>clock_refs := 1\<rparr>) = 1" by simp
  ultimately show ?thesis by blast
qed


section \<open>Datagrams before the driver is there\<close>

lemma test_returns:
  assumes "int (length buf) = n"
  shows "\<exists>t. test_applemidi buf n = Inr t"
  using assms by (auto simp: test_applemidi_def net16_def array_get_def)

lemma early_datagram:
  assumes "length payload \<le> 1000"
  shows "early_skb (udp_skb sport dport checksum src payload) = (if length payload < 4 then Inr () else Inl Null_pointer)"
proof -
  let ?skb = "udp_skb sport dport checksum src payload"
  have l: "uint (of_nat (8 + length payload) :: u16) = int (8 + length payload)"
    using assms by (simp add: uint_nat unat_of_nat del: of_nat_add)
  have n: "net16 (skb_data ?skb) 4 = Inr (of_nat (8 + length payload))" "drop 8 (skb_data ?skb) = payload"
    by (simp_all add: udp_skb_def)
  obtain t where "test_applemidi payload (int (8 + length payload) - 8) = Inr t"
    using test_returns [of payload "int (8 + length payload) - 8"] by auto
  with l show ?thesis by (simp add: early_skb_def n del: of_nat_add)
qed

text \<open>
  Of what reaches the sockets while the driver is being created, payloads of less than four bytes do nothing and the first
  longer one is fatal, whatever it holds.
\<close>

lemma early_datagrams:
  assumes "\<forall>(E, skb) \<in> set queue. \<exists>sport dport checksum src payload.
    length payload \<le> 1000 \<and> skb = udp_skb sport dport checksum src payload"
  shows "raspi_callback sk queue None =
    (if \<forall>(E, skb) \<in> set queue. length (skb_data skb) < 12 then Inr (None, []) else Inl Null_pointer)"
  using assms
proof (induction queue)
  case (Cons x queue)
  obtain E skb where x: "x = (E, skb)" by (cases x)
  then obtain sport dport checksum src payload where
    p: "length payload \<le> 1000" "skb = udp_skb sport dport checksum src payload" using Cons.prems by auto
  have "length (skb_data skb) = 8 + length payload" by (simp add: p(2) udp_skb_def be16_def)
  with Cons early_datagram [OF p(1)] show ?case by (simp add: x p(2))
qed simp


section \<open>Properties\<close>

text \<open>
  C5. The life of the module: loading it with memory available succeeds, whether or not the sockets and the ALSA client
  can be had; after any traffic that returns, unloading it succeeds. Of the services of the kernel it gives each back as
  often as it was taken: the driver object, the sockets, the card, the client, its two objects and the timer. Of the memory it
  frees both session objects, their buffers and every peer. One thing it allocated stays behind: the global clock, with
  the one reference that nobody ever drops.
\<close>

theorem module_life:
  assumes "startable K m c b1 b2" and "mod_init K p Map.empty m clks None = Inr (r, raspi, cs)"
    and "apple_run (the raspi) out s" and "length (stack_send E) = 64"
  shows "r = 0 \<and> raspi \<noteq> None \<and> (\<exists>m' k cs'. mod_exit E (Some s) =
      Inr (Some (\<lparr>left_rtpmidi = None, left_rtp = None, left_peers = Map.empty, left_memory = m', left_clocks = clks(c \<mapsto> k)\<rparr>, cs')) \<and>
    dom m' = dom m \<and> clock_refs k = 1 \<and> (\<forall>x. held x (cs @ out @ cs') = 0))"
proof -
  obtain s0 cs0 where c: "MIDIDriverAppleMIDICreate K kernel_name (ucast p) Map.empty m clks None = Inr (Some s0, cs0)"
    and s0: "destroyable c b1 b2 s0" "members (rtp_session (driver s0)) = {}"
    "dom (mem s0) = {b1, b2} \<union> dom m" "\<exists>k. clocks s0 = clks(c \<mapsto> k)"
    "(control_socket (driver s0), rtp_socket (driver s0)) =
      (if opened K then (Some (snd (control_create K)), Some (snd (rtp_create K))) else (None, None))"
    and h0: "\<And>x. held x cs0 + held x (handles s0) = object_and_timer x"
    using create_result [OF assms(1), of "ucast p" clks] by blast
  have i: "r = 0" "raspi = Some s0" "cs = cs0" using assms(2) c by (simp_all add: mod_init_def)
  have run: "apple_run s0 out s" using assms(3) i(2) by simp
  have ok0: "session_ok s0" using s0(1) by (simp add: destroyable_def)
  have k: "system_frame s0 s" "quiet out" using run_keeps [OF run ok0] by simp_all
  have d: "destroyable c b1 b2 s" using run s0(1) by (rule run_destroyable)
  have sock: "control_socket (driver s0) = None \<longrightarrow> rtp_socket (driver s0) = None" using s0(5) by (simp split: if_splits)
  have "control_socket (driver s) \<noteq> None \<or> members (rtp_session (driver s)) = {}"
    using run_without_sockets [OF run ok0] s0(2) sock k(1) by (auto simp: system_frame_def)
  from destroy_result [OF d this assms(4)] obtain k1 cs' where
    e: "MIDIDriverAppleMIDIDestroy E s = 
      Inr (\<lparr>left_rtpmidi = None, left_rtp = None, left_peers = Map.empty, left_memory = (mem s)(b2 := None, b1 := None), left_clocks = (clocks s)(c \<mapsto> k1)\<rparr>, cs')" "clock_refs k1 = 1"
      "\<And>x. held x cs' = held x (handles s) - object_and_timer x" by blast
  have "dom ((mem s)(b2 := None, b1 := None)) = dom m"
    using k(1) s0(3) assms(1) by (auto simp: system_frame_def same_blocks_def startable_def)
  moreover have "(clocks s)(c \<mapsto> k1) = clks(c \<mapsto> k1)" using s0(4) k(1) by (auto simp: system_frame_def)
  moreover have "held x (cs @ out @ cs') = 0" for x
    using h0 [of x] e(3) [of x] run_handles [OF k(1), of x] k(2) i(3) by (simp add: quiet_def)
  moreover have "mod_exit E (Some s) = 
      Inr (Some (\<lparr>left_rtpmidi = None, left_rtp = None, left_peers = Map.empty, left_memory = (mem s)(b2 := None, b1 := None), left_clocks = (clocks s)(c \<mapsto> k1)\<rparr>, cs'))"
    using e(1) by (simp add: mod_exit_def)
  ultimately show ?thesis using i e(2) by auto
qed


definition sample_create :: create_env where
  "sample_create = \<lparr>register = \<lparr>alsa_object = True, private_object = Some (note_message 0 (0, 0, 0)), card_create = (0, Some 5),
       client_create = \<lambda>c. 128, port_create = \<lambda>n. 0, card_register = 0\<rparr>,
     driver_object = Some (driver sample_apple), clock_object = Some 8, time_init = 5000050000, time_token = 5000060000,
     control_create = (0, 11), control_bind = 0, rtp_create = (0, 12), rtp_bind = 0, session_object = Some sample_session,
     session_block = Some (0, replicate 512 0), random_ssrc = 0xCAFE, midi_object = Some sample_midi_session,
     midi_block = Some (1, replicate 512 0)\<rparr>"

lemma sample_startable: "startable sample_create Map.empty 8 0 1"
  by (simp add: startable_def sample_create_def registers_def)

lemma module_life_witness:
  "\<exists>s cs k cs'. mod_init sample_create 5008 Map.empty Map.empty Map.empty None = Inr (0, Some s, cs) \<and>
    mod_exit sample_world (Some s) =
      Inr (Some (\<lparr>left_rtpmidi = None, left_rtp = None, left_peers = Map.empty, left_memory = Map.empty, left_clocks = [8 \<mapsto> k]\<rparr>, cs')) \<and> clock_refs k = 1 \<and> held Timer (cs @ cs') = 0"
proof -
  obtain s cs where i: "mod_init sample_create 5008 Map.empty Map.empty Map.empty None = Inr (0, Some s, cs)"
    using create_result [OF sample_startable, of "ucast (5008 :: u32)" Map.empty] by (auto simp: mod_init_def)
  have "apple_run (the (Some s)) [] s" by (simp add: apple_run.start)
  from module_life [OF sample_startable i this, of sample_world] obtain m' k cs' where
    e: "mod_exit sample_world (Some s) =
      Inr (Some (\<lparr>left_rtpmidi = None, left_rtp = None, left_peers = Map.empty, left_memory = m', left_clocks = [8 \<mapsto> k]\<rparr>, cs'))" "clock_refs k = 1"
      "dom m' = dom (Map.empty :: memory)"
      "\<forall>x. held x (cs @ [] @ cs') = 0" using sample_apple_ok(3) by (auto simp: stack_ok_def)
  have "m' = Map.empty" using e(3) by simp
  with i e(1,2,4) show ?thesis by auto
qed

text \<open>
  C32. A port that is taken: when one of the four steps that open the two sockets fails, whatever was opened is closed
  again; the module loads all the same with code 0, hears of no datagram, and no host ever becomes a peer. When the second
  socket cannot be created, the function that opens the sockets has the result 0, that of success.
\<close>

theorem unopened_sockets:
  assumes "startable K m c b1 b2" and "\<not> opened K" and "mod_init K p Map.empty m clks None = Inr (r, Some s0, cs)"
    and "apple_run s0 out s"
  shows "r = 0 \<and> held (Socket n) cs = 0 \<and> control_socket (driver s) = None \<and> rtp_socket (driver s) = None \<and>
    members (rtp_session (driver s)) = {} \<and> peer_store s = Map.empty \<and>
    (fst (rtp_create K) < 0 \<and> 0 \<le> fst (control_create K) \<and> control_bind K = 0 \<longrightarrow>
      (\<exists>cs'. applemidi_connect K (driver s0) = Inr (0, driver s0, cs')))"
proof -
  obtain cs0 where c: "MIDIDriverAppleMIDICreate K kernel_name (ucast p) Map.empty m clks None = Inr (Some s0, cs0)"
    and s0: "destroyable c b1 b2 s0" "members (rtp_session (driver s0)) = {}"
    "control_socket (driver s0) = None" "rtp_socket (driver s0) = None"
    and h0: "\<And>x. held x cs0 + held x (handles s0) = object_and_timer x"
    using create_result [OF assms(1), of "ucast p" clks] assms(2,3) by (auto simp: mod_init_def)
  have i: "r = 0" "cs = cs0" using assms(3) c by (simp_all add: mod_init_def)
  have ok0: "session_ok s0" using s0(1) by (simp add: destroyable_def)
  have k: "session_ok s" "system_frame s0 s" using run_keeps [OF assms(4) ok0] by simp_all
  have sock: "control_socket (driver s) = None" "rtp_socket (driver s) = None" using k(2) s0(3,4) by (simp_all add: system_frame_def)
  have m: "members (rtp_session (driver s)) = {}" using run_without_sockets [OF assms(4) ok0 s0(3,4)] s0(2) by simp
  then have "peer_store s = Map.empty" using session_okD(1) [OF k(1)] by (simp add: peers_ok_def)
  moreover have "held (Socket n) (ALSADeleteClient a) = 0" for a
    by (simp add: ALSADeleteClient_def held_Cons split: option.splits)
  then have "held (Socket n) cs = 0"
    using h0 [of "Socket n"] i(2) s0(3,4) by (simp add: handles_def release_socket_def object_and_timer_def)
  ultimately show ?thesis using i(1) sock m connect_eq [OF s0(3,4), of K] by simp
qed

lemma unopened_sockets_witness:
  "\<exists>s0 cs. mod_init (sample_create\<lparr>rtp_create := (- 98, 0)\<rparr>) 5008 Map.empty Map.empty Map.empty None = Inr (0, Some s0, cs) \<and>
    held (Socket 11) cs = 0 \<and> rtp_socket (driver s0) = None"
proof -
  let ?K = "sample_create\<lparr>rtp_create := (- 98, 0)\<rparr>"
  have st: "startable ?K Map.empty 8 0 1" by (simp add: startable_def sample_create_def registers_def)
  have no: "\<not> opened ?K" by (simp add: opened_def)
  obtain s0 cs where i: "mod_init ?K 5008 Map.empty Map.empty Map.empty None = Inr (0, Some s0, cs)"
    using create_result [OF st, of "ucast (5008 :: u32)" Map.empty] by (auto simp: mod_init_def)
  from unopened_sockets [OF st no i apple_run.start, of 11] i show ?thesis by auto
qed

end
