(* ===== verification/Apple_Handlers.thy ===== *)
theory Apple_Handlers
  imports Apple_Main "HOL-Library.Multiset"
begin

text \<open>
  The handlers of the AppleMIDI driver on messages of the protocol, note events and runs of the timer: each returns, on any
  network, and what it does to the peers. What they keep beyond the well-formed state is that nothing is locked, both sockets are
  open, and every name in the command ends before its 48th character. The peer of the last exchange of clocks is a peer for as long
  as no host ends its session; after that the timer may use it although it was freed.
\<close>

section \<open>Sending to all peers on any network\<close>

lemma send_any:
  assumes "payload_ready rtp iov m b buf payload" and "midi_packet_info ts info" and "h p = Some r"
  shows "\<exists>res info' h' buf' out. RTPSessionSendPacket sock rtp
      (Some (info\<lparr>info_peer := Some p, iovlen := 2, info_iov := iov, payload_size := n\<rparr>)) h m =
      Inr (res, Some info', h', m(b \<mapsto> buf'), out) \<and>
    midi_packet_info ts info' \<and> length buf' = length buf \<and> same_peers h h'"
proof -
  let ?i = "info\<lparr>info_peer := Some p, iovlen := 2, info_iov := iov, payload_size := n\<rparr>"
  obtain so where so: "socket rtp = Some so" using assms(1) by (auto simp: payload_ready_def)
  let ?pkt = "plain_header (?i\<lparr>info_ssrc := ssrc (self rtp), sequence_number := ucast (out_seqnum r + 1)\<rparr>) @ payload"
  obtain sent flags where s: "sock so (addr (address r)) (addr_size (address r)) ?pkt = (sent, flags)" by (rule prod.exhaust)
  have i: "info_peer ?i = Some p" by simp
  obtain info' m' where send: "RTPSessionSendPacket sock rtp (Some ?i) h m =
      (if word_of_int sent \<noteq> (of_nat (length ?pkt) :: u32) then Inr (sent, Some info', h, m', [(addr (address r), ?pkt)])
       else if flags \<noteq> 0 then Inr (1, Some info', h, m', [(addr (address r), ?pkt)])
       else Inr (0, Some info', h(p \<mapsto> r\<lparr>out_seqnum := ucast (ucast (out_seqnum r + 1) :: u16), out_timestamp := info_timestamp ?i\<rparr>), m',
                 [(addr (address r), ?pkt)]))"
    and ok: "plain_info info'" "info_timestamp info' = info_timestamp ?i" "payload_type info' = payload_type ?i" "marker info' = marker ?i"
    and m': "\<exists>buf'. m' = m(b \<mapsto> buf') \<and> length buf' = length buf"
    using send_packet_result [where h = h and p = p and r = r, OF i assms(3) payload_ready_sendable [OF assms(1,2)] so, of sock]
    unfolding Let_def s prod.case by blast
  have "midi_packet_info ts info'" using ok assms(2) by (simp add: midi_packet_info_def)
  moreover have "\<exists>res h' out. RTPSessionSendPacket sock rtp (Some ?i) h m = Inr (res, Some info', h', m', out)"
    unfolding send by (simp split: if_splits)
  ultimately have "\<exists>res info' h' m' out. RTPSessionSendPacket sock rtp (Some ?i) h m = Inr (res, Some info', h', m', out) \<and>
    midi_packet_info ts info' \<and> (\<exists>buf'. m' = m(b \<mapsto> buf') \<and> length buf' = length buf)" using m' by blast
  then show ?thesis using send_packet_peers by blast
qed

lemma broadcast_any:
  assumes "distinct (peer_list rtp)" and "journal minfo = 0"
  shows "peer_list rtp = ps @ p # qs \<Longrightarrow> \<forall>q \<in> set (p # qs). h q \<noteq> None \<Longrightarrow>
    payload_ready rtp iov m b buf payload \<Longrightarrow> midi_packet_info ts info \<Longrightarrow> length (p # qs) \<le> n \<Longrightarrow>
    \<exists>res info' h' buf' out'. broadcast n sock rtp minfo iov (Some p) result info h m out = Some (Inr (res, info', h', m(b \<mapsto> buf'), out')) \<and>
      length buf' = length buf"
proof (induction qs arbitrary: ps p h m buf info n result out)
  case (Nil ps p h m buf info n result out)
  obtain k where n: "n = Suc k" using Nil.prems(5) by (cases n) auto
  obtain r where r: "h p = Some r" using Nil.prems(2) by auto
  have nx: "snd (next_peer rtp (Some p)) = None" using next_peer_of [OF assms(1) Nil.prems(1)] by simp
  show ?case
    using send_any [where h = h and p = p, OF Nil.prems(3,4) r, of sock "iov_len (iov ! 0) + iov_len (iov ! 1) + iov_len (iov ! 2)"] nx n assms(2)
    by (fastforce simp: Let_def simp del: fun_upd_apply)
next
  case (Cons q qs ps p h m buf info n result out)
  obtain k where n: "n = Suc k" "length (q # qs) \<le> k" using Cons.prems(5) by (cases n) auto
  obtain r where r: "h p = Some r" using Cons.prems(2) by auto
  have nx: "snd (next_peer rtp (Some p)) = Some q" using next_peer_of [OF assms(1) Cons.prems(1)] by simp
  obtain res info' h' buf' out' where send: "RTPSessionSendPacket sock rtp (Some (info\<lparr>info_peer := Some p, iovlen := 2, info_iov := iov,
      payload_size := iov_len (iov ! 0) + iov_len (iov ! 1) + iov_len (iov ! 2)\<rparr>)) h m = Inr (res, Some info', h', m(b \<mapsto> buf'), out')"
    "midi_packet_info ts info'" "length buf' = length buf" "same_peers h h'"
    using send_any [where h = h and p = p, OF Cons.prems(3,4) r] by blast
  have l: "peer_list rtp = (ps @ [p]) @ q # qs" using Cons.prems(1) by simp
  have live: "\<forall>q' \<in> set (q # qs). h' q' \<noteq> None" using Cons.prems(2) same_peers_dom [OF send(4)] by auto
  show ?case
    using Cons.IH [OF l live payload_ready_step [OF Cons.prems(3) send(3)] send(2) n(2), of res "out @ out'"] send(1,3) nx n(1) assms(2)
    by (simp add: Let_def del: fun_upd_apply)
qed


text \<open>One message, in buffers that are large enough.\<close>

lemma send_total:
  assumes "table_ok rtp h" and "session_buffers rtp session m b rbuf mb buf" and "9 \<le> length buf"
    and "format msg = Some note_off_on" and "valid_list enc_command valid_command (True, timestamp msg, 0) [timed msg]"
  shows "\<exists>res session' h' m' out rbuf' buf'.
    RTPMIDISessionSend (RTP_MAX_PEERS + 1) w0 sock rtp session [Some msg] h m = Some (Inr (res, session', h', m', out)) \<and>
    session_buffers rtp session' m' b rbuf' mb buf' \<and> length buf' = length buf"
proof -
  have one: "[msg] \<noteq> []" "\<forall>x \<in> set [msg]. format x = Some note_off_on"
    "valid_list enc_command valid_command (True, timestamp (hd [msg]), 0) (map timed [msg])" "7 * length [msg] + 2 \<le> length buf"
    using assms(3-5) by simp_all
  obtain minfo iov buf' payload info where s: "journal minfo = 0" "length buf' = length buf"
      and "dec_payload (timestamp msg) payload = Some [timed msg]"
      and rd: "payload_ready rtp iov (put_block m (ms_buffer session) buf') b rbuf payload"
      and info: "midi_packet_info (ucast (timestamp msg)) info"
    and send: "\<forall>n h. RTPMIDISessionSend n w0 sock rtp session [Some msg] h m =
      send_result session minfo (broadcast n sock rtp minfo iov (snd (next_peer rtp None)) (fst (next_peer rtp None)) info h
        (put_block m (ms_buffer session) buf') [])"
    by (rule send_start [OF assms(2) one, of w0 sock, unfolded list.map list.sel])
  let ?m = "put_block m (ms_buffer session) buf'"
  have "\<exists>res info' h' m' out. broadcast (RTP_MAX_PEERS + 1) sock rtp minfo iov (snd (next_peer rtp None)) (fst (next_peer rtp None)) info h ?m [] =
      Some (Inr (res, info', h', m', out)) \<and> (m' = ?m \<or> (\<exists>rbuf'. m' = ?m(b \<mapsto> rbuf') \<and> length rbuf' = length rbuf))"
  proof (cases "peer_list rtp")
    case Nil
    then show ?thesis by (simp add: next_peer_start)
  next
    case (Cons p qs)
    note t = peer_list_table [OF assms(1) Cons]
    have l: "peer_list rtp = [] @ p # qs" using Cons by simp
    show ?thesis using broadcast_any [OF t(1) s(1) l t(2) rd info t(3), of sock 0 "[]"] Cons by (auto simp: next_peer_start)
  qed
  then obtain res info' h' m' out where bc: "broadcast (RTP_MAX_PEERS + 1) sock rtp minfo iov (snd (next_peer rtp None))
      (fst (next_peer rtp None)) info h ?m [] = Some (Inr (res, info', h', m', out))"
    and m': "m' = ?m \<or> (\<exists>rbuf'. m' = ?m(b \<mapsto> rbuf') \<and> length rbuf' = length rbuf)" by blast
  have "\<exists>rbuf'. session_buffers rtp (session\<lparr>midi_info := minfo, rtp_info := info'\<rparr>) m' b rbuf' mb buf'"
    using m' assms(2) s(2) by (auto simp: session_buffers_def put_block_def)
  then show ?thesis using s(2) bc by (simp add: send send_result_def del: broadcast.simps) blast
qed


section \<open>What the handlers keep\<close>

definition core :: "apple_state \<Rightarrow> bool" where
  "core s \<longleftrightarrow> session_ok s \<and> control_socket (driver s) \<noteq> None \<and> rtp_socket (driver s) \<noteq> None \<and>
     control_socket (driver s) \<noteq> rtp_socket (driver s) \<and> accept (driver s) \<noteq> 0 \<and> cmd_data (command (driver s)) ! 59 = 0"

text \<open>The peer of the last exchange of clocks is still a peer; or it is not, and the timer is about to use it.\<close>

definition tracked :: "apple_state \<Rightarrow> bool" where
  "tracked s \<longleftrightarrow> set_option (drv_peer (driver s)) \<subseteq> members (rtp_session (driver s))"

definition stale :: "apple_state \<Rightarrow> bool" where
  "stale s \<longleftrightarrow> \<not> tracked s \<and> sync (driver s) = 0"

definition notes_ready :: "apple_state \<Rightarrow> bool" where
  "notes_ready s \<longleftrightarrow> (\<exists>a ms b rbuf mb buf. base_port (base (driver s)) = Some a \<and> length (bytes (message_data (alsa_msg a))) = 4 \<and>
     rtpmidi_session (driver s) = Some ms \<and> session_buffers (rtp_session (driver s)) ms (mem s) b rbuf mb buf \<and> 9 \<le> length buf)"

definition live :: "apple_state \<Rightarrow> bool" where
  "live s \<longleftrightarrow> core s \<and> notes_ready s \<and> \<not> lock (driver s)"

lemma coreD:
  assumes "core s"
  shows "session_ok s" and "length (cmd_data (command (driver s))) = 80" and "cmd_data (command (driver s)) ! 59 = 0"
    and "\<exists>c. control_socket (driver s) = Some c" and "rtp_socket (driver s) \<noteq> None"
  using assms session_okD(4) [of s] by (auto simp: core_def DATA_SIZE_def)

lemma notes_frame:
  assumes "session_frame s s'" and "notes_ready s"
  shows "notes_ready s'"
proof -
  obtain ps where f: "base (driver s') = base (driver s)" "rtpmidi_session (driver s') = rtpmidi_session (driver s)" "mem s' = mem s"
    "rtp_session (driver s') = (rtp_session (driver s))\<lparr>peers := ps\<rparr>"
    using assms(1) by (auto simp: session_frame_def)
  have "session_buffers (r\<lparr>peers := ps\<rparr>) ms m b rbuf mb buf = session_buffers r ms m b rbuf mb buf" for r ms m b rbuf mb buf
    by (simp add: session_buffers_def)
  with assms(2) show ?thesis by (simp add: notes_ready_def f)
qed

lemma overlay_nth: "off + length bs \<le> i \<Longrightarrow> off \<le> length d \<Longrightarrow> i < length d \<Longrightarrow> overlay d off bs ! i = d ! i"
  by (auto simp: overlay_def nth_append)

lemma put_nth [simp]:
  "off + 4 \<le> i \<Longrightarrow> i < length d \<Longrightarrow> put32 off v d ! i = d ! i"
  "off + 8 \<le> i \<Longrightarrow> i < length d \<Longrightarrow> put64 off w d ! i = d ! i"
  by (simp_all add: block_put_def overlay_nth word32.enc_width word64.enc_width)

lemma sync_sendable:
  assumes "cmd_type c = APPLEMIDI_COMMAND_SYNCHRONIZATION" and "sync_count (cmd_data c) < 256"
  obtains v where "command_view c = Some v" and "sendable_view v"
  using assms by (auto simp: command_view_def Let_def commands_differ)

lemma transmit_sync:
  assumes "core s" and "length (stack_send E) = 64" and "cmd_type (command (driver u)) = APPLEMIDI_COMMAND_SYNCHRONIZATION"
    and "sync_count (cmd_data (command (driver u))) < 256" and "length (cmd_data (command (driver u))) = 80"
    and "control_socket (driver u) = control_socket (driver s)" and "rtp_socket (driver u) = rtp_socket (driver s)"
  shows "\<exists>r out. transmit E sk u = Inr (r, u, out)"
proof -
  obtain v where v: "command_view (command (driver u)) = Some v" "sendable_view v" using assms(3,4) by (rule sync_sendable)
  obtain c where "control_socket (driver u) = Some c" using coreD(4) [OF assms(1)] assms(6) by auto
  then show ?thesis using transmit_total [OF v _ assms(2), of c sk] assms(5,7) coreD(5) [OF assms(1)] by (simp add: DATA_SIZE_def)
qed

lemma core_keeps:
  assumes "core s" and "keeps s s' out" and "cmd_data (command (driver s')) ! 59 = 0"
  shows "core s'"
  using assms by (auto simp: core_def keeps_def session_frame_def)

text \<open>The peers are as before, and the one of the last exchange of clocks stays a peer.\<close>

definition table_kept :: "apple_state \<Rightarrow> apple_state \<Rightarrow> bool" where
  "table_kept s s' \<longleftrightarrow> rtp_session (driver s') = rtp_session (driver s) \<and> same_peers (peer_store s) (peer_store s') \<and>
     (tracked s \<longrightarrow> tracked s')"

lemma sync_total:
  assumes "core s" and "length (stack_send E) = 64"
  shows "\<exists>r s' out. applemidi_sync E sk s = Inr (r, s', out) \<and> core s' \<and> keeps s s' out \<and> table_kept s s'"
proof -
  note c = coreD [OF assms(1)]
  let ?c = "command (driver s)"
  obtain t where t: "get_now E s = Inr (t, s)" using session_okD(2) [OF c(1)] by (rule get_now_ok)
  have "\<exists>r s' out. applemidi_sync E sk s = Inr (r, s', out) \<and> table_kept s s' \<and> cmd_data (command (driver s')) ! 59 = 0"
  proof (cases "cmd_type ?c \<noteq> APPLEMIDI_COMMAND_SYNCHRONIZATION \<or> sync_ssrc (cmd_data ?c) = own_ssrc s \<or> sync_count (cmd_data ?c) > 2")
    case True
    let ?d = "put64 8 t (put32 4 0 (put32 0 (own_ssrc s) (cmd_data ?c)))"
    let ?u = "set_sync 1 (set_command APPLEMIDI_COMMAND_SYNCHRONIZATION ?d s)"
    have d: "sync_count ?d < 256" "length ?d = 80" "?d ! 59 = 0" using c(2,3) by (simp_all add: field_defs)
    obtain r out where "transmit E sk ?u = Inr (r, ?u, out)"
      using transmit_sync [OF assms, of ?u sk] d by (auto simp: driver_ops)
    then have "applemidi_sync E sk s = Inr (r, ?u, out)" using t True by (simp add: applemidi_sync_def Let_def)
    then show ?thesis using d
      by (intro exI [of _ r] exI [of _ ?u] exI [of _ out]) (simp add: table_kept_def tracked_def driver_ops)
  next
    case False
    obtain x where x: "set_option x \<subseteq> set_option (drv_peer (driver s)) \<union> members (rtp_session (driver s))"
      "applemidi_sync E sk s = (if sync_count (cmd_data ?c) = 2 then Inr (0, sync_replied 2 t x s, [])
         else transmit E sk (sync_replied (sync_count (cmd_data ?c)) t x s))"
      using sync_known [OF c(1) t False] by metis
    have "\<exists>r out. transmit E sk (sync_replied n t x s) = Inr (r, sync_replied n t x s, out)" if "n = 0 \<or> n = 1" for n
      using that c(2,3) transmit_sync [OF assms, of "sync_replied n t x s" sk]
      by (auto simp: sync_replied_def sync_reply_def driver_ops field_defs)
    moreover have "sync_count (cmd_data ?c) = 0 \<or> sync_count (cmd_data ?c) = 1 \<or> sync_count (cmd_data ?c) = 2"
      using False by (simp add: word_le_nat_alt word_less_nat_alt word_unat_eq_iff) arith
    ultimately obtain n r out where "applemidi_sync E sk s = Inr (r, sync_replied n t x s, out)" using x(2) by metis
    then show ?thesis using x(1) c(2,3)
      by (intro exI [of _ r] exI [of _ "sync_replied n t x s"] exI [of _ out])
        (auto simp: table_kept_def tracked_def sync_replied_def sync_reply_def driver_ops field_defs)
  qed
  then show ?thesis using core_keeps [OF assms(1)] sync_keeps [OF c(1)] by metis
qed


section \<open>The hosts of the session\<close>

text \<open>Seen from outside the table is a bag of hosts, each with its SSRC and its address; a host may be in it several times.\<close>

definition roster :: "apple_state \<Rightarrow> RTPAddress multiset" where
  "roster s = mset (map (\<lambda>p. address (the (peer_store s p))) (peer_list (rtp_session (driver s))))"

definition admit :: "RTPAddress \<Rightarrow> RTPAddress multiset \<Rightarrow> RTPAddress multiset" where
  "admit a hosts = (if size hosts < RTP_MAX_PEERS then add_mset a hosts else hosts)"

lemma roster_members:
  assumes "session_ok s"
  shows "roster s = image_mset (\<lambda>p. address (the (peer_store s p))) (mset_set (members (rtp_session (driver s))))"
  using session_okD(6) [OF assms] by (simp add: roster_def table_ok_def members_def mset_set_set)

lemma members_finite [simp]: "finite (members session)"
  by (simp add: members_def)

lemma roster_size: "session_ok s \<Longrightarrow> size (roster s) = card (members (rtp_session (driver s)))"
  by (simp add: roster_members)

lemma roster_frame:
  assumes "session_ok s" and "session_ok s'" and "members (rtp_session (driver s')) = members (rtp_session (driver s))"
    and "\<And>p r. p \<in> members (rtp_session (driver s)) \<Longrightarrow> peer_store s p = Some r \<Longrightarrow>
      \<exists>r'. peer_store s' p = Some r' \<and> address r' = address r"
  shows "roster s' = roster s"
proof -
  have "address (the (peer_store s' p)) = address (the (peer_store s p))" if m: "p \<in> members (rtp_session (driver s))" for p
  proof -
    obtain r where "peer_store s p = Some r" using session_okD(1) [OF assms(1)] m by (rule peers_ok_peer)
    with assms(4) [OF m this] show ?thesis by auto
  qed
  then show ?thesis using assms(1-3) by (auto simp: roster_members intro: image_mset_cong)
qed

lemma roster_kept:
  assumes "table_kept s s'" and "session_ok s" and "session_ok s'"
  shows "roster s' = roster s"
proof (rule roster_frame [OF assms(2,3)])
  show "members (rtp_session (driver s')) = members (rtp_session (driver s))" using assms(1) by (simp add: table_kept_def)
  fix p r assume "peer_store s p = Some r"
  then have "map_option peer_fixed (peer_store s' p) = Some (peer_fixed r)" using assms(1) by (simp add: table_kept_def same_peers_def)
  then show "\<exists>r'. peer_store s' p = Some r' \<and> address r' = address r" by (auto simp: peer_fixed_def)
qed

lemma table_kept_self [simp]: "table_kept s s"
  by (simp add: table_kept_def)

lemma table_kept_trans: "table_kept s u \<Longrightarrow> table_kept u s' \<Longrightarrow> table_kept s s'"
  by (auto simp: table_kept_def intro: same_peers_trans)

lemma table_kept_command: "table_kept s (set_command t d s)"
  by (simp add: table_kept_def tracked_def driver_ops)

text \<open>A new peer, and a peer that is removed.\<close>

lemma roster_insert:
  assumes "session_ok s" and "session_ok s'" and "members (rtp_session (driver s')) = insert p (members (rtp_session (driver s)))"
    and "peer_store s p = None" and "peer_store s' = (peer_store s)(p \<mapsto> r)"
  shows "roster s' = admit (address r) (roster s)"
proof -
  let ?M = "members (rtp_session (driver s))"
  have p: "p \<notin> ?M" using assms(1,4) by (auto simp: session_ok_def peers_ok_def)
  have "card (insert p ?M) \<le> RTP_MAX_PEERS" using members_bounded [OF assms(2)] assms(3) by simp
  then have "size (roster s) < RTP_MAX_PEERS" using p by (simp add: roster_size [OF assms(1)])
  moreover have "image_mset (\<lambda>q. address (the (((peer_store s)(p \<mapsto> r)) q))) (mset_set ?M) = roster s"
    using p by (auto simp: roster_members [OF assms(1)] intro: image_mset_cong)
  ultimately show ?thesis using p by (simp add: roster_members [OF assms(2)] assms(3,5) admit_def)
qed

lemma roster_remove:
  assumes "session_ok s" and "session_ok s'" and "members (rtp_session (driver s')) = members (rtp_session (driver s)) - {p}"
    and "p \<in> members (rtp_session (driver s))" and "peer_store s p = Some r" and "peer_store s' = (peer_store s)(p := None)"
  shows "address r \<in># roster s" and "roster s' = roster s - {#address r#}"
proof -
  let ?M = "members (rtp_session (driver s))"
  have m: "mset_set ?M = add_mset p (mset_set (?M - {p}))" using assms(4) by (simp add: mset_set.remove)
  have "image_mset (\<lambda>q. address (the (((peer_store s)(p := None)) q))) (mset_set (?M - {p})) =
      image_mset (\<lambda>q. address (the (peer_store s q))) (mset_set (?M - {p}))"
    by (auto intro: image_mset_cong)
  then show "address r \<in># roster s" and "roster s' = roster s - {#address r#}"
    using assms(5) by (simp_all add: roster_members [OF assms(1)] roster_members [OF assms(2)] assms(3,6) m)
qed


section \<open>The timer\<close>

lemma first_peer_member: "first_peer xs = Some p \<Longrightarrow> Some p \<in> set xs"
  by (induction xs) (auto split: if_splits)

lemma next_member:
  assumes "set_option d \<subseteq> members session"
  shows "set_option (snd (next_peer session d)) \<subseteq> members session"
proof -
  have "p \<in> members session" if "first_peer (drop i (peers session)) = Some p" for i p
    using first_peer_member [OF that] by (auto simp: members_def peer_list_def set_occupied dest: in_set_dropD)
  from this [of 0] this show ?thesis
    using assms by (auto simp: next_peer_def split: option.splits)
qed

lemma start_sync_total:
  assumes "core u" and "length (stack_send E) = 64"
  shows "\<exists>j s2 out. start_sync E q 16 a u = Inr (j, s2, out) \<and> core s2 \<and> table_kept u s2"
proof -
  let ?w = "set_command APPLEMIDI_COMMAND_SYNCHRONIZATION (put32 0 (own_ssrc u) (put32 4 3 (cmd_data (command (driver u)))))
    (update_driver (\<lambda>v. v\<lparr>command := (command (driver u))\<lparr>cmd_addr := a, cmd_size := 16\<rparr>\<rparr>) u)"
  have "session_ok ?w" using coreD(1,2) [OF assms(1)] session_okD(5) [OF coreD(1) [OF assms(1)]]
    by (intro session_okI [OF coreD(1) [OF assms(1)]]) (simp_all add: driver_ops DATA_SIZE_def)
  then have w: "core ?w" using assms(1) coreD(2) [OF assms(1)] by (simp add: core_def driver_ops)
  obtain j s2 out where "applemidi_sync E q ?w = Inr (j, s2, out)" "core s2" "table_kept ?w s2" using sync_total [OF w assms(2)] by blast
  then show ?thesis by (auto simp: start_sync_def Let_def table_kept_def tracked_def driver_ops)
qed

lemma core_unlock: "core s \<Longrightarrow> core (set_lock False s)"
  using session_ok_lock [of s False] by (simp add: core_def driver_ops)

text \<open>The timer returns, or it uses the peer of the last exchange of clocks after that was freed.\<close>

text \<open>The timer starts an exchange of clocks with a peer of the table.\<close>

lemma tick_exchange:
  assumes "core s" and "\<not> lock (driver s)" and "length (stack_send E) = 64" and "sync (driver s) = 0"
    and "snd (next_peer (rtp_session (driver s)) (drv_peer (driver s))) = Some p" and "p \<in> members (rtp_session (driver s))"
    and "core u" and "u = update_driver (\<lambda>v. v\<lparr>drv_peer := snd (next_peer (rtp_session v) (drv_peer v))\<rparr>) (set_lock True s)"
  obtains s2 out where "applemidi_idle_timeout E s = Inr (set_lock False s2, Timer_mod 1500 # out)" and "core s2" and "table_kept u s2"
proof -
  obtain r where r: "peer_store s p = Some r" "addr_size (address r) = 16"
    using session_okD(1) [OF coreD(1) [OF assms(1)]] assms(6) by (rule peers_ok_peer)
  obtain q where q: "rtp_socket (driver s) = Some q" using coreD(5) [OF assms(1)] by auto
  obtain j s2 out where s2: "start_sync E q 16 (addr (address r)) u = Inr (j, s2, out)" "core s2" "table_kept u s2"
    using start_sync_total [OF assms(7,3)] by blast
  have "applemidi_idle_timeout E s = Inr (set_lock False s2, Timer_mod 1500 # out)"
    using assms(2,4,5) r q s2(1)
    by (simp add: applemidi_idle_timeout_def Let_def driver_ops RTPPeerGetAddress_def get_peer_def assms(8))
  then show thesis using s2(2,3) by (rule that)
qed

lemma tick_live:
  assumes "live s" and "length (stack_send E) = 64"
  shows "(\<exists>s' out. applemidi_idle_timeout E s = Inr (s', out) \<and> live s' \<and> table_kept s s') \<or>
    (applemidi_idle_timeout E s = Inl Use_after_free \<and> stale s)"
proof -
  have c: "core s" and n: "notes_ready s" and l: "\<not> lock (driver s)" using assms(1) by (simp_all add: live_def)
  let ?p = "snd (next_peer (rtp_session (driver s)) (drv_peer (driver s)))"
  let ?u = "update_driver (\<lambda>v. v\<lparr>drv_peer := snd (next_peer (rtp_session v) (drv_peer v))\<rparr>) (set_lock True s)"
  have "session_ok (set_lock True s)" using coreD(1) [OF c] by (rule session_ok_lock)
  then have "session_ok ?u" by (rule session_okI) (use coreD(1) [OF c] in \<open>auto simp: driver_ops dest: session_okD(4,5)\<close>)
  then have u: "core ?u" using c by (simp add: core_def driver_ops)
  have kept: "table_kept s ?u"
    using next_member [of "drv_peer (driver s)" "rtp_session (driver s)"] by (simp add: table_kept_def tracked_def driver_ops)
  have idle: "live (set_lock False ?u)" "table_kept s (set_lock False ?u)"
    using core_unlock [OF u] n kept by (simp_all add: live_def driver_ops notes_ready_def table_kept_def tracked_def)
  show ?thesis
  proof (cases "?p = None \<or> sync (driver s) \<noteq> 0")
    case True
    then have "applemidi_idle_timeout E s = Inr (set_lock False ?u, [Timer_mod 1500])"
      using l by (auto simp: applemidi_idle_timeout_def Let_def driver_ops split: option.splits)
    with idle show ?thesis by blast
  next
    case False
    then obtain p where p: "?p = Some p" "sync (driver s) = 0" by auto
    show ?thesis
    proof (cases "p \<in> members (rtp_session (driver s))")
      case True
      obtain s2 out where run: "applemidi_idle_timeout E s = Inr (set_lock False s2, Timer_mod 1500 # out)"
        and s2: "core s2" "table_kept ?u s2"
        using c l assms(2) p(2,1) True u refl by (rule tick_exchange)
      have "notes_ready (set_lock False s2)"
        using timeout_keeps [OF coreD(1) [OF c] run] n by (auto simp: keeps_def intro: notes_frame)
      then have "live (set_lock False s2)" using core_unlock [OF s2(1)] by (simp add: live_def driver_ops)
      moreover have "table_kept s (set_lock False s2)"
        using kept s2(2) by (auto simp: table_kept_def tracked_def driver_ops intro: same_peers_trans)
      ultimately show ?thesis using run by blast
    next
      case False
      then have "\<not> tracked s" using next_member [of "drv_peer (driver s)" "rtp_session (driver s)"] p(1) by (auto simp: tracked_def)
      moreover have "peer_store s p = None" using False session_okD(1) [OF coreD(1) [OF c]] by (auto simp: peers_ok_def)
      ultimately show ?thesis
        using l p by (simp add: applemidi_idle_timeout_def Let_def driver_ops RTPPeerGetAddress_def get_peer_def stale_def)
    qed
  qed
qed


section \<open>Messages\<close>

fun view_type :: "message_view \<Rightarrow> u16" where
  "view_type (Session t version tok s name) = t"
| "view_type (Sync s n t1 t2 t3) = APPLEMIDI_COMMAND_SYNCHRONIZATION"
| "view_type (Feedback s n) = APPLEMIDI_COMMAND_RECEIVER_FEEDBACK"

lemma name_end:
  assumes "length d = 80" and "d ! 59 = 0" and "length name \<le> 47"
  shows "overlay (overlay d 12 (name @ [0])) (Suc (12 + length name)) [0] ! 59 = 0"
proof -
  have "overlay (overlay d 12 (name @ [0])) (Suc (12 + length name)) [0] = overlay d 12 (name @ [0, 0])"
    using overlay_overlay [of 12 "name @ [0]" "[0]" d] assms(1,3) by simp
  moreover have "length name = 47 \<or> length name = 46 \<or> length name < 46" using assms(3) by arith
  ultimately show ?thesis using assms(1,2) by (auto simp: overlay_def nth_append)
qed

lemma decode_live:
  assumes "sendable_view v" and "length (cmd_data c) = 80" and "cmd_data c ! 59 = 0"
  shows "\<exists>c'. decode_command (wire v @ rest) (length (wire v)) c = (0, c') \<and> length (cmd_data c') = 80 \<and> cmd_data c' ! 59 = 0 \<and>
    cmd_type c' = view_type v \<and> cmd_size c' = cmd_size c \<and> cmd_addr c' = cmd_addr c \<and>
    (\<forall>t version tok s name. v = Session t version tok s name \<longrightarrow> session_ssrc (cmd_data c') = s)"
proof (cases v)
  case (Session t version tok s name)
  let ?d = "put32 8 s (put32 4 tok (put32 0 version (cmd_data c)))"
  show ?thesis
  proof (cases "name = []")
    case True
    then show ?thesis using Session assms by (simp add: decode_command_def Let_def field_defs)
  next
    case False
    have "decode_command (wire v @ rest) (length (wire v)) c =
        (0, c\<lparr>cmd_type := t, cmd_data := overlay (overlay ?d 12 (name @ [0])) (Suc (12 + length name)) [0]\<rparr>)"
      using False Session assms(1) by (simp add: decode_command_def Let_def NAME_SIZE_def numeral_eq_Suc)
    moreover have "overlay (overlay ?d 12 (name @ [0])) (Suc (12 + length name)) [0] ! 59 = 0"
      using Session assms by (intro name_end) simp_all
    moreover have "session_ssrc (overlay (overlay ?d 12 (name @ [0])) (Suc (12 + length name)) [0]) = s"
      using Session assms by (simp add: field_defs)
    ultimately show ?thesis using Session assms by simp
  qed
next
  case (Sync s n t1 t2 t3)
  with assms show ?thesis by (simp add: decode_command_def commands_differ be64_def Let_def)
next
  case (Feedback s n)
  with assms show ?thesis by (simp add: decode_command_def commands_differ)
qed


lemma name_sendable:
  assumes "session_command (cmd_type c)" and "length (cmd_data c) = 80" and "cmd_data c ! 59 = 0"
  shows "\<exists>v. command_view c = Some v \<and> sendable_view v"
proof -
  let ?n = "takeWhile (\<lambda>b. b \<noteq> 0) (session_name (cmd_data c))"
  have "session_name (cmd_data c) ! 47 = 0" using assms(2,3) by (simp add: session_name_def NAME_SIZE_def)
  moreover have "?n ! 47 = session_name (cmd_data c) ! 47 \<and> ?n ! 47 \<noteq> 0" if "47 < length ?n"
    using takeWhile_nth [OF that] nth_mem [OF that] set_takeWhileD by fastforce
  ultimately have "length ?n \<le> 47" by (metis linorder_not_less)
  moreover have "0 \<notin> set ?n" by (auto dest: set_takeWhileD)
  ultimately show ?thesis using assms(1) by (simp add: command_view_def Let_def)
qed

text \<open>The host a command names, and the answer to its invitation on the RTP port.\<close>

definition inviting :: "AppleMIDICommand \<Rightarrow> RTPAddress" where
  "inviting c = \<lparr>ssrc = session_ssrc (cmd_data c), addr_size = 16, addr = cmd_addr c\<rparr>"

lemma accept_live:
  assumes "core s" and "new_peer E = Some p" and "peer_store s p = None" and "cmd_size (command (driver s)) = 16"
  shows "\<exists>s'. accept_peer E s = Inr s' \<and> core s' \<and> command (driver s') = command (driver s) \<and> session_frame s s' \<and>
    (tracked s \<longrightarrow> tracked s') \<and> roster s' = admit (inviting (command (driver s))) (roster s)"
  using coreD(1) [OF assms(1), THEN session_okD(1)] assms(2-4)
proof (cases rule: accept_peer_cases)
  case (added s' slot r)
  have "fresh_peer E s" using assms(2,3) by (simp add: fresh_peer_def)
  from accept_keeps [OF coreD(1) [OF assms(1)] this assms(4) added(1)] have k: "keeps s s' []" "command (driver s') = command (driver s)" by auto
  have "drv_peer (driver s') = drv_peer (driver s)" "peer_store s' = (peer_store s)(p \<mapsto> r)" by (simp_all add: added(3))
  moreover from this have "roster s' = admit (address r) (roster s)"
    using k(1) added(5) by (intro roster_insert [OF coreD(1) [OF assms(1)] _ _ assms(3)]) (simp_all add: keeps_def)
  moreover have "core s'" using assms(1) k by (intro core_keeps [OF assms(1) k(1)]) (simp add: core_def)
  ultimately show ?thesis using added(1,4,5) k by (auto simp: keeps_def tracked_def inviting_def)
next
  case full
  then show ?thesis using assms(1) by (simp add: admit_def roster_size [OF coreD(1) [OF assms(1)]])
qed

text \<open>A command with a name of the driver's command, as the driver sends it.\<close>

lemma answer_live:
  assumes "core w" and "session_command t" and "length d = 80" and "d ! 59 = 0" and "length (stack_send E) = 64"
  shows "\<exists>r out. transmit E sk (set_command t d w) = Inr (r, set_command t d w, out)" and "core (set_command t d w)"
proof -
  let ?w = "set_command t d w"
  have "\<exists>v. command_view (command (driver ?w)) = Some v \<and> sendable_view v"
    using name_sendable [of "command (driver ?w)"] assms(2-4) by (simp add: driver_ops)
  then obtain v where v: "command_view (command (driver ?w)) = Some v" "sendable_view v" by blast
  obtain k where k: "control_socket (driver w) = Some k" using coreD(4) [OF assms(1)] by auto
  show "\<exists>r out. transmit E sk ?w = Inr (r, ?w, out)"
    using transmit_total [OF v _ assms(5), of k sk] assms(3) k coreD(5) [OF assms(1)] by (simp add: driver_ops DATA_SIZE_def)
  have "session_ok ?w" using assms(3) session_okD(5) [OF coreD(1) [OF assms(1)]]
    by (intro session_okI [OF coreD(1) [OF assms(1)]]) (simp_all add: driver_ops DATA_SIZE_def)
  then show "core ?w" using assms(1,4) by (simp add: core_def driver_ops)
qed

definition invited :: "apple_state \<Rightarrow> nat \<Rightarrow> bool" where
  "invited s sk \<longleftrightarrow> cmd_type (command (driver s)) = APPLEMIDI_COMMAND_INVITATION \<and> accept (driver s) \<noteq> 0 \<and> rtp_socket (driver s) = Some sk"

lemma invitation_live:
  assumes "core s" and "new_peer E = Some p" and "peer_store s p = None" and "cmd_size (command (driver s)) = 16"
    and "length (stack_send E) = 64" and "cmd_type (command (driver s)) = APPLEMIDI_COMMAND_INVITATION"
  shows "\<exists>r s' out. applemidi_respond E sk s = Inr (r, s', out) \<and> core s' \<and> (tracked s \<longrightarrow> tracked s') \<and>
    roster s' = (if invited s sk then admit (inviting (command (driver s))) (roster s) else roster s)"
proof -
  note c = coreD [OF assms(1)]
  let ?d = "put32 8 (own_ssrc s) (cmd_data (command (driver s)))"
  have d: "length ?d = 80" "?d ! 59 = 0" using c(2,3) by simp_all
  have cmds: "session_command APPLEMIDI_COMMAND_INVITATION_ACCEPTED" "session_command APPLEMIDI_COMMAND_INVITATION_REJECTED"
    by (simp_all add: session_command_def)
  have same: "(tracked w \<longrightarrow> tracked (set_command t ?d w)) \<and> roster (set_command t ?d w) = roster w" if "core w" "session_command t" for t w
    using roster_kept [OF table_kept_command coreD(1) [OF that(1)] coreD(1) [OF answer_live(2) [OF that d assms(5)]]]
    by (simp add: tracked_def driver_ops)
  obtain k q where sock: "control_socket (driver s) = Some k" "rtp_socket (driver s) = Some q" using c(4,5) by auto
  obtain w where w: "accept_peer E s = Inr w" "core w" "command (driver w) = command (driver s)" "session_frame s w"
      "tracked s \<longrightarrow> tracked w" "roster w = admit (inviting (command (driver s))) (roster s)"
    using accept_live [OF assms(1-4)] by blast
  have own: "self (rtp_session (driver w)) = self (rtp_session (driver s))" using w(4) by (auto simp: session_frame_def)
  have "applemidi_respond E sk s = (if accept (driver s) = 0 then transmit E sk (set_command APPLEMIDI_COMMAND_INVITATION_REJECTED ?d s)
      else if sk = q then transmit E sk (set_command APPLEMIDI_COMMAND_INVITATION_ACCEPTED ?d w)
      else transmit E sk (set_command APPLEMIDI_COMMAND_INVITATION_ACCEPTED ?d s))"
    using sock w(1) own assms(6) by (simp add: applemidi_respond_def Let_def)
  moreover have "invited s sk \<longleftrightarrow> accept (driver s) \<noteq> 0 \<and> sk = q" using assms(6) sock(2) by (auto simp: invited_def)
  ultimately obtain t u where u: "applemidi_respond E sk s = transmit E sk (set_command t ?d u)" "session_command t" "core u"
    "tracked s \<longrightarrow> tracked u" "roster u = (if invited s sk then admit (inviting (command (driver s))) (roster s) else roster s)"
    using cmds assms(1) w(2,5,6) by metis
  then show ?thesis using answer_live [OF u(3,2) d assms(5)] same [OF u(3,2)] by metis
qed

text \<open>A host that ends its session: one of the peers with its SSRC is removed, if there is one.\<close>

definition departed :: "u32 \<Rightarrow> RTPAddress multiset \<Rightarrow> RTPAddress multiset \<Rightarrow> bool" where
  "departed ss hosts hosts' \<longleftrightarrow> (\<exists>a \<in># hosts. ssrc a = ss \<and> hosts' = hosts - {#a#}) \<or> ((\<forall>a \<in># hosts. ssrc a \<noteq> ss) \<and> hosts' = hosts)"

lemma ending_live:
  assumes "core s" and "cmd_type (command (driver s)) = APPLEMIDI_COMMAND_ENDSESSION"
  shows "\<exists>s'. applemidi_respond E sk s = Inr (0, s', []) \<and> core s' \<and>
    departed (session_ssrc (cmd_data (command (driver s)))) (roster s) (roster s')"
proof -
  note c = coreD [OF assms(1)] and ok = session_okD [OF coreD(1) [OF assms(1)]]
  let ?ss = "session_ssrc (cmd_data (command (driver s)))"
  have key: "peer_ssrc (peer_store s) q = ssrc (address (the (peer_store s q)))" if "q \<in> members (rtp_session (driver s))" for q
    using that by (auto simp: peer_ssrc_def elim!: peers_ok_peer [OF ok(1)])
  show ?thesis
  proof (rule find_peer_cases [OF ok(6), of ?ss])
    fix q assume q: "q \<in> members (rtp_session (driver s))" "peer_ssrc (peer_store s) q = ?ss"
      "RTPSessionFindPeerBySSRC (rtp_session (driver s)) ?ss (peer_store s) = Inr (0, Some q)"
    obtain r where r: "peer_store s q = Some r" using ok(1) q(1) by (rule peers_ok_peer)
    obtain rtp where rtp: "RTPSessionRemovePeer (rtp_session (driver s)) q (peer_store s) = Inr (0, rtp, (peer_store s)(q := None))"
      "\<exists>ps. rtp = (rtp_session (driver s))\<lparr>peers := ps\<rparr>" "peers_ok (removed_peer rtp q s)" "members rtp = members (rtp_session (driver s)) - {q}"
      using ok(1) q(1) by (rule remove_member)
    have k: "keeps s (removed_peer rtp q s) []" using c(1) rtp(3,2) by (rule removed_keeps)
    then have "session_ok (removed_peer rtp q s)" by (simp add: keeps_def)
    from roster_remove [OF c(1) this _ q(1) r] have "departed ?ss (roster s) (roster (removed_peer rtp q s))"
      using rtp(4) r q(2) unfolding departed_def by (auto simp: removed_peer_def peer_ssrc_def)
    moreover have "core (removed_peer rtp q s)" using c(3) by (intro core_keeps [OF assms(1) k]) (simp add: removed_peer_def)
    ultimately show ?thesis
      using rtp(1) q(3) assms(2) by (auto simp: applemidi_respond_def Let_def commands_differ removed_peer_def)
  next
    assume n: "\<forall>q \<in> members (rtp_session (driver s)). peer_ssrc (peer_store s) q \<noteq> ?ss"
      "RTPSessionFindPeerBySSRC (rtp_session (driver s)) ?ss (peer_store s) = Inr (1, None)"
    then have "departed ?ss (roster s) (roster s)" using key by (auto simp: departed_def roster_members [OF c(1)])
    then show ?thesis using n(2) assms by (simp add: applemidi_respond_def Let_def commands_differ)
  qed
qed

lemma other_live:
  assumes "core s" and "length (stack_send E) = 64"
    and "cmd_type (command (driver s)) = APPLEMIDI_COMMAND_SYNCHRONIZATION \<or> cmd_type (command (driver s)) = APPLEMIDI_COMMAND_RECEIVER_FEEDBACK \<or>
      cmd_type (command (driver s)) = APPLEMIDI_COMMAND_INVITATION_ACCEPTED \<or> cmd_type (command (driver s)) = APPLEMIDI_COMMAND_INVITATION_REJECTED"
  shows "\<exists>r s' out. applemidi_respond E sk s = Inr (r, s', out) \<and> core s' \<and> table_kept s s'"
  using assms(1,3) sync_total [OF assms(1,2), of sk] by (auto simp: applemidi_respond_def Let_def commands_differ)

lemma core_lock: "core (set_lock b s) = core s"
  using session_ok_lock [of s b] session_ok_lock [of "set_lock b s" "lock (driver s)"]
  by (auto simp: core_def driver_ops update_driver_def)

lemma respond_live:
  assumes "core s" and "new_peer E = Some p" and "peer_store s p = None" and "cmd_size (command (driver s)) = 16"
    and "length (stack_send E) = 64" and "cmd_type (command (driver s)) = view_type v" and "sendable_view v"
  shows "\<exists>r s' out. applemidi_respond E sk s = Inr (r, s', out) \<and> core s' \<and>
    (if view_type v = APPLEMIDI_COMMAND_ENDSESSION then departed (session_ssrc (cmd_data (command (driver s)))) (roster s) (roster s')
     else (tracked s \<longrightarrow> tracked s') \<and>
       roster s' = (if invited s sk then admit (inviting (command (driver s))) (roster s) else roster s))"
proof -
  have "session_command (view_type v) \<or> view_type v = APPLEMIDI_COMMAND_SYNCHRONIZATION \<or> view_type v = APPLEMIDI_COMMAND_RECEIVER_FEEDBACK"
    using assms(7) by (cases v) auto
  then consider "view_type v = APPLEMIDI_COMMAND_INVITATION" | "view_type v = APPLEMIDI_COMMAND_ENDSESSION" |
    "view_type v = APPLEMIDI_COMMAND_SYNCHRONIZATION \<or> view_type v = APPLEMIDI_COMMAND_RECEIVER_FEEDBACK \<or>
      view_type v = APPLEMIDI_COMMAND_INVITATION_ACCEPTED \<or> view_type v = APPLEMIDI_COMMAND_INVITATION_REJECTED"
    by (auto simp: session_command_def)
  then show ?thesis
  proof cases
    case 1
    then have "view_type v \<noteq> APPLEMIDI_COMMAND_ENDSESSION" by (simp add: commands_differ)
    with invitation_live [OF assms(1-5), of sk] show ?thesis by (simp add: assms(6) 1)
  next
    case 2
    with ending_live [OF assms(1), of E sk] show ?thesis by (auto simp: assms(6))
  next
    case 3
    then have n: "view_type v \<noteq> APPLEMIDI_COMMAND_ENDSESSION" "\<not> invited s sk"
      by (auto simp: invited_def assms(6) commands_differ)
    obtain r s' out where "applemidi_respond E sk s = Inr (r, s', out)" "core s'" "table_kept s s'"
      using other_live [OF assms(1,5)] 3 assms(6) by metis
    then show ?thesis using n roster_kept [OF _ coreD(1) [OF assms(1)]] coreD(1) by (auto simp: table_kept_def)
  qed
qed

text \<open>A message of another host.\<close>

lemma message_live:
  assumes "live s" and "sendable_view v" and "stack_ok E" and "new_peer E = Some p" and "peer_store s p = None"
  shows "\<exists>s' out. receive_skb E sk (udp_skb port dport checksum src (wire v)) s = Inr (s', out) \<and> live s' \<and>
    (case v of
       Session t version tok ss name \<Rightarrow>
         if t = APPLEMIDI_COMMAND_ENDSESSION then departed ss (roster s) (roster s')
         else (tracked s \<longrightarrow> tracked s') \<and>
           roster s' = (if t = APPLEMIDI_COMMAND_INVITATION \<and> rtp_socket (driver s) = Some sk
             then admit \<lparr>ssrc = ss, addr_size = 16, addr = inet src port\<rparr> (roster s) else roster s)
     | _ \<Rightarrow> (tracked s \<longrightarrow> tracked s') \<and> roster s' = roster s)"
proof -
  have c: "core s" and n: "notes_ready s" and l: "\<not> lock (driver s)" using assms(1) by (simp_all add: live_def)
  have st: "length (stack_send E) = 64" "length (stack_recv E) = 64" using assms(3) by (simp_all add: stack_ok_def)
  let ?c = "from_addr src port (command (driver s))"
  obtain d where d: "decode_command (wire v @ drop (length (wire v)) (stack_recv E)) (length (wire v)) ?c = (0, d)" "length (cmd_data d) = 80"
    "cmd_data d ! 59 = 0" "cmd_type d = view_type v" "cmd_size d = 16" "cmd_addr d = inet src port"
    "\<And>t version tok ss name. v = Session t version tok ss name \<Longrightarrow> session_ssrc (cmd_data d) = ss"
    using decode_live [OF assms(2), of ?c "drop (length (wire v)) (stack_recv E)"] coreD(2,3) [OF c] by (auto simp: from_addr_def inet_def)
  let ?u = "update_driver (\<lambda>v. v\<lparr>command := d\<rparr>) (set_lock True s)"
  have "session_ok ?u" using d session_okD(5) [OF coreD(1) [OF c]]
    by (intro session_okI [OF coreD(1) [OF c]]) (simp_all add: driver_ops DATA_SIZE_def)
  then have u: "core ?u" using c d by (simp add: core_def driver_ops)
  have same: "roster ?u = roster s" "tracked ?u = tracked s"
    by (simp_all add: roster_def tracked_def driver_ops)
  have cmd: "command (driver ?u) = d" by simp
  have u': "peer_store ?u p = None" "cmd_size (command (driver ?u)) = 16" "cmd_type (command (driver ?u)) = view_type v"
    using d(4,5) assms(5) by (simp_all add: set_lock_def)
  obtain r s2 out where s2: "applemidi_respond E sk ?u = Inr (r, s2, out)" "core s2"
    and hosts: "if view_type v = APPLEMIDI_COMMAND_ENDSESSION then departed (session_ssrc (cmd_data d)) (roster s) (roster s2)
       else (tracked s \<longrightarrow> tracked s2) \<and> roster s2 = (if invited ?u sk then admit (inviting d) (roster s) else roster s)"
    using respond_live [OF u assms(4) u'(1,2) st(1) u'(3) assms(2), of sk] unfolding same cmd by blast
  have run: "receive_skb E sk (udp_skb port dport checksum src (wire v)) s = Inr (set_lock False s2, out)"
    using receive_decoded [OF assms(2) st(2) l d(1), of sk dport checksum] s2(1) by simp
  have "fresh_peer E s" using assms(4,5) by (simp add: fresh_peer_def)
  from receive_keeps [OF coreD(1) [OF c] this run] n have "notes_ready (set_lock False s2)" by (auto simp: keeps_def intro: notes_frame)
  with s2(2) have "live (set_lock False s2)" by (simp add: live_def core_lock) (simp add: driver_ops)
  moreover have "roster (set_lock False s2) = roster s2" "tracked (set_lock False s2) = tracked s2"
    by (simp_all add: roster_def tracked_def driver_ops)
  moreover have "invited ?u sk \<longleftrightarrow> view_type v = APPLEMIDI_COMMAND_INVITATION \<and> rtp_socket (driver s) = Some sk"
    using c by (simp add: invited_def d(4) driver_ops core_def)
  ultimately show ?thesis using run hosts d(6,7) by (cases v) (auto simp: inviting_def commands_differ)
qed

section \<open>Note events\<close>

lemma note_live:
  assumes "live s" and "note_event ev"
  shows "\<exists>s' out. alsa_input E ev s = Inr (0, s', out) \<and> live s' \<and> table_kept s s'"
proof -
  have c: "core s" and l: "\<not> lock (driver s)" using assms(1) by (simp_all add: live_def)
  obtain a ms b rbuf mb buf where n: "base_port (base (driver s)) = Some a" "length (bytes (message_data (alsa_msg a))) = 4"
    "rtpmidi_session (driver s) = Some ms" "session_buffers (rtp_session (driver s)) ms (mem s) b rbuf mb buf" "9 \<le> length buf"
    using assms(1) by (auto simp: live_def notes_ready_def)
  let ?m = "event_message ev (alsa_msg a)" and ?rtp = "rtp_session (driver s)"
  note v = event_message_valid [of ev "alsa_msg a"]
  have vl: "valid_list enc_command valid_command (True, timestamp ?m, 0) [timed ?m]" using v(2,3) note_event_valid [OF assms(2)] by simp
  obtain res x h m out rbuf' buf' where send: "RTPMIDISessionSend (RTP_MAX_PEERS + 1) (stack_w E) (network E) ?rtp ms
      [Some ?m] (peer_store s) (mem s) = Some (Inr (res, x, h, m, out))" "session_buffers ?rtp x m b rbuf' mb buf'" "length buf' = length buf"
    using send_total [OF session_okD(6) [OF coreD(1) [OF c]] n(4,5) v(1) vl] by blast
  define s' where "s' = update_driver (\<lambda>v. v\<lparr>rtpmidi_session := Some x, lock := False\<rparr>)
      ((update_driver (\<lambda>v. v\<lparr>base := (base v)\<lparr>base_port := Some (a\<lparr>alsa_msg := ?m\<rparr>)\<rparr>\<rparr>) (set_lock True s))\<lparr>peer_store := h, mem := m\<rparr>)"
  have "send_note E a ?m (set_lock True s) = Inr (s', map (Send (the (socket ?rtp))) out)"
    using send(1) n(3) by (simp add: send_note_def Let_def s'_def driver_ops del: One_nat_def)
  then have run: "alsa_input E ev s = Inr (0, s', map (Send (the (socket ?rtp))) out)"
    by (simp add: input_note [OF l n(1,2) assms(2)])
  have e: "driver s' = (driver s)\<lparr>base := (base (driver s))\<lparr>base_port := Some (a\<lparr>alsa_msg := ?m\<rparr>)\<rparr>, rtpmidi_session := Some x, lock := False\<rparr>"
    "mem s' = m" by (simp_all add: s'_def driver_ops update_driver_def)
  have "core s'" using c note_keeps [OF coreD(1) [OF c] run] by (simp add: core_def e)
  moreover have "notes_ready s'"
    using send(2,3) n(5) by (simp add: notes_ready_def e event_message_def) metis
  moreover have "table_kept s s'" using send_peers(1) [OF send(1)] by (simp add: table_kept_def tracked_def e) (simp add: s'_def update_driver_def)
  ultimately show ?thesis using run by (auto simp: live_def e)
qed


lemma live_note_sent:
  assumes "live s" and "note_event ev" and "socket_takes_all (network E)"
  shows "\<exists>s' pks payload. alsa_input E ev s = Inr (0, s', map (Send (the (socket (rtp_session (driver s))))) pks) \<and>
    list_all2 (packet_for (rtp_session (driver s)) (peer_store s) 0 payload) (peer_list (rtp_session (driver s))) pks \<and>
    dec_payload 0 payload = Some [(0, note_bytes ev)] \<and> \<not> lock (driver s')"
proof -
  have ok: "session_ok s" "\<not> lock (driver s)" using assms(1) by (simp_all add: live_def core_def)
  obtain a ms b rbuf mb buf where n: "base_port (base (driver s)) = Some a" "length (bytes (message_data (alsa_msg a))) = 4"
    "rtpmidi_session (driver s) = Some ms" "session_buffers (rtp_session (driver s)) ms (mem s) b rbuf mb buf" "9 \<le> length buf"
    using assms(1) by (auto simp: live_def notes_ready_def)
  from note_sent [OF ok n(1,2) assms(2,3) n(3-5)] show ?thesis by blast
qed

end
