(* ===== verification/Apple_Traffic.thy ===== *)
theory Apple_Traffic
  imports Apple_Handlers
begin

text \<open>
  Traffic that keeps to the protocol: messages its format can carry, note events, and runs of the timer, on any network. On
  it every handler returns, as long as no host ends its session (the peer of the last exchange of clocks would be used after
  it was freed); a module that was loaded with its sockets and its ALSA client serves it for ever. What the handlers keep beyond the well-formed state is that nothing is locked, both sockets are
  open, the peer of the last exchange is still a peer, and every name in the command ends before its 48th character.
\<close>

section \<open>Traffic\<close>

text \<open>A run of the timer, a message of another host to one of the two ports, or a note of the keyboard.\<close>

datatype traffic =
    Tick apple_env
  | Message apple_env bool u16 u16 u16 u32 message_view
  | Note apple_env alsa_event

text \<open>Messages and notes the formats can carry; \<open>ENDSESSION\<close> is left out, and the arrays on the stack have their size.\<close>

fun conforming :: "traffic \<Rightarrow> bool" where
  "conforming (Tick E) \<longleftrightarrow> stack_ok E"
| "conforming (Message E control port dport checksum src v) \<longleftrightarrow> stack_ok E \<and> sendable_view v \<and> view_type v \<noteq> APPLEMIDI_COMMAND_ENDSESSION"
| "conforming (Note E ev) \<longleftrightarrow> note_event ev"

text \<open>The end of a session, as another host announces it.\<close>

fun ending :: "traffic \<Rightarrow> bool" where
  "ending (Message E control port dport checksum src v) \<longleftrightarrow> stack_ok E \<and> sendable_view v \<and> view_type v = APPLEMIDI_COMMAND_ENDSESSION"
| "ending _ \<longleftrightarrow> False"

text \<open>
  What the protocol means for the hosts of the session: a host joins with its invitation to the RTP port, if there is room;
  it leaves with the end of its session; nothing else changes the hosts.
\<close>

fun membership :: "RTPAddress multiset \<Rightarrow> traffic \<Rightarrow> RTPAddress multiset \<Rightarrow> bool" where
  "membership hosts (Message E control port dport checksum src (Session t version tok ss name)) hosts' \<longleftrightarrow>
     (if t = APPLEMIDI_COMMAND_ENDSESSION then departed ss hosts hosts'
      else if t = APPLEMIDI_COMMAND_INVITATION \<and> \<not> control
        then hosts' = admit \<lparr>ssrc = ss, addr_size = 16, addr = inet src port\<rparr> hosts
      else hosts' = hosts)"
| "membership hosts _ hosts' \<longleftrightarrow> hosts' = hosts"

text \<open>\<open>kmalloc\<close> gives an object that is not in use.\<close>

definition allocator :: "(peer_heap \<Rightarrow> peer_ptr) \<Rightarrow> bool" where
  "allocator alloc \<longleftrightarrow> (\<forall>h. finite (dom h) \<longrightarrow> h (alloc h) = None)"

text \<open>The handler of each, with the calls so far.\<close>

fun serve :: "(peer_heap \<Rightarrow> peer_ptr) \<Rightarrow> apple_state \<times> acall list \<Rightarrow> traffic \<Rightarrow> (apple_state \<times> acall list) res" where
  "serve alloc (s, out) (Tick E) =
     bind_res (applemidi_idle_timeout E s) (\<lambda>(s, out'). Inr (s, out @ out'))"
| "serve alloc (s, out) (Message E control port dport checksum src v) =
     bind_res (deref (if control then control_socket (driver s) else rtp_socket (driver s))) (\<lambda>sk.
     bind_res (socket_callback sk [(E\<lparr>new_peer := Some (alloc (peer_store s))\<rparr>, udp_skb port dport checksum src (wire v))] s)
       (\<lambda>(s, out'). Inr (s, out @ out')))"
| "serve alloc (s, out) (Note E ev) =
     bind_res (alsa_input E ev s) (\<lambda>(_, s, out'). Inr (s, out @ out'))"

definition served :: "apple_state \<Rightarrow> apple_state \<times> acall list \<Rightarrow> bool" where
  "served s0 z \<longleftrightarrow> live (fst z) \<and> apple_run s0 (snd z) (fst z)"

lemma peers_finite:
  assumes "session_ok s"
  shows "finite (dom (peer_store s))"
proof -
  have "dom (peer_store s) = members (rtp_session (driver s))" using session_okD(1) [OF assms] by (simp add: peers_ok_def)
  then show ?thesis by (simp add: members_def)
qed

lemma membership_kept:
  assumes "table_kept s s'" and "session_ok s" and "session_ok s'" and "\<And>hosts'. membership (roster s) e hosts' \<longleftrightarrow> hosts' = roster s"
  shows "membership (roster s) e (roster s')" and "tracked s \<longrightarrow> tracked s'"
  using assms roster_kept [OF assms(1-3)] by (simp_all add: table_kept_def)

definition followed :: "apple_state \<Rightarrow> traffic \<Rightarrow> apple_state \<Rightarrow> bool" where
  "followed s e s' \<longleftrightarrow> membership (roster s) e (roster s') \<and> (tracked s \<and> \<not> ending e \<longrightarrow> tracked s')"

lemma message_served:
  assumes "served s0 (s, out)" and "conforming (Message E control port dport checksum src v) \<or> ending (Message E control port dport checksum src v)"
    and "allocator alloc"
  shows "\<exists>z'. serve alloc (s, out) (Message E control port dport checksum src v) = Inr z' \<and> served s0 z' \<and>
    followed s (Message E control port dport checksum src v) (fst z')"
proof -
  have s: "live s" "apple_run s0 out s" using assms(1) by (simp_all add: served_def)
  have c: "core s" using s(1) by (simp add: live_def)
  let ?E = "E\<lparr>new_peer := Some (alloc (peer_store s))\<rparr>" and ?skb = "udp_skb port dport checksum src (wire v)"
  have free: "peer_store s (alloc (peer_store s)) = None"
    using assms(3) peers_finite [OF coreD(1) [OF c]] by (simp add: allocator_def)
  have v: "sendable_view v" "stack_ok ?E" using assms(2) by (auto simp: stack_ok_def)
  obtain sk where sk: "(if control then control_socket (driver s) else rtp_socket (driver s)) = Some sk"
    using coreD(4,5) [OF c] by (cases control) auto
  then have rtp: "rtp_socket (driver s) = Some sk \<longleftrightarrow> \<not> control" using c by (auto simp: core_def split: if_splits)
  obtain s' o' where t: "receive_skb ?E sk ?skb s = Inr (s', o')" "live s'"
    and hosts: "case v of
       Session t version tok ss name \<Rightarrow>
         if t = APPLEMIDI_COMMAND_ENDSESSION then departed ss (roster s) (roster s')
         else (tracked s \<longrightarrow> tracked s') \<and>
           roster s' = (if t = APPLEMIDI_COMMAND_INVITATION \<and> rtp_socket (driver s) = Some sk
             then admit \<lparr>ssrc = ss, addr_size = 16, addr = inet src port\<rparr> (roster s) else roster s)
     | _ \<Rightarrow> (tracked s \<longrightarrow> tracked s') \<and> roster s' = roster s"
    using message_live [OF s(1) v, of _ sk port dport checksum src] free by auto
  have "followed s (Message E control port dport checksum src v) s'"
    using hosts assms(2) unfolding followed_def rtp by (cases v) (auto split: if_splits)
  moreover have "fresh_queue sk [(?E, ?skb)] s" using free t(1) by (simp add: fresh_peer_def)
  moreover have cb: "socket_callback sk [(?E, ?skb)] s = Inr (s', o')" using t(1) by simp
  ultimately have "apple_run s0 (out @ o') s'" "followed s (Message E control port dport checksum src v) s'"
    using apple_run.step [OF s(2) apple_step.datagrams] sk by (metis (full_types))+
  with t(2) sk cb show ?thesis by (simp add: served_def del: socket_callback.simps)
qed

lemma serve_refines:
  assumes "served s0 z" and "conforming e \<or> ending e" and "allocator alloc"
  shows "(\<exists>z'. serve alloc z e = Inr z' \<and> served s0 z' \<and> followed (fst z) e (fst z')) \<or>
    (serve alloc z e = Inl Use_after_free \<and> (\<exists>E. e = Tick E) \<and> stale (fst z))"
proof -
  obtain s out where z: "z = (s, out)" by (rule prod.exhaust)
  have s: "live s" "apple_run s0 out s" "session_ok s" using assms(1) by (simp_all add: z served_def live_def core_def)
  show ?thesis
  proof (cases e)
    case (Tick E)
    then have st: "length (stack_send E) = 64" using assms(2) by (simp add: stack_ok_def)
    from tick_live [OF s(1) st] consider
      s' o' where "applemidi_idle_timeout E s = Inr (s', o')" "live s'" "table_kept s s'"
      | "applemidi_idle_timeout E s = Inl Use_after_free" "stale s" by blast
    then show ?thesis
    proof cases
      case 1
      then have "apple_run s0 (out @ o') s'" using apple_run.step [OF s(2) apple_step.timer] by blast
      moreover have "followed s e s'"
        using 1(2) membership_kept [OF 1(3) s(3), of e] by (simp add: followed_def live_def core_def Tick)
      ultimately show ?thesis using 1 by (simp add: Tick z served_def)
    qed (simp add: Tick z)
  next
    case (Message E control port dport checksum src v)
    show ?thesis using message_served [OF assms(1) [unfolded z] assms(2) [unfolded Message] assms(3)] by (simp add: Message z)
  next
    case (Note E ev)
    then obtain s' o' where t: "alsa_input E ev s = Inr (0, s', o')" "live s'" "table_kept s s'"
      using note_live [OF s(1), of ev E] assms(2) by auto
    then have "apple_run s0 (out @ o') s'" using apple_run.step [OF s(2) apple_step.event] by blast
    moreover have "followed s e s'"
      using t(2) membership_kept [OF t(3) s(3), of e] by (simp add: followed_def live_def core_def Note)
    ultimately show ?thesis using t by (simp add: Note z served_def)
  qed
qed

text \<open>The driver implements the specification of its hosts; its one hazard is a peer that was freed.\<close>

interpretation apple_hosts: refining_machine "serve alloc" "served s0" "\<lambda>e. (conforming e \<or> ending e) \<and> allocator alloc"
    "\<lambda>z. roster (fst z)" membership "\<lambda>z e f. f = Use_after_free \<and> (\<exists>E. e = Tick E) \<and> stale (fst z)" for alloc s0
  by unfold_locales (use serve_refines in \<open>fastforce simp: followed_def\<close>)

lemma serve_total:
  assumes "served s0 z" and "tracked (fst z)" and "conforming e" and "allocator alloc"
  shows "\<exists>z'. serve alloc z e = Inr z' \<and> served s0 z' \<and> tracked (fst z')"
proof -
  have "\<not> ending e" using assms(3) by (cases e) auto
  with serve_refines [OF assms(1) _ assms(4), of e] assms(2,3) show ?thesis by (auto simp: followed_def stale_def)
qed

interpretation apple_service: serving_machine "serve alloc" "\<lambda>z. served s0 z \<and> tracked (fst z)" "\<lambda>e. conforming e \<and> allocator alloc" for alloc s0
  by unfold_locales (use serve_total in blast)


section \<open>A loaded module\<close>

text \<open>Both sockets, which are two objects, and the ALSA client are there, and the two buffers have the size that was asked for.\<close>

definition serving :: "create_env \<Rightarrow> nat \<Rightarrow> nat \<Rightarrow> bool" where
  "serving K b1 b2 \<longleftrightarrow> opened K \<and> snd (control_create K) \<noteq> snd (rtp_create K) \<and> map_option (map_prod id length) (session_block K) = Some (b1, 512) \<and>
     map_option (map_prod id length) (midi_block K) = Some (b2, 512) \<and>
     (\<exists>a rs. ALSARegisterClient (register K) = Inr (Some a, rs) \<and> length (bytes (message_data (alsa_msg a))) = 4)"

lemma loaded_live:
  assumes "startable K m c b1 b2" and "serving K b1 b2"
  shows "\<exists>s cs. mod_init K p Map.empty m clks None = Inr (0, Some s, cs) \<and> live s \<and> tracked s \<and> roster s = {#}"
proof -
  obtain bs1 bs2 a rs where K: "opened K" "snd (control_create K) \<noteq> snd (rtp_create K)" "session_block K = Some (b1, bs1)" "length bs1 = 512" "midi_block K = Some (b2, bs2)" "length bs2 = 512"
    "ALSARegisterClient (register K) = Inr (Some a, rs)" "length (bytes (message_data (alsa_msg a))) = 4"
    using assms(2) by (auto simp: serving_def)
  obtain s cs where c: "MIDIDriverAppleMIDICreate K kernel_name (ucast p) Map.empty m clks None = Inr (Some s, cs)"
    and s: "destroyable c b1 b2 s" "\<not> lock (driver s)" "drv_peer (driver s) = None"
      "(control_socket (driver s), rtp_socket (driver s)) =
        (if opened K then (Some (snd (control_create K)), Some (snd (rtp_create K))) else (None, None))"
      "cmd_data (command (driver s)) = replicate DATA_SIZE 0" "accept (driver s) = 0xff" "members (rtp_session (driver s)) = {}"
    and port: "\<exists>rs. ALSARegisterClient (register K) = Inr (base_port (base (driver s)), rs)"
    and bufs: "\<forall>bs1 bs2. opened K \<and> session_block K = Some (b1, bs1) \<and> midi_block K = Some (b2, bs2) \<and> length bs1 = 512 \<and> length bs2 = 512 \<longrightarrow>
      (\<exists>ms. rtpmidi_session (driver s) = Some ms \<and> session_buffers (rtp_session (driver s)) ms (mem s) b1 bs1 b2 bs2)"
    using create_result [OF assms(1), of "ucast p" clks] by blast
  obtain ms where ms: "rtpmidi_session (driver s) = Some ms" "session_buffers (rtp_session (driver s)) ms (mem s) b1 bs1 b2 bs2"
    using bufs K(1,3-6) by blast
  have "core s" using s K(1,2) by (simp add: core_def destroyable_def DATA_SIZE_def)
  moreover have "notes_ready s" using port K(6-8) ms unfolding notes_ready_def by fastforce
  ultimately have "live s" using s(2) by (simp add: live_def)
  moreover have "tracked s" "roster s = {#}" using s(3,7) by (simp_all add: tracked_def roster_def members_def)
  ultimately show ?thesis using c by (auto simp: mod_init_def)
qed

section \<open>Properties\<close>

text \<open>
  C8. The driver keeps serving: loaded with its two sockets and its ALSA client, it returns from every handler, on any
  sequence of runs of its timer, messages of the protocol other than \<open>ENDSESSION\<close> from any host to either port, and notes of
  the keyboard, whatever the network does with the packets. No step faults, loops or deadlocks, the sequence is a run of
  the driver, and a note that is played after it reaches every host that is then a peer, and leaves the lock free.
\<close>

theorem traffic_served:
  assumes "startable K m c b1 b2" and "serving K b1 b2" and "allocator alloc" and "\<forall>e \<in> set es. conforming e"
    and "note_event ev" and "socket_takes_all (network E)"
  shows "\<exists>s0 cs s out s' pks payload. mod_init K p Map.empty m clks None = Inr (0, Some s0, cs) \<and>
    run_steps (serve alloc) (s0, []) es = Inr (s, out) \<and> apple_run s0 out s \<and> session_ok s \<and>
    alsa_input E ev s = Inr (0, s', map (Send (the (socket (rtp_session (driver s))))) pks) \<and>
    list_all2 (packet_for (rtp_session (driver s)) (peer_store s) 0 payload) (peer_list (rtp_session (driver s))) pks \<and>
    dec_payload 0 payload = Some [(0, note_bytes ev)] \<and> \<not> lock (driver s')"
proof -
  obtain s0 cs where s0: "mod_init K p Map.empty m clks None = Inr (0, Some s0, cs)" "live s0" "tracked s0"
    using loaded_live [OF assms(1,2)] by blast
  have "served s0 (s0, []) \<and> tracked (fst (s0, [] :: acall list))" using s0(2,3) by (simp add: served_def apple_run.start)
  then have "\<exists>z. run_steps (serve alloc) (s0, []) es = Inr z \<and> served s0 z \<and> tracked (fst z)"
    using assms(3,4) by (intro apple_service.run_total) simp_all
  then obtain s out where s: "run_steps (serve alloc) (s0, []) es = Inr (s, out)" "live s" "apple_run s0 out s"
    by (auto simp: served_def)
  then have "session_ok s" by (simp add: live_def core_def)
  with live_note_sent [OF s(2) assms(5,6)] s0(1) s(1,3) show ?thesis by blast
qed


lemma max_allocator: "allocator (\<lambda>h. Suc (Max (insert 0 (dom h))))"
proof -
  have "x \<le> Max (insert 0 (dom h))" if "finite (dom h)" "x \<in> dom h" for h :: peer_heap and x
    using that by (intro Max_ge) simp_all
  then have "Suc (Max (insert 0 (dom h))) \<notin> dom h" if "finite (dom h)" for h :: peer_heap
    using that not_less_eq_eq by blast
  then show ?thesis by (simp add: allocator_def domIff del: insert_dom)
qed

lemma sample_serving: "serving sample_create 0 1"
  by (simp add: serving_def opened_def sample_create_def ALSARegisterClient_def create_port_def note_message_def)

lemma traffic_served_witness:
  "\<exists>s0 cs s out s' pks payload.
    mod_init sample_create 5008 Map.empty Map.empty Map.empty None = Inr (0, Some s0, cs) \<and>
    run_steps (serve (\<lambda>h. Suc (Max (insert 0 (dom h))))) (s0, [])
      [Message sample_world True 5008 5008 0 9 (Session APPLEMIDI_COMMAND_INVITATION 2 77 5 [80, 105]),
       Message sample_world False 5009 5009 0 9 (Session APPLEMIDI_COMMAND_INVITATION 2 77 5 [80, 105]),
       Tick sample_world, Note sample_world (alsa_event.make 7 2 60 0)] = Inr (s, out) \<and>
    alsa_input sample_world (alsa_event.make 6 2 60 100) s =
      Inr (0, s', map (Send (the (socket (rtp_session (driver s))))) pks) \<and>
    dec_payload 0 payload = Some [(0, 0x92, 60, 100)]"
proof -
  let ?ev = "alsa_event.make 6 2 60 100"
  let ?off = "alsa_event.make 7 2 60 0"
  have n: "socket_takes_all (network sample_world)" by (simp add: socket_takes_all_def sample_world_def)
  have e: "note_event ?ev" "note_event ?off" "note_bytes ?ev = (0x92, 60, 100)" by (simp_all add: note_event_def note_bytes_def event_types alsa_event.make_def)
  have c: "\<forall>x \<in> set [Message sample_world True 5008 5008 0 9 (Session APPLEMIDI_COMMAND_INVITATION 2 77 5 [80, 105]),
       Message sample_world False 5009 5009 0 9 (Session APPLEMIDI_COMMAND_INVITATION 2 77 5 [80, 105]),
       Tick sample_world, Note sample_world ?off]. conforming x"
    using e(2) by (simp add: session_command_def commands_differ)
  from traffic_served [OF sample_startable sample_serving max_allocator c e(1) n, of 5008 Map.empty] e(3) show ?thesis by metis
qed

end
