(* ===== verification/Apple_Membership.thy ===== *)
theory Apple_Membership
  imports Apple_Traffic
begin

text \<open>
  The hosts of a session over any traffic of the protocol, with hosts that join and leave. Seen through \<open>roster\<close> the driver
  implements the specification \<open>membership\<close>, and a note is sent to exactly the hosts the specification gives. The one thing
  that can stop it is named too: a run of the timer that goes on from a peer that was freed when its host ended the session.
\<close>

section \<open>Packets and hosts\<close>

lemma packets_for_hosts:
  assumes "list_all2 (packet_for session h ts payload) ps pks"
  shows "map fst pks = map (\<lambda>p. addr (address (the (h p)))) ps"
  using assms by (induction rule: list_all2_induct) (auto simp: packet_for_def)

lemma note_reaches_roster:
  assumes "live s" and "note_event ev" and "socket_takes_all (network E)"
  shows "\<exists>s' pks. alsa_input E ev s = Inr (0, s', map (Send (the (socket (rtp_session (driver s))))) pks) \<and>
    mset (map fst pks) = image_mset addr (roster s)"
proof -
  obtain s' pks payload where n: "alsa_input E ev s = Inr (0, s', map (Send (the (socket (rtp_session (driver s))))) pks)"
    "list_all2 (packet_for (rtp_session (driver s)) (peer_store s) 0 payload) (peer_list (rtp_session (driver s))) pks"
    using live_note_sent [OF assms] by blast
  have "mset (map fst pks) = image_mset addr (roster s)"
    unfolding packets_for_hosts [OF n(2)] roster_def by (simp add: image_mset.compositionality comp_def)
  with n(1) show ?thesis by blast
qed

text \<open>As long as no host has ended its session, the timer finds the peer of its last exchange.\<close>

lemma stale_after_ending:
  assumes "served s0 (s0, [])" and "tracked s0" and "allocator alloc" and "\<forall>e \<in> set es. conforming e \<or> ending e"
    and "run_steps (serve alloc) (s0, []) es = Inr z" and "stale (fst z)"
  shows "\<exists>e \<in> set es. ending e"
proof (rule ccontr)
  assume "\<not> (\<exists>e \<in> set es. ending e)"
  then have "\<exists>z. run_steps (serve alloc) (s0, []) es = Inr z \<and> served s0 z \<and> tracked (fst z)"
    using assms(1-4) by (intro apple_service.run_total) auto
  with assms(5,6) show False by (simp add: stale_def)
qed

text \<open>From a live state on, traffic is either served to its end or stops at a run of the timer after the end of a session.\<close>

lemma served_or_stopped:
  assumes "live s0" and "tracked s0" and "allocator alloc" and "\<forall>e \<in> set es. conforming e \<or> ending e"
  shows "(\<exists>s out. run_steps (serve alloc) (s0, []) es = Inr (s, out) \<and> served s0 (s, out) \<and>
      spec_run membership (roster s0) es (roster s)) \<or>
    (\<exists>before E' after s out. es = before @ Tick E' # after \<and> (\<exists>e \<in> set before. ending e) \<and>
       run_steps (serve alloc) (s0, []) before = Inr (s, out) \<and> spec_run membership (roster s0) before (roster s) \<and> stale s \<and>
       run_steps (serve alloc) (s0, []) es = Inl Use_after_free)"
proof -
  have start: "served s0 (s0, [])" using assms(1) by (simp add: served_def apple_run.start)
  have "\<And>e. e \<in> set es \<Longrightarrow> (conforming e \<or> ending e) \<and> allocator alloc" using assms(3,4) by blast
  then consider (runs) z where "run_steps (serve alloc) (s0, []) es = Inr z" "served s0 z" "spec_run membership (roster s0) es (roster (fst z))"
    | (stops) before E' after z where "es = before @ Tick E' # after" "run_steps (serve alloc) (s0, []) before = Inr z"
      "spec_run membership (roster s0) before (roster (fst z))" "stale (fst z)" "run_steps (serve alloc) (s0, []) es = Inl Use_after_free"
    using apple_hosts.run_refines [where es = es and alloc = alloc, OF start] unfolding fst_conv by blast
  then show ?thesis
  proof cases
    case runs
    then show ?thesis by (cases z) auto
  next
    case stops
    then have "\<exists>e \<in> set before. ending e"
      using stale_after_ending [OF start assms(2,3) _ stops(2)] assms(4) by simp
    with stops show ?thesis by (cases z) auto
  qed
qed

section \<open>Properties\<close>

text \<open>
  C3. The hosts of a session: loaded with its two sockets and its ALSA client, on any sequence of runs of its timer,
  messages of the protocol from any host to either port, ends of sessions among them, and notes, the driver implements the
  specification of its hosts: from none on, a host joins with its invitation to the RTP port while there is room, leaves with the
  end of its session, and nothing else changes the hosts. A note that is played after it is sent in one packet to
  the address of each of these hosts and to no other. The only way the driver can stop before is that after the end of a session the
  timer goes on from the freed peer of its last exchange of clocks; what went before has followed the specification.
\<close>

theorem membership_implemented:
  assumes "startable K m c b1 b2" and "serving K b1 b2" and "allocator alloc" and "\<forall>e \<in> set es. conforming e \<or> ending e"
    and "note_event ev" and "socket_takes_all (network E)"
  shows "\<exists>s0 cs. mod_init K p Map.empty m clks None = Inr (0, Some s0, cs) \<and>
    ((\<exists>s out s' pks. run_steps (serve alloc) (s0, []) es = Inr (s, out) \<and> spec_run membership {#} es (roster s) \<and>
        alsa_input E ev s = Inr (0, s', map (Send (the (socket (rtp_session (driver s))))) pks) \<and>
        mset (map fst pks) = image_mset addr (roster s)) \<or>
     (\<exists>before E' after s out. es = before @ Tick E' # after \<and> (\<exists>e \<in> set before. ending e) \<and>
        run_steps (serve alloc) (s0, []) before = Inr (s, out) \<and> spec_run membership {#} before (roster s) \<and> stale s \<and>
        run_steps (serve alloc) (s0, []) es = Inl Use_after_free))"
proof -
  obtain s0 cs where s0: "mod_init K p Map.empty m clks None = Inr (0, Some s0, cs)" "live s0" "tracked s0" "roster s0 = {#}"
    using loaded_live [OF assms(1,2)] by blast
  have *: "\<forall>s out. served s0 (s, out) \<longrightarrow>
      (\<exists>s' pks. alsa_input E ev s = Inr (0, s', map (Send (the (socket (rtp_session (driver s))))) pks) \<and>
        mset (map fst pks) = image_mset addr (roster s))"
    using note_reaches_roster [OF _ assms(5,6)] by (auto simp: served_def)
  from served_or_stopped [OF s0(2,3) assms(3,4)] show ?thesis
  proof
    assume "\<exists>s out. run_steps (serve alloc) (s0, []) es = Inr (s, out) \<and> served s0 (s, out) \<and>
      spec_run membership (roster s0) es (roster s)"
    with * show ?thesis using s0(1,4) by fastforce
  next
    assume "\<exists>before E' after s out. es = before @ Tick E' # after \<and> (\<exists>e \<in> set before. ending e) \<and>
       run_steps (serve alloc) (s0, []) before = Inr (s, out) \<and> spec_run membership (roster s0) before (roster s) \<and> stale s \<and>
       run_steps (serve alloc) (s0, []) es = Inl Use_after_free"
    with s0(1,4) show ?thesis by (intro exI [of _ s0] exI [of _ cs] conjI disjI2) simp_all
  qed
qed

text \<open>Two hosts join, the first one on both ports, and leaves again.\<close>

lemma membership_implemented_witness:
  "\<exists>s0 cs s out s' pks. mod_init sample_create 5008 Map.empty Map.empty Map.empty None = Inr (0, Some s0, cs) \<and>
    run_steps (serve (\<lambda>h. Suc (Max (insert 0 (dom h))))) (s0, [])
      [Message sample_world True 5008 5008 0 9 (Session APPLEMIDI_COMMAND_INVITATION 2 77 5 [80, 105]),
       Message sample_world False 5009 5009 0 9 (Session APPLEMIDI_COMMAND_INVITATION 2 77 5 [80, 105]),
       Message sample_world False 5009 5009 0 8 (Session APPLEMIDI_COMMAND_INVITATION 2 77 6 [80]),
       Message sample_world True 5008 5008 0 9 (Session APPLEMIDI_COMMAND_ENDSESSION 2 77 5 [])] = Inr (s, out) \<and>
    roster s = {# \<lparr>ssrc = 6, addr_size = 16, addr = inet 8 5009\<rparr> #} \<and>
    alsa_input sample_world (alsa_event.make 6 2 60 100) s =
      Inr (0, s', map (Send (the (socket (rtp_session (driver s))))) pks) \<and> map fst pks = [inet 8 5009]"
proof -
  let ?ev = "alsa_event.make 6 2 60 100"
  let ?es = "[Message sample_world True 5008 5008 0 9 (Session APPLEMIDI_COMMAND_INVITATION 2 77 5 [80, 105]),
       Message sample_world False 5009 5009 0 9 (Session APPLEMIDI_COMMAND_INVITATION 2 77 5 [80, 105]),
       Message sample_world False 5009 5009 0 8 (Session APPLEMIDI_COMMAND_INVITATION 2 77 6 [80]),
       Message sample_world True 5008 5008 0 9 (Session APPLEMIDI_COMMAND_ENDSESSION 2 77 5 [])]"
  have n: "socket_takes_all (network sample_world)" by (simp add: socket_takes_all_def sample_world_def)
  have e: "note_event ?ev" by (simp add: note_event_def event_types alsa_event.make_def)
  have c: "\<forall>e \<in> set ?es. conforming e \<or> ending e" by (simp add: session_command_def commands_differ)
  have t: "?es \<noteq> before @ Tick E' # after" for before E' after
    by (auto simp: append_eq_Cons_conv Cons_eq_append_conv)
  have "hosts = {# \<lparr>ssrc = 6, addr_size = 16, addr = inet 8 5009\<rparr> #}" if "spec_run membership {#} ?es hosts" for hosts
    using that by (auto simp: spec_run_simps commands_differ admit_def departed_def RTP_MAX_PEERS_def)
  with membership_implemented [OF sample_startable sample_serving max_allocator c e n, of 5008 Map.empty] t show ?thesis
    by (metis (no_types, lifting) RTPAddress.select_convs(3) image_mset_single mset_single_iff)
qed

end
