(* ===== verification/Midi_Out.thy ===== *)
theory Midi_Out
  imports Kernel_Calls
begin

text \<open>
  The MIDI component of the CMIDID module (\<open>module/cmidid_midi.c\<close>): its state, the
  transposition, the configuration and dispatch of note events, and the registration of the
  sound card, the sequencer client and its port. \<open>char\<close> is unsigned on ARM, so
  \<open>midi_channel\<close> is a \<open>u8\<close>; \<open>transpose\<close> is a \<open>signed char\<close>, read with \<open>sint\<close>.
\<close>

section \<open>State\<close>

record cmidid_midi_state =
  card :: "nat option"
  client :: int
  midi_channel :: u8
  transpose :: s8

definition midi_state_init :: cmidid_midi_state where
  "midi_state_init = \<lparr>card = None, client = 0, midi_channel = 0x00, transpose = 0\<rparr>"

section \<open>Transposition and note events\<close>

definition cmidid_transpose :: "cmidid_midi_state \<Rightarrow> s8 \<Rightarrow> cmidid_midi_state \<times> s8" where
  "cmidid_transpose st t =
     (let st' = st\<lparr>transpose := transpose st + t\<rparr> in (st', transpose st'))"

definition config_note_event ::
    "cmidid_midi_state \<Rightarrow> u8 \<Rightarrow> u8 \<Rightarrow> seq_event_type \<Rightarrow> snd_seq_event" where
  "config_note_event st note velocity type =
     (let note = note + transpose st;
          note = (if note \<ge> 127 then 127 else note);
          velocity = (if velocity \<ge> 127 then 127 else velocity)
      in \<lparr>ev_type = type,
          ev_flags = [SNDRV_SEQ_EVENT_LENGTH_FIXED, SNDRV_SEQ_PRIORITY_NORMAL],
          ev_note = note, ev_channel = midi_channel st, ev_velocity = velocity,
          ev_duration = 0xffffff, ev_off_velocity = velocity,
          ev_queue = SNDRV_SEQ_QUEUE_DIRECT,
          ev_dest_client = SNDRV_SEQ_ADDRESS_SUBSCRIBERS, ev_dest_port = 0,
          ev_source_client = Seq_client (client st), ev_source_port = 0\<rparr>)"

text \<open>The result of the dispatch is only logged.\<close>

definition dispatch_event :: "cmidid_midi_state \<Rightarrow> snd_seq_event \<Rightarrow> kcall list" where
  "dispatch_event st event =
     (if client st > 0 then [Seq_dispatch (client st) event] else [])"

definition cmidid_note_on :: "cmidid_midi_state \<Rightarrow> u8 \<Rightarrow> u8 \<Rightarrow> kcall list" where
  "cmidid_note_on st note velocity =
     dispatch_event st (config_note_event st note velocity SNDRV_SEQ_EVENT_NOTEON)"

definition cmidid_note_off :: "cmidid_midi_state \<Rightarrow> u8 \<Rightarrow> kcall list" where
  "cmidid_note_off st note =
     dispatch_event st (config_note_event st note 127 SNDRV_SEQ_EVENT_NOTEOFF)"

section \<open>Registration with ALSA\<close>

text \<open>
  What the ALSA core answers: the return code of \<open>snd_card_create\<close> with the card it stores,
  the client number or error of \<open>snd_seq_create_kernel_client\<close>, and the return code of the
  \<open>CREATE_PORT\<close> control call.
\<close>

record alsa_env =
  snd_card_create :: "int \<times> nat option"
  snd_seq_create_kernel_client :: "nat option \<Rightarrow> int"
  snd_seq_create_port :: "int \<Rightarrow> int"

definition cmidid_midi_init ::
    "alsa_env \<Rightarrow> u8 \<Rightarrow> cmidid_midi_state \<Rightarrow> int \<times> cmidid_midi_state \<times> kcall list" where
  "cmidid_midi_init K chan st =
     (if unat chan < 0 \<or> unat chan > 0x0F then (- EINVAL, st, [])
      else
        let st = st\<lparr>midi_channel := chan\<rparr>;
            (err, c) = snd_card_create K;
            st = st\<lparr>card := c\<rparr>
        in if err < 0 then (err, st, [Snd_card_create])
           else
             let st = st\<lparr>client := snd_seq_create_kernel_client K (card st)\<rparr>
             in if client st < 0
                then (err, st, [Snd_card_create, Seq_create_client (card st), Snd_card_free (card st)])
                else
                  let err = snd_seq_create_port K (client st)
                  in if err < 0
                     then (err, st, [Snd_card_create, Seq_create_client (card st),
                                     Seq_create_port (client st), Snd_card_free (card st)])
                     else (0, st, [Snd_card_create, Seq_create_client (card st),
                                   Seq_create_port (client st)]))"

definition cmidid_midi_exit :: "cmidid_midi_state \<Rightarrow> kcall list" where
  "cmidid_midi_exit st = [Seq_delete_client (client st), Snd_card_free (card st)]"

section \<open>What the note events look like\<close>

text \<open>A note event carries seven-bit data on one of sixteen channels.\<close>

definition wf_note_event :: "snd_seq_event \<Rightarrow> bool" where
  "wf_note_event ev \<longleftrightarrow> ev_note ev \<le> 127 \<and> ev_velocity ev \<le> 127 \<and> ev_channel ev \<le> 15"

lemma config_note_event_fields [simp]:
  "ev_type (config_note_event st n v ty) = ty"
  "ev_channel (config_note_event st n v ty) = midi_channel st"
  "ev_note (config_note_event st n v ty) = min 127 (n + transpose st)"
  "ev_velocity (config_note_event st n v ty) = min 127 v"
  by (auto simp: config_note_event_def Let_def min_def)

lemma dispatched_dispatch_event [simp]:
  "dispatched (dispatch_event st ev) = (if client st > 0 then [ev] else [])"
  by (simp add: dispatch_event_def)

lemma dispatched_note_on [simp]:
  "dispatched (cmidid_note_on st n v) =
     (if client st > 0 then [config_note_event st n v SNDRV_SEQ_EVENT_NOTEON] else [])"
  by (simp add: cmidid_note_on_def)

lemma dispatched_note_off [simp]:
  "dispatched (cmidid_note_off st n) =
     (if client st > 0 then [config_note_event st n 127 SNDRV_SEQ_EVENT_NOTEOFF] else [])"
  by (simp add: cmidid_note_off_def)

lemma wf_config_note_event:
  "midi_channel st \<le> 15 \<Longrightarrow> wf_note_event (config_note_event st n v ty)"
  by (simp add: wf_note_event_def)

lemma wf_note_on: "midi_channel st \<le> 15 \<Longrightarrow> ev \<in> set (dispatched (cmidid_note_on st n v)) \<Longrightarrow> wf_note_event ev"
  by (auto simp: wf_config_note_event split: if_splits)

lemma wf_note_off: "midi_channel st \<le> 15 \<Longrightarrow> ev \<in> set (dispatched (cmidid_note_off st n)) \<Longrightarrow> wf_note_event ev"
  by (auto simp: wf_config_note_event split: if_splits)


section \<open>Properties\<close>

lemma uint_transposed:
  fixes n t :: u8
  assumes "n \<le> 127"
  shows "uint (n + t) = (if uint n + sint t < 0 then uint n + sint t + 256 else uint n + sint t)"
proof -
  have n: "0 \<le> uint n" "uint n \<le> 127" using assms by (simp_all add: word_le_def)
  have t: "- 128 \<le> sint t" "sint t < 128"
    using sint_ge [of t] sint_lt [of t] by simp_all
  have "n + t = word_of_int (uint n + sint t)" by (simp add: word_of_int_uint)
  then have "uint (n + t) = (uint n + sint t) mod 256"
    by (simp only: uint_word_of_int len_num1 len_bit0 len_bit1) simp
  also have "\<dots> = (if uint n + sint t < 0 then uint n + sint t + 256 else uint n + sint t)"
  proof (cases "uint n + sint t < 0")
    case True
    then have "(uint n + sint t + 256) mod 256 = uint n + sint t + 256"
      using n t by (intro mod_pos_pos_trivial) linarith+
    then show ?thesis using True by simp
  qed (use n t in \<open>simp add: mod_pos_pos_trivial\<close>)
  finally show ?thesis .
qed

text \<open>
  C33. Transposition of a MIDI note: while the transposed pitch stays within 0 to 127 it is the
  pitch of the event; above the range it is clamped to 127, and below the range it is
  clamped to 127 as well, not to 0, because the sum wraps before it is compared.
\<close>

theorem transposed_pitch:
  fixes st :: cmidid_midi_state
  assumes "n \<le> 127"
  defines "p \<equiv> uint n + sint (transpose st)"
  shows "uint (ev_note (config_note_event st n v ty)) = (if 0 \<le> p \<and> p \<le> 127 then p else 127)"
proof -
  have n: "uint n \<le> 127" "0 \<le> uint n" using assms(1) by (simp_all add: word_le_def)
  have t: "- 128 \<le> sint (transpose st)" "sint (transpose st) < 128"
    using sint_ge [of "transpose st"] sint_lt [of "transpose st"] by simp_all
  show ?thesis
  proof (cases "p < 0")
    case True
    then have "uint (n + transpose st) = p + 256"
      using uint_transposed [OF assms(1), of "transpose st"] by (simp add: p_def)
    then have "127 \<le> uint (n + transpose st)" using n t unfolding p_def by linarith
    with True show ?thesis by (simp add: min_def word_le_def)
  next
    case False
    then have "uint (n + transpose st) = p"
      using uint_transposed [OF assms(1), of "transpose st"] by (simp add: p_def)
    with False show ?thesis by (auto simp: min_def word_le_def)
  qed
qed

lemma transposed_pitch_witness:
  "uint (ev_note (config_note_event (midi_state_init\<lparr>transpose := - 12\<rparr>) 60 100 SNDRV_SEQ_EVENT_NOTEON)) = 48 \<and>
   uint (ev_note (config_note_event (midi_state_init\<lparr>transpose := - 12\<rparr>) 5 100 SNDRV_SEQ_EVENT_NOTEON)) = 127"
  using transposed_pitch [of 60 "midi_state_init\<lparr>transpose := - 12\<rparr>" 100 SNDRV_SEQ_EVENT_NOTEON]
    transposed_pitch [of 5 "midi_state_init\<lparr>transpose := - 12\<rparr>" 100 SNDRV_SEQ_EVENT_NOTEON]
  by simp

text \<open>
  The module's MIDI registration: with a channel above 15 nothing is called; a successful
  registration has created the card, the client and the port, in this order, and freed
  nothing; a failure of the port frees the card and leaves the client registered; and a
  failure of the client frees the card but returns the non-negative code of the card's
  creation, which the caller takes for a success.
\<close>

theorem midi_init_outcomes:
  assumes "snd_card_create K = (e, c)" and "snd_seq_create_kernel_client K c = k"
    and "cmidid_midi_init K chan st = (rc, st', cs)"
  shows "if chan > 0x0F then rc = - EINVAL \<and> cs = []
    else if e < 0 then rc = e \<and> cs = [Snd_card_create]
    else if k < 0 then rc = e \<and> Snd_card_free c \<in> set cs \<and>
      cmidid_midi_exit st' = [Seq_delete_client k, Snd_card_free c]
    else if snd_seq_create_port K k < 0 then rc = snd_seq_create_port K k \<and>
      Snd_card_free c \<in> set cs \<and> Seq_create_client c \<in> set cs \<and> Seq_delete_client k \<notin> set cs
    else rc = 0 \<and> cs = [Snd_card_create, Seq_create_client c, Seq_create_port k] \<and>
      st' = st\<lparr>card := c, client := k, midi_channel := chan\<rparr>"
  using assms
  by (auto simp: cmidid_midi_init_def cmidid_midi_exit_def Let_def word_less_nat_alt)

lemma midi_init_outcomes_witness:
  "\<exists>st' cs. cmidid_midi_init \<lparr>snd_card_create = (0, Some 7), snd_seq_create_kernel_client = (\<lambda>_. - ENOMEM),
       snd_seq_create_port = (\<lambda>_. 0)\<rparr> 3 midi_state_init = (0, st', cs) \<and>
     Snd_card_free (Some 7) \<in> set cs \<and> cmidid_midi_exit st' = [Seq_delete_client (- ENOMEM), Snd_card_free (Some 7)]"
proof -
  let ?K = "\<lparr>snd_card_create = (0, Some 7), snd_seq_create_kernel_client = (\<lambda>_. - ENOMEM),
    snd_seq_create_port = (\<lambda>_. 0)\<rparr>"
  obtain rc st' cs where r: "cmidid_midi_init ?K 3 midi_state_init = (rc, st', cs)"
    by (rule prod_cases3)
  have "0 < ENOMEM" by (simp add: ENOMEM_def)
  with midi_init_outcomes [of ?K 0 "Some 7" "- ENOMEM", OF _ _ r] r show ?thesis by simp
qed

end
