(* ===== verification/Gpio_State.thy ===== *)
theory Gpio_State
  imports Midi_Out
begin

text \<open>
  The state of the GPIO component of the CMIDID module (\<open>module/cmidid_gpio.c\<close>): the keys,
  the calibration of the stroke time and the choice of the velocity curve, with the setters
  the ioctl interface calls. GPIO numbers are the source's \<open>int\<close>s, IRQ numbers its
  \<open>unsigned int\<close>s, times its \<open>s64\<close> nanoseconds; the array \<open>keys\<close> has \<open>num_keys\<close> elements, so
  \<open>num_keys\<close> is the length of the list.
\<close>

datatype KEY_STATE = KEY_INACTIVE | KEY_TOUCHED | KEY_PRESSED

datatype VEL_CURVE =
    VEL_CURVE_LINEAR
  | VEL_CURVE_CONCAVE
  | VEL_CURVE_CONVEX
  | VEL_CURVE_SATURATED

record key =
  key_state :: KEY_STATE
  gpios :: "button \<Rightarrow> int"
  irqs :: "button \<Rightarrow> u32"
  hit_time :: s64
  timer_started :: "button \<Rightarrow> bool"
  key_note :: u8
  last_velocity :: int

record cmidid_gpio_state =
  keys :: "key list"
  button_active_high :: "button \<Rightarrow> bool"
  last_stroke_time :: u32
  stroke_time_min :: u32
  stroke_time_max :: u32
  vel_curve :: VEL_CURVE

definition num_keys :: "cmidid_gpio_state \<Rightarrow> nat" where
  "num_keys st = length (keys st)"

section \<open>Calibration and curve selection\<close>

definition cmidid_set_min_stroke_time :: "cmidid_gpio_state \<Rightarrow> cmidid_gpio_state \<times> u32" where
  "cmidid_set_min_stroke_time st =
     (st\<lparr>stroke_time_max := last_stroke_time st\<rparr>, last_stroke_time st)"

definition cmidid_set_max_stroke_time :: "cmidid_gpio_state \<Rightarrow> cmidid_gpio_state \<times> u32" where
  "cmidid_set_max_stroke_time st =
     (st\<lparr>stroke_time_max := last_stroke_time st\<rparr>, last_stroke_time st)"

definition cmidid_set_vel_curve_linear :: "cmidid_gpio_state \<Rightarrow> cmidid_gpio_state" where
  "cmidid_set_vel_curve_linear st = st\<lparr>vel_curve := VEL_CURVE_LINEAR\<rparr>"

definition cmidid_set_vel_curve_concave :: "cmidid_gpio_state \<Rightarrow> cmidid_gpio_state" where
  "cmidid_set_vel_curve_concave st = st\<lparr>vel_curve := VEL_CURVE_CONCAVE\<rparr>"

definition cmidid_set_vel_curve_convex :: "cmidid_gpio_state \<Rightarrow> cmidid_gpio_state" where
  "cmidid_set_vel_curve_convex st = st\<lparr>vel_curve := VEL_CURVE_CONVEX\<rparr>"

definition cmidid_set_vel_curve_saturated :: "cmidid_gpio_state \<Rightarrow> cmidid_gpio_state" where
  "cmidid_set_vel_curve_saturated st = st\<lparr>vel_curve := VEL_CURVE_SATURATED\<rparr>"

lemmas gpio_setter_defs =
  cmidid_set_min_stroke_time_def cmidid_set_max_stroke_time_def
  cmidid_set_vel_curve_linear_def cmidid_set_vel_curve_concave_def
  cmidid_set_vel_curve_convex_def cmidid_set_vel_curve_saturated_def

text \<open>Every setter leaves the keys and the polarity of the buttons alone.\<close>

lemma gpio_setter_keys [simp]:
  "keys (fst (cmidid_set_min_stroke_time st)) = keys st"
  "keys (fst (cmidid_set_max_stroke_time st)) = keys st"
  "keys (cmidid_set_vel_curve_linear st) = keys st"
  "keys (cmidid_set_vel_curve_concave st) = keys st"
  "keys (cmidid_set_vel_curve_convex st) = keys st"
  "keys (cmidid_set_vel_curve_saturated st) = keys st"
  by (simp_all add: gpio_setter_defs)

end
