(* ===== verification/Velocity.thy ===== *)
theory Velocity
  imports Gpio_State
begin

text \<open>
  From the measured stroke time to the MIDI velocity: \<open>stime64_to_utime32\<close> and
  \<open>time_to_velocity\<close> of \<open>module/cmidid_gpio.c\<close>. All arithmetic is on \<open>uint32_t\<close>, which wraps,
  and the result is cut to \<open>unsigned char\<close>; a zero divisor is a fault. The lemmas say when the
  linear curve computes the intended interpolation, that it is bounded and falls with the
  stroke time, and what the other three curves really compute.
\<close>

section \<open>The code\<close>

definition stime64_to_utime32 :: "s64 \<Rightarrow> u32" where
  "stime64_to_utime32 stime64 = ucast (signed_drop_bit 10 stime64)"

definition udiv32 :: "u32 \<Rightarrow> u32 \<Rightarrow> u32 res" where
  "udiv32 a b = (if b = 0 then Inl Division_by_zero else Inr (a div b))"

definition time_to_velocity :: "cmidid_gpio_state \<Rightarrow> u32 \<Rightarrow> u8 res" where
  "time_to_velocity st t =
     (if t \<le> stroke_time_min st then Inr 127
      else if t \<ge> stroke_time_max st then Inr 0
      else case vel_curve st of
        VEL_CURVE_LINEAR \<Rightarrow>
          bind_res (udiv32 (127 * (stroke_time_max st - t)) (stroke_time_max st - stroke_time_min st))
            (\<lambda>q. Inr (ucast q))
      | VEL_CURVE_CONCAVE \<Rightarrow>
          (let c = 255;
               a = (-127 * c + c * c) * (stroke_time_max st - stroke_time_min st) div 127;
               b = c * stroke_time_max st + 127 * stroke_time_min st - c * stroke_time_min st
           in bind_res (udiv32 a (t - b)) (\<lambda>q. Inr (ucast (q + c))))
      | VEL_CURVE_CONVEX \<Rightarrow>
          (if t < stroke_time_min st then Inr 127
           else
             let c = -40;
                 a = (-127 * c + c * c) * (stroke_time_max st - stroke_time_min st) div 127;
                 b = c * stroke_time_max st + 127 * stroke_time_min st - c * stroke_time_min st
             in bind_res (udiv32 a (t - b)) (\<lambda>q. Inr (ucast (q + c))))
      | VEL_CURVE_SATURATED \<Rightarrow>
          (let c = 140;
               t_sat = stroke_time_min st + (stroke_time_max st - stroke_time_min st) div 2;
               a = (-127 * c + c * c) * (stroke_time_max st - t_sat) div 127;
               b = c * stroke_time_max st + 127 * t_sat - c * t_sat
           in bind_res (udiv32 a (t - b)) (\<lambda>q. Inr (ucast (q + c)))))"

section \<open>The unit of the measured time\<close>

lemma unat_stime64_to_utime32:
  assumes "0 \<le> sint d" and "sint d < 2 ^ 42"
  shows "unat (stime64_to_utime32 d) = nat (sint d) div 1024"
proof -
  let ?w = "signed_drop_bit 10 d"
  have "uint (ucast ?w :: u32) = take_bit 32 (sint ?w)"
    by (simp add: unsigned_ucast_eq sint_uint take_bit_signed_take_bit)
  also have "\<dots> = sint d div 1024"
    using assms by (simp add: sint_signed_drop_bit_eq drop_bit_eq_div take_bit_eq_mod)
  finally show ?thesis
    using assms by (simp add: stime64_to_utime32_def unat_eq_nat_uint nat_div_distrib)
qed

section \<open>The linear curve\<close>

text \<open>The product \<open>127 * (max - t)\<close> does not wrap up to this distance, 34 seconds.\<close>

abbreviation linear_limit :: nat where
  "linear_limit \<equiv> 33818640"

lemma between_sub:
  fixes t :: u32
  assumes "lo < t" and "t < hi"
  shows "unat (hi - t) = unat hi - unat t" and "unat (hi - lo) = unat hi - unat lo"
    and "hi - lo \<noteq> 0" and "unat t < unat hi" and "unat lo < unat t"
proof -
  show "unat (hi - t) = unat hi - unat t" "unat (hi - lo) = unat hi - unat lo"
    using assms by (simp_all add: unat_sub order.strict_implies_order less_trans)
  show "hi - lo \<noteq> 0" using assms by auto
  show "unat t < unat hi" "unat lo < unat t" using assms by (simp_all add: word_less_nat_alt)
qed

lemma unat_mult_le: "unat (a * b) \<le> unat a * unat (b :: u32)"
  by (simp add: unat_word_ariths(2))

lemma unat_mult_exact:
  "unat a * unat b < 2 ^ 32 \<Longrightarrow> unat (a * b) = unat a * unat (b :: u32)"
  by (simp add: unat_word_ariths(2))

lemma time_to_velocity_between:
  assumes "stroke_time_min st < t" and "t < stroke_time_max st"
  shows "\<not> t \<le> stroke_time_min st" and "\<not> stroke_time_max st \<le> t"
    and "\<not> t < stroke_time_min st"
  using assms by auto

lemma time_to_velocity_linear_between:
  assumes "vel_curve st = VEL_CURVE_LINEAR" and "stroke_time_min st < t" and "t < stroke_time_max st"
  shows "time_to_velocity st t =
    Inr (ucast ((127 * (stroke_time_max st - t)) div (stroke_time_max st - stroke_time_min st)))"
  unfolding time_to_velocity_def udiv32_def
  by (simp only: assms(1) time_to_velocity_between [OF assms(2,3)] between_sub(3) [OF assms(2,3)]
      if_False VEL_CURVE.case bind_res_Inr)

lemma linear_quotient_le:
  fixes t :: u32
  assumes "lo < t" and "t < hi"
  shows "unat ((127 * (hi - t)) div (hi - lo)) \<le> 127"
proof -
  let ?x = "unat (hi - t)" and ?y = "unat (hi - lo)"
  have xy: "?x < ?y" using between_sub [OF assms] by simp
  have "unat (127 * (hi - t)) \<le> 127 * ?x"
    using unat_mult_le [of 127 "hi - t"] by (simp del: right_diff_distrib_numeral)
  also have "\<dots> \<le> 127 * ?y" using xy by simp
  finally have "unat (127 * (hi - t)) div ?y \<le> 127 * ?y div ?y"
    by (rule div_le_mono)
  also have "\<dots> \<le> 127" using xy by simp
  finally show ?thesis by (simp only: unat_div)
qed

lemma linear_velocity_value:
  assumes "vel_curve st = VEL_CURVE_LINEAR" and "stroke_time_min st < t" and "t < stroke_time_max st"
    and "unat (stroke_time_max st) - unat t \<le> linear_limit"
  shows "time_to_velocity st t =
    Inr (of_nat (127 * (unat (stroke_time_max st) - unat t) div
                 (unat (stroke_time_max st) - unat (stroke_time_min st))))"
proof -
  let ?hi = "stroke_time_max st" and ?lo = "stroke_time_min st"
  note b = between_sub [OF assms(2,3)]
  have "unat (127 * (?hi - t)) = 127 * (unat ?hi - unat t)"
    using assms(4) b unat_mult_exact [of 127 "?hi - t"]
    by (simp del: right_diff_distrib_numeral)
  then have u: "unat ((127 * (?hi - t)) div (?hi - ?lo)) =
      127 * (unat ?hi - unat t) div (unat ?hi - unat ?lo)" (is "unat ?q = ?r")
    using b by (simp only: unat_div)
  have "(ucast ?q :: u8) = of_nat (unat ?q)" by simp
  with u time_to_velocity_linear_between [OF assms(1-3)] show ?thesis by simp
qed

lemma scaled_div_le: "a \<le> d \<Longrightarrow> k * a div d \<le> (k :: nat)"
proof (cases "d = 0")
  case False
  assume "a \<le> d"
  then have "k * a div d \<le> k * d div d" by (intro div_le_mono) simp
  with False show ?thesis by simp
qed simp

lemma linear_velocity_antimono:
  assumes lin: "vel_curve st = VEL_CURVE_LINEAR"
    and lim: "unat (stroke_time_max st) - unat (stroke_time_min st) \<le> linear_limit"
    and "stroke_time_min st < t" "t \<le> t'" "t' < stroke_time_max st"
  shows "\<exists>v v'. time_to_velocity st t = Inr v \<and> time_to_velocity st t' = Inr v' \<and> v' \<le> v"
proof -
  let ?M = "unat (stroke_time_max st)" and ?m = "unat (stroke_time_min st)"
  let ?q = "\<lambda>x. 127 * (?M - x) div (?M - ?m)"
  have t: "stroke_time_min st < t'" "t < stroke_time_max st" using assms by auto
  have le: "unat t \<le> unat t'" "?m < unat t" "?m < unat t'"
    using assms t by (simp_all add: word_le_nat_alt word_less_nat_alt)
  have v: "time_to_velocity st t = Inr (of_nat (?q (unat t)))"
    by (rule linear_velocity_value) (use assms t le lim in auto)
  have v': "time_to_velocity st t' = Inr (of_nat (?q (unat t')))"
    by (rule linear_velocity_value) (use assms t le lim in auto)
  have q: "?q (unat t') \<le> ?q (unat t)" using le by (intro div_le_mono mult_le_mono) auto
  have "?q (unat t) \<le> 127" using le by (intro scaled_div_le) simp
  with q have "(of_nat (?q (unat t')) :: u8) \<le> of_nat (?q (unat t))"
    by (simp add: word_le_nat_alt unat_of_nat)
  with v v' show ?thesis by blast
qed

section \<open>The other curves\<close>

text \<open>
  The source divides by \<open>t - b\<close> without the factor 127 that \<open>b\<close> carries, so for the concave
  and the saturated curve \<open>t - b\<close> wraps to a number no dividend reaches. The bound \<open>2 ^ 23\<close>
  on the maximal stroke time is 8.6 seconds; it keeps \<open>b\<close> itself from wrapping.
\<close>

lemma uint_pos_nonzero: "0 < uint w \<Longrightarrow> w \<noteq> 0"
  by auto

lemma flat_quotient:
  fixes t x b :: u32
  assumes "b = word_of_int B" and "uint t < B" and "B \<le> 4000000000"
  shows "t - b \<noteq> 0" and "x div 127 div (t - b) = 0"
proof -
  have "t - b = word_of_int (uint t - B)" using assms(1) by simp
  then have "uint (t - b) = (uint t - B) mod 4294967296"
    using uint_word_of_int [of "uint t - B", where 'a = 32] by (simp only: len_num1 len_bit0 len_bit1) simp
  also have "\<dots> = (uint t - B + 4294967296) mod 4294967296" by simp
  also have "\<dots> = uint t - B + 4294967296"
    using assms(2,3) uint_nonnegative [of t] by (intro mod_pos_pos_trivial) linarith+
  finally have d: "uint (t - b) = uint t - B + 4294967296" .
  have pos: "uint (t - b) > 33818641"
    using assms(3) uint_nonnegative [of t] unfolding d by linarith
  then show "t - b \<noteq> 0" by (intro uint_pos_nonzero) linarith
  have "uint x < 4294967296" using uint_bounded [of x] by simp
  then have "uint x div 127 < 33818641" by simp
  then have "uint (x div 127) < uint (t - b)" using pos by (simp add: uint_div)
  then have "x div 127 < t - b" by (simp only: word_less_def)
  then show "x div 127 div (t - b) = 0" by (rule div_word_less)
qed

lemma half_bounds: "0 \<le> x \<Longrightarrow> 0 \<le> x div 2 \<and> x div 2 \<le> (x :: int)"
  by presburger

lemma int_div_less:
  fixes a :: int
  assumes "a < k * d" and "0 < d"
  shows "a div d < k"
proof (rule ccontr)
  assume "\<not> a div d < k"
  then have "k * d \<le> a div d * d" using assms(2) by (intro mult_right_mono) auto
  also have "\<dots> \<le> a" using assms(2) by (simp add: minus_mod_eq_div_mult [symmetric])
  finally show False using assms(1) by simp
qed

lemma convex_dividend: "0 \<le> x \<Longrightarrow> 6680 * x div 127 \<le> 53 * (x :: int)"
  using zdiv_mono1 [of "6680 * x" "127 * (53 * x)" 127] by simp

lemma curve_bounds:
  assumes "stroke_time_min st < t" and "t < stroke_time_max st"
    and "stroke_time_max st \<le> 2 ^ 23"
  shows "0 \<le> uint (stroke_time_min st)" and "uint (stroke_time_min st) < uint t"
    and "uint t < uint (stroke_time_max st)" and "uint (stroke_time_max st) \<le> 8388608"
  using assms by (simp_all add: word_less_def word_le_def)

lemma concave_velocity:
  assumes "vel_curve st = VEL_CURVE_CONCAVE"
    and "stroke_time_min st < t" and "t < stroke_time_max st" and "stroke_time_max st \<le> 2 ^ 23"
  shows "time_to_velocity st t = Inr 255"
proof -
  let ?hi = "stroke_time_max st" and ?lo = "stroke_time_min st"
  note c = curve_bounds [OF assms(2-4)]
  have B: "255 * ?hi + 127 * ?lo - 255 * ?lo = word_of_int (255 * uint ?hi - 128 * uint ?lo)"
    by (simp add: algebra_simps)
  have "uint t < 255 * uint ?hi - 128 * uint ?lo" "255 * uint ?hi - 128 * uint ?lo \<le> 4000000000"
    using c by linarith+
  note q = flat_quotient [OF B this]
  show ?thesis
    unfolding time_to_velocity_def udiv32_def Let_def
    by (simp only: assms(1) time_to_velocity_between [OF assms(2,3)] q
      if_False VEL_CURVE.case bind_res_Inr) simp
qed

lemma saturated_velocity:
  assumes "vel_curve st = VEL_CURVE_SATURATED"
    and "stroke_time_min st < t" and "t < stroke_time_max st" and "stroke_time_max st \<le> 2 ^ 23"
  shows "time_to_velocity st t = Inr 140"
proof -
  let ?hi = "stroke_time_max st" and ?lo = "stroke_time_min st"
  let ?s = "?lo + (?hi - ?lo) div 2"
  note c = curve_bounds [OF assms(2-4)]
  have range: "0 \<le> uint ?hi - uint ?lo" using c by linarith
  have "uint (?hi - ?lo) = uint ?hi - uint ?lo"
    using c by (intro uint_sub_lem [THEN iffD1]) linarith
  then have "uint ((?hi - ?lo) div 2) = (uint ?hi - uint ?lo) div 2"
    by (simp add: uint_div)
  then have s: "uint ?s = uint ?lo + (uint ?hi - uint ?lo) div 2"
    using c by (subst uint_add_lem [THEN iffD1]) auto
  have B: "140 * ?hi + 127 * ?s - 140 * ?s = word_of_int (140 * uint ?hi - 13 * uint ?s)"
    by (simp add: algebra_simps)
  obtain h where h: "(uint ?hi - uint ?lo) div 2 = h" and h': "0 \<le> h" "h \<le> uint ?hi - uint ?lo"
    using half_bounds [OF range] by blast
  have "uint t < 140 * uint ?hi - 13 * uint ?s" "140 * uint ?hi - 13 * uint ?s \<le> 4000000000"
    unfolding s h ring_distribs using c h' by linarith+
  note q = flat_quotient [OF B this]
  show ?thesis
    unfolding time_to_velocity_def udiv32_def Let_def
    by (simp only: assms(1) time_to_velocity_between [OF assms(2,3)] q
      if_False VEL_CURVE.case bind_res_Inr) simp
qed

text \<open>
  For the convex curve \<open>t - b\<close> does not wrap when the range is wide, but the quotient is at
  most 2, so the result is the constant \<open>-40\<close> cut to a byte, plus at most 2.
\<close>

lemma word_below_three: "uint w < 3 \<Longrightarrow> w \<in> {0, 1, 2 :: u32}"
proof -
  assume "uint w < 3"
  then have "uint w = 0 \<or> uint w = 1 \<or> uint w = 2" using uint_nonnegative [of w] by linarith
  then have "word_of_int (uint w) \<in> {word_of_int 0, word_of_int 1, word_of_int 2 :: u32}"
    by (elim disjE) (simp_all only: insertI1 insertI2)
  then show ?thesis by simp
qed

lemma convex_velocity:
  assumes "vel_curve st = VEL_CURVE_CONVEX"
    and "stroke_time_min st < t" and "t < stroke_time_max st" and "stroke_time_max st \<le> 2 ^ 23"
    and wide: "8 * uint (stroke_time_min st) \<le> uint (stroke_time_max st)"
  shows "\<exists>v \<ge> 216. time_to_velocity st t = Inr v"
proof -
  let ?hi = "stroke_time_max st" and ?lo = "stroke_time_min st"
  let ?b = "- 40 * ?hi + 127 * ?lo - (- 40) * ?lo"
  let ?D = "uint t + 40 * uint ?hi - 167 * uint ?lo"
  let ?a = "(- 127 * (- 40) + (- 40) * (- 40)) * (?hi - ?lo) div 127"
  note c = curve_bounds [OF assms(2-4)]
  have "t - ?b = word_of_int ?D" by (simp add: algebra_simps)
  then have "uint (t - ?b) = ?D mod 2 ^ 32"
    using uint_word_of_int [of ?D, where 'a = 32] by (simp only: len_num1 len_bit0 len_bit1) simp
  moreover have "0 \<le> ?D" "?D < 4294967296" using c wide by linarith+
  ultimately have d: "uint (t - ?b) = ?D" by simp
  then have nz: "t - ?b \<noteq> 0" using c wide by (intro uint_pos_nonzero) linarith
  have "uint (6680 * (?hi - ?lo)) \<le> 6680 * uint (?hi - ?lo)"
    by (simp add: uint_word_ariths(3) zmod_le_nonneg_dividend del: right_diff_distrib_numeral)
  moreover have "uint (?hi - ?lo) = uint ?hi - uint ?lo"
    using c by (intro uint_sub_lem [THEN iffD1]) linarith
  ultimately have a: "uint ?a \<le> 6680 * (uint ?hi - uint ?lo) div 127"
    by (simp add: uint_div zdiv_mono1 del: right_diff_distrib_numeral)
  have range: "0 \<le> uint ?hi - uint ?lo" using c by linarith
  have "6680 * (uint ?hi - uint ?lo) div 127 < 3 * ?D"
    by (rule le_less_trans [OF convex_dividend [OF range]])
      (unfold ring_distribs, use c wide in linarith)
  with a have "uint ?a < 3 * ?D" by (rule le_less_trans)
  moreover have "0 < ?D" using c wide by linarith
  ultimately have "uint ?a div ?D < 3" by (rule int_div_less)
  then have "uint (?a div (t - ?b)) < 3" by (simp only: uint_div d)
  then have "?a div (t - ?b) \<in> {0, 1, 2}" by (rule word_below_three)
  then have "ucast (?a div (t - ?b) + - 40) \<ge> (216 :: u8)" by auto
  then show ?thesis
    unfolding time_to_velocity_def udiv32_def Let_def
    using nz
    by (simp only: assms(1) time_to_velocity_between [OF assms(2,3)]
      if_False VEL_CURVE.case bind_res_Inr) auto
qed

section \<open>Properties\<close>

definition sample_state :: "VEL_CURVE \<Rightarrow> u32 \<Rightarrow> u32 \<Rightarrow> cmidid_gpio_state" where
  "sample_state c lo hi = \<lparr>keys = [], button_active_high = (\<lambda>_. True), last_stroke_time = 100000,
     stroke_time_min = lo, stroke_time_max = hi, vel_curve = c\<rparr>"

lemma sample_state_simps [simp]:
  "vel_curve (sample_state c lo hi) = c"
  "stroke_time_min (sample_state c lo hi) = lo"
  "stroke_time_max (sample_state c lo hi) = hi"
  by (simp_all add: sample_state_def)

lemma linear_velocity_value_all:
  assumes "vel_curve st = VEL_CURVE_LINEAR"
    and "unat (stroke_time_max st) \<le> unat (stroke_time_min st) + 33818640"
  defines "lo \<equiv> unat (stroke_time_min st)" and "hi \<equiv> unat (stroke_time_max st)"
  shows "\<exists>v. time_to_velocity st t = Inr v \<and> unat v \<le> 127 \<and>
    unat v = (if unat t \<le> lo then 127 else if hi \<le> unat t then 0
              else 127 * (hi - unat t) div (hi - lo))"
proof (cases "stroke_time_min st < t \<and> t < stroke_time_max st")
  case True
  then have b: "lo < unat t" "unat t < hi" by (simp_all add: lo_def hi_def word_less_nat_alt)
  have le: "127 * (hi - unat t) div (hi - lo) \<le> 127" using b by (intro scaled_div_le) simp
  have v: "time_to_velocity st t = Inr (of_nat (127 * (hi - unat t) div (hi - lo)))"
    unfolding lo_def hi_def using assms True b
    by (intro linear_velocity_value) (auto simp: lo_def hi_def)
  have "unat (of_nat (127 * (hi - unat t) div (hi - lo)) :: u8) = 127 * (hi - unat t) div (hi - lo)"
    using le by (simp add: unat_of_nat)
  with v b le show ?thesis by auto
next
  case False
  then have "unat t \<le> lo \<or> hi \<le> unat t"
    by (auto simp: lo_def hi_def word_less_nat_alt)
  then show ?thesis
    by (auto simp: time_to_velocity_def word_le_nat_alt lo_def hi_def)
qed

text \<open>
  C30. On the linear curve, with a calibrated range of at most 33818640 units (the product
  \<open>127 * (max - t)\<close> then fits 32 bits), every stroke time gets the intended velocity: 127 up
  to the minimum, 0 from the maximum on, and in between 127 scaled by the remaining part of
  the range, rounded down; so the velocity lies between 0 and 127.
\<close>

theorem linear_velocity_spec:
  assumes "vel_curve st = VEL_CURVE_LINEAR"
    and "unat (stroke_time_max st) \<le> unat (stroke_time_min st) + 33818640"
  defines "lo \<equiv> unat (stroke_time_min st)" and "hi \<equiv> unat (stroke_time_max st)"
  shows "\<exists>v. time_to_velocity st t = Inr v \<and> unat v \<le> 127 \<and>
    unat v = (if unat t \<le> lo then 127 else if hi \<le> unat t then 0
              else 127 * (hi - unat t) div (hi - lo))"
  unfolding lo_def hi_def by (rule linear_velocity_value_all [OF assms(1,2)])

lemma linear_velocity_spec_witness:
  "\<exists>v. time_to_velocity (sample_state VEL_CURVE_LINEAR 1000 1000000) 500500 = Inr v \<and> unat v = 63"
  using linear_velocity_spec [of "sample_state VEL_CURVE_LINEAR 1000 1000000" 500500] by auto

text \<open>
  On the linear curve a faster stroke is never softer: over the same range the velocity
  does not rise with the stroke time.
\<close>

theorem linear_velocity_monotone:
  assumes "vel_curve st = VEL_CURVE_LINEAR"
    and "unat (stroke_time_max st) \<le> unat (stroke_time_min st) + 33818640"
    and "t \<le> t'" and "time_to_velocity st t = Inr v" and "time_to_velocity st t' = Inr v'"
  shows "v' \<le> v"
proof -
  let ?lo = "unat (stroke_time_min st)" and ?hi = "unat (stroke_time_max st)"
  have tt: "unat t \<le> unat t'" using assms(3) by (simp add: word_le_nat_alt)
  have v: "unat v = (if unat t \<le> ?lo then 127 else if ?hi \<le> unat t then 0
      else 127 * (?hi - unat t) div (?hi - ?lo))"
    using linear_velocity_value_all [OF assms(1,2), of t] assms(4) by auto
  have v': "unat v' \<le> 127" "unat v' = (if unat t' \<le> ?lo then 127 else if ?hi \<le> unat t' then 0
      else 127 * (?hi - unat t') div (?hi - ?lo))"
    using linear_velocity_value_all [OF assms(1,2), of t'] assms(5) by auto
  have "127 * (?hi - unat t') div (?hi - ?lo) \<le> 127 * (?hi - unat t) div (?hi - ?lo)"
    using tt by (intro div_le_mono mult_le_mono2) simp
  with v v' tt have "unat v' \<le> unat v" by (auto split: if_splits)
  then show ?thesis by (simp add: word_le_nat_alt)
qed

lemma linear_velocity_monotone_witness:
  "\<exists>v v'. time_to_velocity (sample_state VEL_CURVE_LINEAR 1000 1000000) 2000 = Inr v \<and>
     time_to_velocity (sample_state VEL_CURVE_LINEAR 1000 1000000) 999000 = Inr v' \<and> v' \<le> v"
proof -
  let ?st = "sample_state VEL_CURVE_LINEAR 1000 1000000"
  have "time_to_velocity ?st 2000 = Inr 126" "time_to_velocity ?st 999000 = Inr 0"
    by (simp_all add: time_to_velocity_def udiv32_def)
  with linear_velocity_monotone [of ?st 2000 999000 126 0] show ?thesis by simp
qed

text \<open>
  The three other curves do not interpolate. For any stroke time strictly inside a range
  of at most 8.6 seconds (for the convex curve: a range whose maximum is at least eight times
  its minimum, as by default) the result is at least 140 and hence above the MIDI maximum, so
  \<open>config_note_event\<close> sends every such stroke with velocity 127.
\<close>

theorem nonlinear_curves_flat:
  assumes "vel_curve st \<noteq> VEL_CURVE_LINEAR"
    and "stroke_time_min st < t" and "t < stroke_time_max st" and "stroke_time_max st \<le> 2 ^ 23"
    and "8 * uint (stroke_time_min st) \<le> uint (stroke_time_max st)"
  shows "\<exists>v. time_to_velocity st t = Inr v \<and> v \<ge> 140 \<and>
    ev_velocity (config_note_event midi n v SNDRV_SEQ_EVENT_NOTEON) = 127"
proof -
  have ge: "v \<ge> 140" if "v \<ge> (216 :: u8)" for v
    by (rule order_trans [OF _ that]) simp
  have "\<exists>v. time_to_velocity st t = Inr v \<and> v \<ge> 140"
    using assms concave_velocity [of st t] saturated_velocity [of st t] convex_velocity [of st t]
    by (cases "vel_curve st") (auto dest: ge)
  moreover have "min 127 v = 127" if "v \<ge> (140 :: u8)" for v
    by (rule min_absorb1, rule order_trans [OF _ that]) simp
  ultimately show ?thesis by auto
qed

lemma nonlinear_curves_flat_witness:
  "\<exists>v. time_to_velocity (sample_state VEL_CURVE_CONVEX 1000 1000000) 500500 = Inr v \<and> v \<ge> 140"
  using nonlinear_curves_flat [of "sample_state VEL_CURVE_CONVEX 1000 1000000" 500500] by simp blast

text \<open>
  The convex curve can divide by zero: with the range from 100 to 410 units the stroke
  time 300 makes \<open>t - b\<close> zero, inside an interrupt handler.
\<close>

theorem convex_curve_divides_by_zero:
  "time_to_velocity (sample_state VEL_CURVE_CONVEX 100 410) 300 = Inl Division_by_zero"
  by (simp add: time_to_velocity_def udiv32_def)

end
