(* ===== verification/Key_Events.thy ===== *)
theory Key_Events
  imports Velocity
begin

text \<open>
  The state machine of a key: \<open>handle_button_event\<close> of \<open>module/cmidid_gpio.c\<close>. The key is
  given by its index in \<open>state.keys\<close>, \<open>now\<close> is what \<open>ktime_get\<close> returns; the result is the
  new state of the GPIO component and the calls made. The \<open>default\<close> branch of the source's
  switch is dead: the three enumerators are the constructors of \<open>KEY_STATE\<close>. The lemmas say
  exactly which note-on and note-off events a key sends over any sequence of button events, told from the
  presses and releases alone, that nothing faults on the linear curve, and which velocity a stroke gets.
\<close>

section \<open>The code\<close>

definition put_key :: "cmidid_gpio_state \<Rightarrow> nat \<Rightarrow> key \<Rightarrow> cmidid_gpio_state" where
  "put_key st i k = st\<lparr>keys := (keys st)[i := k]\<rparr>"

definition handle_button_event ::
    "cmidid_midi_state \<Rightarrow> s64 \<Rightarrow> cmidid_gpio_state \<Rightarrow> nat \<Rightarrow> button \<Rightarrow> bool \<Rightarrow>
     (cmidid_gpio_state \<times> kcall list) res" where
  "handle_button_event midi now st i button active =
     bind_res (array_get (keys st) i) (\<lambda>k.
       case key_state k of
         KEY_INACTIVE \<Rightarrow>
           (if button = START_BUTTON \<and> active then
              Inr (put_key st i (k\<lparr>hit_time := now, key_state := KEY_TOUCHED\<rparr>), [])
            else if button = START_BUTTON \<and> \<not> active then
              Inr (st, cmidid_note_off midi (key_note k))
            else Inr (st, []))
       | KEY_TOUCHED \<Rightarrow>
           (if button = START_BUTTON \<and> \<not> active then
              Inr (put_key st i (k\<lparr>key_state := KEY_INACTIVE\<rparr>), cmidid_note_off midi (key_note k))
            else if button = END_BUTTON \<and> active then
              (let timediff = stime64_to_utime32 (now - hit_time k);
                   st = st\<lparr>last_stroke_time := timediff\<rparr>
               in bind_res (time_to_velocity st timediff) (\<lambda>velocity.
                    Inr (put_key st i (k\<lparr>last_velocity := uint velocity, key_state := KEY_PRESSED\<rparr>),
                         cmidid_note_on midi (key_note k) velocity)))
            else Inr (st, []))
       | KEY_PRESSED \<Rightarrow>
           (if button = START_BUTTON \<and> \<not> active then
              Inr (put_key st i (k\<lparr>key_state := KEY_INACTIVE\<rparr>), cmidid_note_off midi (key_note k))
            else if button = END_BUTTON \<and> active then
              Inr (st, cmidid_note_off midi (key_note k)
                       @ cmidid_note_on midi (key_note k) (word_of_int (last_velocity k)))
            else Inr (st, [])))"

text \<open>A run of one key: button events with the time at which each is handled.\<close>

type_synonym button_event = "s64 \<times> button \<times> bool"

fun key_step ::
    "cmidid_midi_state \<Rightarrow> nat \<Rightarrow> cmidid_gpio_state \<times> kcall list \<Rightarrow> button_event \<Rightarrow>
     (cmidid_gpio_state \<times> kcall list) res" where
  "key_step midi i (st, tr) (now, button, active) =
     bind_res (handle_button_event midi now st i button active) (\<lambda>(st', cs). Inr (st', tr @ cs))"

definition key_run ::
    "cmidid_midi_state \<Rightarrow> nat \<Rightarrow> cmidid_gpio_state \<Rightarrow> button_event list \<Rightarrow>
     (cmidid_gpio_state \<times> kcall list) res" where
  "key_run midi i st es = run_steps (key_step midi i) (st, []) es"

section \<open>Frame facts\<close>

lemma put_key_simps [simp]:
  "keys (put_key st i k) = (keys st)[i := k]"
  "button_active_high (put_key st i k) = button_active_high st"
  "last_stroke_time (put_key st i k) = last_stroke_time st"
  "stroke_time_min (put_key st i k) = stroke_time_min st"
  "stroke_time_max (put_key st i k) = stroke_time_max st"
  "vel_curve (put_key st i k) = vel_curve st"
  by (simp_all add: put_key_def)

lemmas handle_unfold = handle_button_event_def Let_def

lemma handle_button_event_frame:
  assumes "handle_button_event midi now st i b a = Inr (st', cs)"
  shows "length (keys st') = length (keys st)"
    and "button_active_high st' = button_active_high st"
    and "vel_curve st' = vel_curve st"
    and "stroke_time_min st' = stroke_time_min st"
    and "stroke_time_max st' = stroke_time_max st"
    and "j \<noteq> i \<Longrightarrow> keys st' ! j = keys st ! j"
  using assms
  by (auto simp: handle_unfold bind_res_eq_Inr array_get_eq_Inr
      split: KEY_STATE.splits if_splits)

lemma handle_button_event_key:
  assumes "handle_button_event midi now st i b a = Inr (st', cs)"
  shows "i < length (keys st)"
    and "gpios (keys st' ! i) = gpios (keys st ! i)"
    and "irqs (keys st' ! i) = irqs (keys st ! i)"
    and "key_note (keys st' ! i) = key_note (keys st ! i)"
    and "timer_started (keys st' ! i) = timer_started (keys st ! i)"
  using assms
  by (auto simp: handle_unfold bind_res_eq_Inr array_get_eq_Inr
      split: KEY_STATE.splits if_splits)

lemma time_to_velocity_stroke_time [simp]:
  "time_to_velocity (st\<lparr>last_stroke_time := d\<rparr>) t = time_to_velocity st t"
  by (cases "vel_curve st") (simp_all add: time_to_velocity_def)

lemma time_to_velocity_put_key [simp]:
  "time_to_velocity (put_key st i k) t = time_to_velocity st t"
  by (cases "vel_curve st") (simp_all add: time_to_velocity_def)

section \<open>No fault on the linear curve\<close>

lemma time_to_velocity_linear_total:
  "vel_curve st = VEL_CURVE_LINEAR \<Longrightarrow> \<exists>v. time_to_velocity st t = Inr v"
  by (cases "t \<le> stroke_time_min st"; cases "stroke_time_max st \<le> t")
     (auto simp: time_to_velocity_linear_between, auto simp: time_to_velocity_def)

lemma handle_button_event_linear_total:
  assumes "vel_curve st = VEL_CURVE_LINEAR" and "i < length (keys st)"
  shows "\<exists>r. handle_button_event midi now st i b a = Inr r"
proof -
  obtain v where "time_to_velocity st (stime64_to_utime32 (now - hit_time (keys st ! i))) = Inr v"
    using time_to_velocity_linear_total [OF assms(1)] by blast
  with assms(2) show ?thesis
    by (auto simp: handle_unfold split: KEY_STATE.splits)
qed

section \<open>Sounding and silence\<close>

text \<open>
  \<open>note_balance on evs\<close> plays a list of events on one pitch that sounds or not: a note-on
  while it sounds is an error (\<open>None\<close>), a note-off silences it.
\<close>

fun note_balance :: "bool \<Rightarrow> seq_event_type list \<Rightarrow> bool option" where
  "note_balance on [] = Some on"
| "note_balance on (SNDRV_SEQ_EVENT_NOTEON # es) = (if on then None else note_balance True es)"
| "note_balance on (SNDRV_SEQ_EVENT_NOTEOFF # es) = note_balance False es"

lemma note_balance_append:
  "note_balance on (xs @ ys) = Option.bind (note_balance on xs) (\<lambda>on'. note_balance on' ys)"
  by (induction on xs rule: note_balance.induct) simp_all

text \<open>One call plays the right notes: the balance follows whether the key is pressed.\<close>

lemma handle_button_event_balance:
  assumes "client midi > 0" and "handle_button_event midi now st i b a = Inr (st', cs)"
  shows "note_balance (key_state (keys st ! i) = KEY_PRESSED) (map ev_type (dispatched cs)) =
         Some (key_state (keys st' ! i) = KEY_PRESSED)"
  using assms
  by (auto simp: handle_unfold bind_res_eq_Inr array_get_eq_Inr
      split: KEY_STATE.splits if_splits)

definition key_invar :: "cmidid_midi_state \<Rightarrow> nat \<Rightarrow> cmidid_gpio_state \<times> kcall list \<Rightarrow> bool" where
  "key_invar midi i = (\<lambda>(st, tr). client midi > 0 \<and> i < length (keys st) \<and>
     note_balance False (map ev_type (dispatched tr)) = Some (key_state (keys st ! i) = KEY_PRESSED))"

lemma key_step_invar: "key_invar midi i s \<Longrightarrow> key_step midi i s e = Inr s' \<Longrightarrow> key_invar midi i s'"
  by (cases s; cases e)
     (auto simp: key_invar_def bind_res_eq_Inr note_balance_append
       handle_button_event_balance handle_button_event_frame(1))

interpretation key_machine: invariant_machine "key_step midi i" "key_invar midi i" for midi i
  by unfold_locales (rule key_step_invar)

text \<open>On the linear curve the machine is total for every event.\<close>

definition linear_key_invar ::
    "cmidid_midi_state \<Rightarrow> nat \<Rightarrow> cmidid_gpio_state \<times> kcall list \<Rightarrow> bool" where
  "linear_key_invar midi i s \<longleftrightarrow> key_invar midi i s \<and> vel_curve (fst s) = VEL_CURVE_LINEAR"

interpretation linear_key: total_machine "key_step midi i" "linear_key_invar midi i" "\<lambda>_. True" for midi i
proof unfold_locales
  show "linear_key_invar midi i s'"
    if "linear_key_invar midi i s" and "key_step midi i s e = Inr s'" for s e s'
    using that key_step_invar [of midi i s e s']
    by (cases s; cases e)
       (auto simp: linear_key_invar_def bind_res_eq_Inr handle_button_event_frame(3))
  show "\<exists>s'. key_step midi i s e = Inr s'"
    if "linear_key_invar midi i s" and "True" for s e
    using that handle_button_event_linear_total [of "fst s" i midi "fst e" "fst (snd e)" "snd (snd e)"]
    by (cases s; cases e) (auto simp: linear_key_invar_def key_invar_def)
qed

section \<open>The notes of a history\<close>

text \<open>
  What a key should send, told without its state. The releases of the start button cut the history of its buttons into strokes.
  In a stroke, the presses of the end button after the first press of the start button are its hits; the first hit starts the
  note and every other one silences it and starts it again. Each release sends a note-off.
\<close>

fun start_pressed :: "button_event \<Rightarrow> bool" where
  "start_pressed (now, button, active) \<longleftrightarrow> button = START_BUTTON \<and> active"

fun start_released :: "button_event \<Rightarrow> bool" where
  "start_released (now, button, active) \<longleftrightarrow> button = START_BUTTON \<and> \<not> active"

fun end_pressed :: "button_event \<Rightarrow> bool" where
  "end_pressed (now, button, active) \<longleftrightarrow> button = END_BUTTON \<and> active"

definition hits :: "button_event list \<Rightarrow> nat" where
  "hits es = length (filter end_pressed (dropWhile (Not \<circ> start_pressed) es))"

fun repeats :: "nat \<Rightarrow> seq_event_type list" where
  "repeats 0 = []"
| "repeats (Suc n) = SNDRV_SEQ_EVENT_NOTEOFF # SNDRV_SEQ_EVENT_NOTEON # repeats n"

fun strikes :: "nat \<Rightarrow> seq_event_type list" where
  "strikes 0 = []"
| "strikes (Suc n) = SNDRV_SEQ_EVENT_NOTEON # repeats n"

function key_notes :: "button_event list \<Rightarrow> seq_event_type list" where
  "key_notes es = strikes (hits (takeWhile (Not \<circ> start_released) es)) @
     (case dropWhile (Not \<circ> start_released) es of
        [] \<Rightarrow> []
      | e # rest \<Rightarrow> SNDRV_SEQ_EVENT_NOTEOFF # key_notes rest)"
  by pat_completeness auto
termination
proof (relation "measure length", goal_cases)
  case (2 es e rest)
  then show ?case using length_dropWhile_le [of "Not \<circ> start_released" es] by simp
qed simp

declare key_notes.simps [simp del]

text \<open>The same from a state of the key on, and one event of the history.\<close>

definition notes_from :: "KEY_STATE \<Rightarrow> button_event list \<Rightarrow> seq_event_type list" where
  "notes_from q es =
     (let stroke = takeWhile (Not \<circ> start_released) es; ends = length (filter end_pressed stroke) in
      (case q of KEY_INACTIVE \<Rightarrow> strikes (hits stroke) | KEY_TOUCHED \<Rightarrow> strikes ends | KEY_PRESSED \<Rightarrow> repeats ends) @
      (case dropWhile (Not \<circ> start_released) es of
         [] \<Rightarrow> []
       | e # rest \<Rightarrow> SNDRV_SEQ_EVENT_NOTEOFF # key_notes rest))"

lemma notes_from_start: "notes_from KEY_INACTIVE es = key_notes es"
  by (subst key_notes.simps) (simp add: notes_from_def Let_def)

lemma notes_from_Nil: "notes_from q [] = []"
  by (cases q) (simp_all add: notes_from_def hits_def)

lemma notes_from_Cons:
  "notes_from q ((now, START_BUTTON, False) # es) = SNDRV_SEQ_EVENT_NOTEOFF # notes_from KEY_INACTIVE es"
  "notes_from KEY_INACTIVE ((now, START_BUTTON, True) # es) = notes_from KEY_TOUCHED es"
  "notes_from KEY_TOUCHED ((now, START_BUTTON, True) # es) = notes_from KEY_TOUCHED es"
  "notes_from KEY_PRESSED ((now, START_BUTTON, True) # es) = notes_from KEY_PRESSED es"
  "notes_from KEY_INACTIVE ((now, END_BUTTON, True) # es) = notes_from KEY_INACTIVE es"
  "notes_from KEY_TOUCHED ((now, END_BUTTON, True) # es) = SNDRV_SEQ_EVENT_NOTEON # notes_from KEY_PRESSED es"
  "notes_from KEY_PRESSED ((now, END_BUTTON, True) # es) =
     SNDRV_SEQ_EVENT_NOTEOFF # SNDRV_SEQ_EVENT_NOTEON # notes_from KEY_PRESSED es"
  "notes_from q ((now, END_BUTTON, False) # es) = notes_from q es"
  unfolding notes_from_start
  by (cases q; simp add: notes_from_def notes_from_start [symmetric] Let_def hits_def)+

lemma handle_button_event_notes:
  assumes "client midi > 0" and "handle_button_event midi now st i b a = Inr (st', cs)"
  shows "notes_from (key_state (keys st ! i)) ((now, b, a) # es) =
      map ev_type (dispatched cs) @ notes_from (key_state (keys st' ! i)) es"
    and "ev \<in> set (dispatched cs) \<Longrightarrow>
      ev_note ev = min 127 (key_note (keys st ! i) + transpose midi) \<and> ev_channel ev = midi_channel midi"
proof -
  show "notes_from (key_state (keys st ! i)) ((now, b, a) # es) =
      map ev_type (dispatched cs) @ notes_from (key_state (keys st' ! i)) es"
    using assms
    by (cases b; cases a) (auto simp: handle_unfold bind_res_eq_Inr array_get_eq_Inr notes_from_Cons
        cmidid_note_on_def cmidid_note_off_def split: KEY_STATE.splits if_splits)
  show "ev_note ev = min 127 (key_note (keys st ! i) + transpose midi) \<and> ev_channel ev = midi_channel midi"
    if "ev \<in> set (dispatched cs)"
    using assms that
    by (auto simp: handle_unfold bind_res_eq_Inr array_get_eq_Inr cmidid_note_on_def cmidid_note_off_def
        split: KEY_STATE.splits if_splits)
qed

lemma run_notes:
  assumes "client midi > 0" and "run_steps (key_step midi i) (st, tr) es = Inr (st', tr')"
  shows "map ev_type (dispatched tr') = map ev_type (dispatched tr) @ notes_from (key_state (keys st ! i)) es"
    and "ev \<in> set (dispatched tr') \<Longrightarrow> ev \<in> set (dispatched tr) \<or>
      ev_note ev = min 127 (key_note (keys st ! i) + transpose midi) \<and> ev_channel ev = midi_channel midi"
  using assms(2)
proof (induction es arbitrary: st tr)
  case Nil
  { case 1 then show ?case by (simp add: notes_from_Nil) next case 2 then show ?case by simp }
next
  case (Cons e es)
  obtain now b a where e: "e = (now, b, a)" by (rule prod_cases3)
  { case 1
    then obtain u cs where "handle_button_event midi now st i b a = Inr (u, cs)"
      "run_steps (key_step midi i) (u, tr @ cs) es = Inr (st', tr')" by (auto simp: e bind_res_eq_Inr)
    then show ?case using Cons.IH(1) handle_button_event_notes(1) [OF assms(1)] by (simp add: e)
  next
    case 2
    then obtain u cs where "handle_button_event midi now st i b a = Inr (u, cs)"
      "run_steps (key_step midi i) (u, tr @ cs) es = Inr (st', tr')" by (auto simp: e bind_res_eq_Inr)
    then show ?case
      using Cons.IH(2) [of u "tr @ cs"] 2 handle_button_event_notes(2) [OF assms(1)] handle_button_event_key(4) by auto }
qed

section \<open>Properties\<close>

definition sample_midi :: cmidid_midi_state where
  "sample_midi = \<lparr>card = Some 7, client = 128, midi_channel = 0, transpose = 0\<rparr>"

definition sample_key :: key where
  "sample_key = \<lparr>key_state = KEY_INACTIVE, gpios = (\<lambda>_. 0)(START_BUTTON := 17, END_BUTTON := 4),
     irqs = (\<lambda>_. 0)(START_BUTTON := 117, END_BUTTON := 104), hit_time = 0,
     timer_started = (\<lambda>_. False), key_note = 60, last_velocity = 0\<rparr>"

definition sample_gpio :: cmidid_gpio_state where
  "sample_gpio = (sample_state VEL_CURVE_LINEAR 1000 1000000)\<lparr>keys := [sample_key]\<rparr>"

lemma sample_gpio_simps [simp]:
  "keys sample_gpio = [sample_key]" "vel_curve sample_gpio = VEL_CURVE_LINEAR"
  "stroke_time_min sample_gpio = 1000" "stroke_time_max sample_gpio = 1000000"
  "client sample_midi = 128" "transpose sample_midi = 0" "midi_channel sample_midi = 0"
  "key_state sample_key = KEY_INACTIVE" "key_note sample_key = 60"
  by (simp_all add: sample_gpio_def sample_midi_def sample_key_def)

text \<open>A touch, a full stroke of half the range, a second hit of the end button, a release.\<close>

definition sample_stroke :: "button_event list" where
  "sample_stroke = [(0, START_BUTTON, True), (512512000, END_BUTTON, True),
     (600000000, END_BUTTON, True), (700000000, START_BUTTON, False)]"

text \<open>
  On the linear curve (the one the module starts with) no sequence of button events makes
  the handler fault, whatever the times are, and no note-on comes while the note sounds.
\<close>

theorem key_run_linear_total:
  assumes "client midi > 0" and "i < length (keys st)" and "key_state (keys st ! i) = KEY_INACTIVE"
    and "vel_curve st = VEL_CURVE_LINEAR"
  shows "\<exists>st' tr. key_run midi i st es = Inr (st', tr) \<and> vel_curve st' = VEL_CURVE_LINEAR \<and>
    note_balance False (map ev_type (dispatched tr)) = Some (key_state (keys st' ! i) = KEY_PRESSED)"
proof -
  have "linear_key_invar midi i (st, [])"
    using assms by (simp add: linear_key_invar_def key_invar_def)
  from linear_key.run_total [OF this, of es] show ?thesis
    by (auto simp: key_run_def linear_key_invar_def key_invar_def)
qed

lemma key_run_linear_total_witness:
  "\<exists>st' tr. key_run sample_midi 0 sample_gpio sample_stroke = Inr (st', tr) \<and>
     vel_curve st' = VEL_CURVE_LINEAR"
  using key_run_linear_total [of sample_midi 0 sample_gpio sample_stroke] by auto

text \<open>
  C1. The notes of a key that starts inactive, over any sequence of button events: exactly the history \<open>key_notes\<close>, all on the
  transposed pitch of the key and its channel. Every release of the start button sends one note-off, also when nothing sounds; between two
  releases the first hit of the end button after a press of the start button sends one note-on and every further hit a note-off and a note-on;
  nothing else is sent. So no note-on comes while the note sounds, and at the end the note sounds exactly if the key is in
  state \<open>KEY_PRESSED\<close>. On the linear curve the handler returns on every such sequence.
\<close>

theorem key_notes_exact:
  assumes "client midi > 0" and "i < length (keys st)" and "key_state (keys st ! i) = KEY_INACTIVE"
  shows "(\<forall>st' tr. key_run midi i st es = Inr (st', tr) \<longrightarrow>
      map ev_type (dispatched tr) = key_notes es \<and>
      (\<forall>ev \<in> set (dispatched tr). ev_note ev = min 127 (key_note (keys st ! i) + transpose midi) \<and> ev_channel ev = midi_channel midi) \<and>
      note_balance False (key_notes es) = Some (key_state (keys st' ! i) = KEY_PRESSED)) \<and>
    (vel_curve st = VEL_CURVE_LINEAR \<longrightarrow> (\<exists>st' tr. key_run midi i st es = Inr (st', tr)))"
proof (intro conjI allI impI)
  fix st' tr
  assume run: "key_run midi i st es = Inr (st', tr)"
  have "key_invar midi i (st, [])" using assms by (simp add: key_invar_def)
  from key_machine.run_invar [OF this run [unfolded key_run_def]]
  have bal: "note_balance False (map ev_type (dispatched tr)) = Some (key_state (keys st' ! i) = KEY_PRESSED)"
    by (simp add: key_invar_def)
  note played = run_notes [OF assms(1) run [unfolded key_run_def]]
  from played(1) show types: "map ev_type (dispatched tr) = key_notes es" by (simp add: assms(3) notes_from_start)
  from bal show "note_balance False (key_notes es) = Some (key_state (keys st' ! i) = KEY_PRESSED)" by (simp only: types)
  from played(2) show "\<forall>ev \<in> set (dispatched tr).
      ev_note ev = min 127 (key_note (keys st ! i) + transpose midi) \<and> ev_channel ev = midi_channel midi" by auto
next
  assume "vel_curve st = VEL_CURVE_LINEAR"
  from key_run_linear_total [OF assms this] show "\<exists>st' tr. key_run midi i st es = Inr (st', tr)" by blast
qed

text \<open>A touch that is given up, then a full stroke with a second hit, a release, and a release when nothing sounds.\<close>

definition sample_history :: "button_event list" where
  "sample_history = [(0, START_BUTTON, True), (1000, START_BUTTON, False)] @ sample_stroke @ [(800000000, START_BUTTON, False)]"

lemma sample_notes: "key_notes sample_history =
    [SNDRV_SEQ_EVENT_NOTEOFF, SNDRV_SEQ_EVENT_NOTEON, SNDRV_SEQ_EVENT_NOTEOFF, SNDRV_SEQ_EVENT_NOTEON,
     SNDRV_SEQ_EVENT_NOTEOFF, SNDRV_SEQ_EVENT_NOTEOFF]"
  by (simp add: sample_history_def sample_stroke_def key_notes.simps hits_def numeral_eq_Suc)

lemma key_notes_exact_witness:
  "\<exists>st' tr. key_run sample_midi 0 sample_gpio sample_history = Inr (st', tr) \<and>
     map ev_type (dispatched tr) =
       [SNDRV_SEQ_EVENT_NOTEOFF, SNDRV_SEQ_EVENT_NOTEON, SNDRV_SEQ_EVENT_NOTEOFF, SNDRV_SEQ_EVENT_NOTEON,
        SNDRV_SEQ_EVENT_NOTEOFF, SNDRV_SEQ_EVENT_NOTEOFF] \<and>
     (\<forall>ev \<in> set (dispatched tr). ev_note ev = 60)"
  using key_notes_exact [of sample_midi 0 sample_gpio sample_history] sample_notes by (auto simp: min_def)

text \<open>
  C16. A full stroke, start button at \<open>t0\<close> and end button at \<open>t1\<close> up to 73 minutes later, sends
  exactly one event: a note-on of the key's transposed note whose velocity is the linear
  interpolation of the elapsed time in units of 1024 ns. The elapsed time is kept for
  calibration and the key is pressed.
\<close>

theorem full_stroke:
  assumes "client midi > 0" and "i < length (keys st)" and "key_state (keys st ! i) = KEY_INACTIVE"
    and "vel_curve st = VEL_CURVE_LINEAR"
    and "unat (stroke_time_max st) \<le> unat (stroke_time_min st) + 33818640"
    and "0 \<le> sint (t1 - t0)" and "sint (t1 - t0) < 2 ^ 42"
  defines "lo \<equiv> unat (stroke_time_min st)" and "hi \<equiv> unat (stroke_time_max st)"
    and "t \<equiv> nat (sint (t1 - t0)) div 1024"
  shows "\<exists>st' ev. key_run midi i st [(t0, START_BUTTON, True), (t1, END_BUTTON, True)] =
      Inr (st', [Seq_dispatch (client midi) ev]) \<and>
    ev_type ev = SNDRV_SEQ_EVENT_NOTEON \<and>
    ev_note ev = min 127 (key_note (keys st ! i) + transpose midi) \<and>
    unat (ev_velocity ev) = (if t \<le> lo then 127 else if hi \<le> t then 0
                             else 127 * (hi - t) div (hi - lo)) \<and>
    unat (last_stroke_time st') = t \<and> key_state (keys st' ! i) = KEY_PRESSED"
proof -
  let ?d = "stime64_to_utime32 (t1 - t0)"
  have t: "unat ?d = t" using unat_stime64_to_utime32 [OF assms(6,7)] by (simp add: t_def)
  obtain v where v: "time_to_velocity st ?d = Inr v" "unat v \<le> 127"
    "unat v = (if t \<le> lo then 127 else if hi \<le> t then 0 else 127 * (hi - t) div (hi - lo))"
    using linear_velocity_value_all [OF assms(4,5), of ?d] unfolding lo_def hi_def t by blast
  have "min 127 v = v" using v(2) by (intro min.absorb2) (simp add: word_le_nat_alt)
  then show ?thesis
    using assms(1-3) v t by (simp add: key_run_def handle_unfold cmidid_note_on_def dispatch_event_def)
qed

lemma full_stroke_witness:
  "\<exists>st' ev. key_run sample_midi 0 sample_gpio
       [(0, START_BUTTON, True), (512512000, END_BUTTON, True)] = Inr (st', [Seq_dispatch 128 ev]) \<and>
     ev_note ev = 60 \<and> unat (ev_velocity ev) = 63"
  using full_stroke [of sample_midi 0 sample_gpio 512512000 0] by (auto simp: min_def)

end
