(* ===== verification/Gpio_Irq.thy ===== *)
theory Gpio_Irq
  imports Key_Events
begin

text \<open>
  Interrupts and timers of \<open>module/cmidid_gpio.c\<close>: the lookup of a key by IRQ number or by
  timer, the interrupt handler that delays the reading of a button, and the timer callback
  that reads it. A lookup returns the index of the key and the button, \<open>None\<close> where the
  source leaves \<open>NULL\<close>. The handler's two debugging reads of the GPIOs dereference the key
  before it is compared with \<open>NULL\<close>, which is why an unknown IRQ is a fault.
\<close>

section \<open>The code\<close>

fun find_irq :: "key list \<Rightarrow> nat \<Rightarrow> u32 \<Rightarrow> (nat \<times> button) option" where
  "find_irq [] i irq = None"
| "find_irq (k # ks) i irq =
     (if irqs k START_BUTTON = irq then Some (i, START_BUTTON)
      else if irqs k END_BUTTON = irq then Some (i, END_BUTTON)
      else find_irq ks (Suc i) irq)"

definition get_key_from_irq :: "cmidid_gpio_state \<Rightarrow> u32 \<Rightarrow> (nat \<times> button) option" where
  "get_key_from_irq st irq = find_irq (keys st) 0 irq"

fun find_timer :: "key list \<Rightarrow> nat \<Rightarrow> timer_ref \<Rightarrow> (nat \<times> button) option" where
  "find_timer [] i timer = None"
| "find_timer (k # ks) i timer =
     (if (i, START_BUTTON) = timer then Some (i, START_BUTTON)
      else if (i, END_BUTTON) = timer then Some (i, END_BUTTON)
      else find_timer ks (Suc i) timer)"

definition get_key_from_timer :: "cmidid_gpio_state \<Rightarrow> timer_ref \<Rightarrow> (nat \<times> button) option" where
  "get_key_from_timer st timer = find_timer (keys st) 0 timer"

definition timer_irq ::
    "cmidid_midi_state \<Rightarrow> s64 \<Rightarrow> (int \<Rightarrow> int) \<Rightarrow> cmidid_gpio_state \<Rightarrow> timer_ref \<Rightarrow>
     (cmidid_gpio_state \<times> kcall list) res" where
  "timer_irq midi now gpio_get_value st timer =
     (case get_key_from_timer st timer of
        None \<Rightarrow> Inr (st, [])
      | Some (i, button) \<Rightarrow>
          bind_res (array_get (keys st) i) (\<lambda>k.
            let gpio_active = gpio_get_value (gpios k button);
                st = put_key st i (k\<lparr>timer_started := (timer_started k)(button := False)\<rparr>)
            in handle_button_event midi now st i button
                 (of_bool (button_active_high st button) XOR gpio_active = 0)))"

definition irq_handler ::
    "u32 \<Rightarrow> cmidid_gpio_state \<Rightarrow> u32 \<Rightarrow> (cmidid_gpio_state \<times> kcall list) res" where
  "irq_handler jitter_res_time st irq =
     bind_res (deref (get_key_from_irq st irq)) (\<lambda>(i, index).
     bind_res (array_get (keys st) i) (\<lambda>k.
       if \<not> timer_started k index
       then Inr (put_key st i (k\<lparr>timer_started := (timer_started k)(index := True)\<rparr>),
                 [Hrtimer_start (i, index) jitter_res_time])
       else Inr (st, [])))"

section \<open>The lookups\<close>

lemma find_irq_SomeD:
  "find_irq ks i irq = Some (j, b) \<Longrightarrow>
     i \<le> j \<and> j < i + length ks \<and> irqs (ks ! (j - i)) b = irq"
proof (induction ks i irq rule: find_irq.induct)
  case (2 k ks i irq)
  show ?case
  proof (cases "irq \<in> range (irqs k)")
    case True
    with "2.prems" show ?thesis
      by (cases b) (auto simp: image_iff ex_button split: if_splits)
  next
    case False
    then have "irqs k START_BUTTON \<noteq> irq" "irqs k END_BUTTON \<noteq> irq" by auto
    with "2.prems" "2.IH" show ?thesis by (auto simp: nth_Cons')
  qed
qed simp

lemma find_irq_None_iff: "find_irq ks i irq = None \<longleftrightarrow> (\<forall>k \<in> set ks. \<forall>b. irqs k b \<noteq> irq)"
  by (induction ks i irq rule: find_irq.induct) (auto simp: all_button)

lemma get_key_from_irq_SomeD:
  "get_key_from_irq st irq = Some (i, b) \<Longrightarrow> i < length (keys st) \<and> irqs (keys st ! i) b = irq"
  unfolding get_key_from_irq_def by (drule find_irq_SomeD) simp

lemma get_key_from_irq_None_iff:
  "get_key_from_irq st irq = None \<longleftrightarrow> (\<forall>k \<in> set (keys st). \<forall>b. irqs k b \<noteq> irq)"
  by (simp add: get_key_from_irq_def find_irq_None_iff)

lemma find_timer_eq:
  "find_timer ks i (j, b) = (if i \<le> j \<and> j < i + length ks then Some (j, b) else None)"
  by (induction ks arbitrary: i; cases b) auto

lemma get_key_from_timer_eq:
  "get_key_from_timer st (j, b) = (if j < length (keys st) then Some (j, b) else None)"
  by (simp add: get_key_from_timer_def find_timer_eq)

section \<open>Frame facts\<close>

lemma irq_handler_eq:
  assumes "get_key_from_irq st irq = Some (i, b)"
  shows "irq_handler jit st irq =
    (if timer_started (keys st ! i) b then Inr (st, [])
     else Inr (put_key st i ((keys st ! i)\<lparr>timer_started := (timer_started (keys st ! i))(b := True)\<rparr>),
               [Hrtimer_start (i, b) jit]))"
  using assms get_key_from_irq_SomeD [OF assms] by (simp add: irq_handler_def)

lemma timer_irq_eq:
  assumes "i < length (keys st)"
  shows "timer_irq midi now gv st (i, b) =
    handle_button_event midi now
      (put_key st i ((keys st ! i)\<lparr>timer_started := (timer_started (keys st ! i))(b := False)\<rparr>)) i b
      (of_bool (button_active_high st b) XOR gv (gpios (keys st ! i) b) = 0)"
  using assms by (simp add: timer_irq_def get_key_from_timer_eq Let_def)

text \<open>For a GPIO that reads 0 or 1 the button is active iff the level is its active level.\<close>

lemma active_level:
  "v \<in> {0, 1} \<Longrightarrow> (of_bool h XOR (v :: int) = 0) \<longleftrightarrow> (h \<longleftrightarrow> v = 1)"
  by (cases h) auto

lemma active_level_iff: "(of_bool h XOR (v :: int) = 0) \<longleftrightarrow> v = of_bool h"
  by (metis xor_self_eq xor.assoc xor.right_neutral xor.commute)

end
