(* ===== verification/Cmidid_System.thy ===== *)
theory Cmidid_System
  imports Gpio_Irq
begin

text \<open>
  The running CMIDID module: the ioctl interface of \<open>module/cmidid_main.c\<close> and the
  interleaving of its entry points. The kernel calls \<open>irq_handler\<close> for an interrupt,
  \<open>timer_irq\<close> when a timer that was started runs out (once: the callback returns
  \<open>HRTIMER_NORESTART\<close>), and \<open>cmidid_ioctl\<close> for a user; each runs to its end. The set
  \<open>pending\<close> holds the timers started and not yet run out. Reachability is inductive; the
  invariants say that the debounce flags agree with the pending timers, and that every
  event handed to ALSA is well formed.
\<close>

section \<open>The ioctl interface\<close>

text \<open>\<open>_IO(type, nr)\<close> of the kernel headers: the type in bits 8 to 15, the number below.\<close>

definition IO_cmd :: "u32 \<Rightarrow> u32 \<Rightarrow> u32" where
  "IO_cmd ty nr = push_bit 8 ty OR nr"

definition CMIDID_CALIBRATE_MIN_TIME :: u32 where "CMIDID_CALIBRATE_MIN_TIME = IO_cmd 0 0"
definition CMIDID_CALIBRATE_MAX_TIME :: u32 where "CMIDID_CALIBRATE_MAX_TIME = IO_cmd 0 1"
definition CMIDID_VEL_CURVE_LINEAR :: u32 where "CMIDID_VEL_CURVE_LINEAR = IO_cmd 0 2"
definition CMIDID_VEL_CURVE_CONCAVE :: u32 where "CMIDID_VEL_CURVE_CONCAVE = IO_cmd 0 3"
definition CMIDID_VEL_CURVE_CONVEX :: u32 where "CMIDID_VEL_CURVE_CONVEX = IO_cmd 0 4"
definition CMIDID_VEL_CURVE_SATURATED :: u32 where "CMIDID_VEL_CURVE_SATURATED = IO_cmd 0 5"
definition CMIDID_TRANSPOSE :: u32 where "CMIDID_TRANSPOSE = IO_cmd 0 6"

lemmas ioctl_cmd_defs =
  IO_cmd_def CMIDID_CALIBRATE_MIN_TIME_def CMIDID_CALIBRATE_MAX_TIME_def
  CMIDID_VEL_CURVE_LINEAR_def CMIDID_VEL_CURVE_CONCAVE_def CMIDID_VEL_CURVE_CONVEX_def
  CMIDID_VEL_CURVE_SATURATED_def CMIDID_TRANSPOSE_def

text \<open>The result is a \<open>long\<close>, 32 bits wide: a \<open>uint32_t\<close> is reinterpreted.\<close>

definition cmidid_ioctl ::
    "cmidid_midi_state \<Rightarrow> cmidid_gpio_state \<Rightarrow> u32 \<Rightarrow> u32 \<Rightarrow>
     cmidid_midi_state \<times> cmidid_gpio_state \<times> int" where
  "cmidid_ioctl midi st cmd arg =
     (if cmd = CMIDID_CALIBRATE_MIN_TIME then
        (let (st', r) = cmidid_set_min_stroke_time st in (midi, st', sint r))
      else if cmd = CMIDID_CALIBRATE_MAX_TIME then
        (let (st', r) = cmidid_set_max_stroke_time st in (midi, st', sint r))
      else if cmd = CMIDID_VEL_CURVE_LINEAR then (midi, cmidid_set_vel_curve_linear st, 0)
      else if cmd = CMIDID_VEL_CURVE_CONCAVE then (midi, cmidid_set_vel_curve_concave st, 0)
      else if cmd = CMIDID_VEL_CURVE_CONVEX then (midi, cmidid_set_vel_curve_convex st, 0)
      else if cmd = CMIDID_VEL_CURVE_SATURATED then (midi, cmidid_set_vel_curve_saturated st, 0)
      else if cmd = CMIDID_TRANSPOSE then
        (let (midi', r) = cmidid_transpose midi (ucast arg) in (midi', st, sint r + 128))
      else (midi, st, 0))"

lemma cmidid_ioctl_frame:
  assumes "cmidid_ioctl midi st cmd arg = (midi', st', r)"
  shows "keys st' = keys st" and "button_active_high st' = button_active_high st"
    and "midi_channel midi' = midi_channel midi" and "client midi' = client midi"
    and "card midi' = card midi"
  using assms
  by (auto simp: cmidid_ioctl_def cmidid_transpose_def gpio_setter_defs Let_def split: if_splits)

section \<open>The running module\<close>

record cmidid_system =
  sys_midi :: cmidid_midi_state
  sys_gpio :: cmidid_gpio_state
  pending :: "timer_ref set"
  calls :: "kcall list"

datatype cmidid_event =
    Irq u32
  | Timer_expired timer_ref s64 "int \<Rightarrow> int"
  | Ioctl u32 u32

fun started_timers :: "kcall list \<Rightarrow> timer_ref set" where
  "started_timers [] = {}"
| "started_timers (Hrtimer_start t d # cs) = insert t (started_timers cs)"
| "started_timers (_ # cs) = started_timers cs"

fun system_step :: "u32 \<Rightarrow> cmidid_system \<Rightarrow> cmidid_event \<Rightarrow> cmidid_system res" where
  "system_step jit s (Irq irq) =
     bind_res (irq_handler jit (sys_gpio s) irq) (\<lambda>(g, cs).
       Inr (s\<lparr>sys_gpio := g, pending := pending s \<union> started_timers cs, calls := calls s @ cs\<rparr>))"
| "system_step jit s (Timer_expired t now gv) =
     bind_res (timer_irq (sys_midi s) now gv (sys_gpio s) t) (\<lambda>(g, cs).
       Inr (s\<lparr>sys_gpio := g, pending := pending s - {t}, calls := calls s @ cs\<rparr>))"
| "system_step jit s (Ioctl cmd arg) =
     (let (m, g, r) = cmidid_ioctl (sys_midi s) (sys_gpio s) cmd arg
      in Inr (s\<lparr>sys_midi := m, sys_gpio := g\<rparr>))"

text \<open>
  What the kernel may do: an interrupt handler runs only for an IRQ it was registered for,
  a timer callback only for a pending timer.
\<close>

fun enabled :: "cmidid_system \<Rightarrow> cmidid_event \<Rightarrow> bool" where
  "enabled s (Irq irq) = (\<exists>k \<in> set (keys (sys_gpio s)). irqs k START_BUTTON = irq \<or> irqs k END_BUTTON = irq)"
| "enabled s (Timer_expired t now gv) = (t \<in> pending s)"
| "enabled s (Ioctl cmd arg) = True"

inductive reachable :: "u32 \<Rightarrow> cmidid_system \<Rightarrow> cmidid_system \<Rightarrow> bool" for jit s0 where
  start: "reachable jit s0 s0"
| step: "reachable jit s0 s \<Longrightarrow> enabled s e \<Longrightarrow> system_step jit s e = Inr s' \<Longrightarrow> reachable jit s0 s'"

inductive_cases reachable_stepE: "reachable jit s0 s"

text \<open>The state a successful initialisation hands over: no timer runs and no flag is set.\<close>

definition fresh_system :: "cmidid_system \<Rightarrow> bool" where
  "fresh_system s \<longleftrightarrow> pending s = {} \<and>
     (\<forall>k \<in> set (keys (sys_gpio s)). \<forall>b. \<not> timer_started k b)"

section \<open>The invariant\<close>

text \<open>The debounce flag of a button is set exactly while its timer is pending.\<close>

definition debounce_invar :: "cmidid_system \<Rightarrow> bool" where
  "debounce_invar s \<longleftrightarrow>
     (\<forall>i b. (i, b) \<in> pending s \<longleftrightarrow>
        i < length (keys (sys_gpio s)) \<and> timer_started (keys (sys_gpio s) ! i) b)"

lemma debounce_invarD:
  "debounce_invar s \<Longrightarrow> (i, b) \<in> pending s \<longleftrightarrow>
     i < length (keys (sys_gpio s)) \<and> timer_started (keys (sys_gpio s) ! i) b"
  by (simp add: debounce_invar_def)

lemma fresh_debounce_invar: "fresh_system s \<Longrightarrow> debounce_invar s"
  by (auto simp: fresh_system_def debounce_invar_def)

lemma enabled_irqE:
  assumes "enabled s (Irq irq)"
  obtains i b where "get_key_from_irq (sys_gpio s) irq = Some (i, b)"
  using assms get_key_from_irq_None_iff [of "sys_gpio s" irq]
  by (cases "get_key_from_irq (sys_gpio s) irq") auto

lemma timer_irq_keys:
  assumes "timer_irq midi now gv st (i, b) = Inr (st', cs)" and "i < length (keys st)"
  shows "length (keys st') = length (keys st)"
    and "timer_started (keys st' ! j) = (if j = i then (timer_started (keys st ! i))(b := False)
           else timer_started (keys st ! j))"
  using assms handle_button_event_frame [OF assms(1) [unfolded timer_irq_eq [OF assms(2)]]]
    handle_button_event_key [OF assms(1) [unfolded timer_irq_eq [OF assms(2)]]]
  by simp_all

lemma irq_step_debounce:
  assumes "debounce_invar s" and "enabled s (Irq irq)" and "system_step jit s (Irq irq) = Inr s'"
  shows "debounce_invar s'"
proof -
  obtain i b where f: "get_key_from_irq (sys_gpio s) irq = Some (i, b)"
    using assms(2) by (rule enabled_irqE)
  with get_key_from_irq_SomeD [OF f] assms(1,3) show ?thesis
    by (auto simp: irq_handler_eq debounce_invar_def nth_list_update split: if_splits)
qed

lemma timer_step_debounce:
  assumes "debounce_invar s" and "enabled s (Timer_expired t now gv)"
    and "system_step jit s (Timer_expired t now gv) = Inr s'"
  shows "debounce_invar s'"
proof -
  obtain i b where t: "t = (i, b)" by (cases t)
  with assms(1,2) have i: "i < length (keys (sys_gpio s))" by (simp add: debounce_invar_def)
  from assms(3) t obtain g cs where g: "timer_irq (sys_midi s) now gv (sys_gpio s) (i, b) = Inr (g, cs)"
    and s': "s' = s\<lparr>sys_gpio := g, pending := pending s - {(i, b)}, calls := calls s @ cs\<rparr>"
    by (auto simp: bind_res_eq_Inr)
  show ?thesis
    using assms(1) timer_irq_keys [OF g i] i by (auto simp: s' debounce_invar_def)
qed

lemma step_debounce:
  "debounce_invar s \<Longrightarrow> enabled s e \<Longrightarrow> system_step jit s e = Inr s' \<Longrightarrow> debounce_invar s'"
proof (cases e)
  case (Ioctl cmd arg)
  assume "debounce_invar s" and "system_step jit s e = Inr s'"
  with Ioctl show ?thesis
    by (auto simp: debounce_invar_def Let_def dest: cmidid_ioctl_frame(1) split: prod.splits)
qed (blast intro: irq_step_debounce timer_step_debounce)+

lemma reachable_debounce: "reachable jit s0 s \<Longrightarrow> fresh_system s0 \<Longrightarrow> debounce_invar s"
  by (induction rule: reachable.induct) (auto intro: fresh_debounce_invar step_debounce)

text \<open>Every event handed to ALSA is a well-formed note event on the channel of the module.\<close>

definition output_invar :: "cmidid_system \<Rightarrow> bool" where
  "output_invar s \<longleftrightarrow> midi_channel (sys_midi s) \<le> 15 \<and>
     (\<forall>ev \<in> set (dispatched (calls s)). wf_note_event ev)"

lemma handle_button_event_wf:
  assumes "handle_button_event midi now st i b a = Inr (st', cs)" and "midi_channel midi \<le> 15"
    and "ev \<in> set (dispatched cs)"
  shows "wf_note_event ev"
  using assms
  by (auto simp: handle_unfold bind_res_eq_Inr array_get_eq_Inr wf_config_note_event
      split: KEY_STATE.splits if_splits)

lemma irq_handler_dispatched:
  "irq_handler jit st irq = Inr (st', cs) \<Longrightarrow> dispatched cs = []"
  by (auto simp: irq_handler_def bind_res_eq_Inr split: if_splits)

lemma timer_irq_wf:
  assumes "timer_irq midi now gv st t = Inr (st', cs)" and "midi_channel midi \<le> 15"
    and "ev \<in> set (dispatched cs)"
  shows "wf_note_event ev"
  using assms
  by (auto simp: timer_irq_def bind_res_eq_Inr Let_def dest: handle_button_event_wf
      split: option.splits)

lemma step_output: "output_invar s \<Longrightarrow> system_step jit s e = Inr s' \<Longrightarrow> output_invar s'"
  by (cases e)
     (auto simp: output_invar_def bind_res_eq_Inr Let_def irq_handler_dispatched
       dest: timer_irq_wf cmidid_ioctl_frame(3) split: prod.splits)

interpretation system_output: invariant_machine "system_step jit" output_invar for jit
  by unfold_locales (rule step_output)

lemma reachable_output: "reachable jit s0 s \<Longrightarrow> output_invar s0 \<Longrightarrow> output_invar s"
  by (induction rule: reachable.induct) (auto intro: step_output)

section \<open>What a running module leaves alone\<close>

text \<open>The GPIOs and interrupt lines of the keys, the card and the client; and no resource is taken or given back.\<close>

definition wiring :: "cmidid_gpio_state \<Rightarrow> ((button \<Rightarrow> int) \<times> (button \<Rightarrow> u32)) list" where
  "wiring st = map (\<lambda>k. (gpios k, irqs k)) (keys st)"

lemma wiring_put_key:
  "gpios k = gpios (keys st ! i) \<Longrightarrow> irqs k = irqs (keys st ! i) \<Longrightarrow> wiring (put_key st i k) = wiring st"
  by (cases "i < length (keys st)") (simp_all add: wiring_def map_update list_update_same_conv list_update_beyond)

lemma handle_button_event_wiring:
  assumes "handle_button_event midi now st i b a = Inr (st', cs)"
  shows "wiring st' = wiring st" and "kheld r cs = 0"
proof -
  have "wiring (st\<lparr>last_stroke_time := d\<rparr>) = wiring st" for d by (simp add: wiring_def)
  with assms show "wiring st' = wiring st"
    by (auto simp: handle_unfold bind_res_eq_Inr array_get_eq_Inr wiring_put_key split: KEY_STATE.splits if_splits)
  show "kheld r cs = 0"
    using assms
    by (auto simp: handle_unfold bind_res_eq_Inr array_get_eq_Inr cmidid_note_on_def cmidid_note_off_def dispatch_event_def
        split: KEY_STATE.splits if_splits)
qed

lemma timer_irq_wiring:
  assumes "timer_irq midi now gv st t = Inr (st', cs)"
  shows "wiring st' = wiring st" and "kheld r cs = 0"
  using assms
  by (auto simp: timer_irq_def bind_res_eq_Inr array_get_eq_Inr Let_def handle_button_event_wiring wiring_put_key
      split: option.splits)

lemma irq_handler_wiring:
  assumes "irq_handler jit st irq = Inr (st', cs)"
  shows "wiring st' = wiring st" and "kheld r cs = 0"
  using assms by (auto simp: irq_handler_def bind_res_eq_Inr array_get_eq_Inr wiring_put_key split: if_splits)

lemma step_wiring:
  assumes "system_step jit s e = Inr s'"
  shows "wiring (sys_gpio s') = wiring (sys_gpio s) \<and> card (sys_midi s') = card (sys_midi s) \<and>
    client (sys_midi s') = client (sys_midi s) \<and> kheld r (calls s') = kheld r (calls s)"
proof (cases e)
  case (Ioctl cmd arg)
  obtain m g x where "cmidid_ioctl (sys_midi s) (sys_gpio s) cmd arg = (m, g, x)" by (rule prod_cases3)
  with cmidid_ioctl_frame [OF this] assms Ioctl show ?thesis by (auto simp: wiring_def)
qed (use assms in \<open>auto simp: bind_res_eq_Inr irq_handler_wiring timer_irq_wiring\<close>)

lemma reachable_wiring:
  "reachable jit s0 s \<Longrightarrow>
    wiring (sys_gpio s) = wiring (sys_gpio s0) \<and> card (sys_midi s) = card (sys_midi s0) \<and>
    client (sys_midi s) = client (sys_midi s0) \<and> kheld r (calls s) = kheld r (calls s0)"
  by (induction rule: reachable.induct) (auto dest: step_wiring [where r = r])

section \<open>Which faults a running module can meet\<close>

lemma time_to_velocity_fault:
  "time_to_velocity st t = Inl f \<Longrightarrow> f = Division_by_zero \<and> vel_curve st \<noteq> VEL_CURVE_LINEAR"
  using time_to_velocity_linear_total [of st t]
  by (cases "vel_curve st")
     (auto simp: time_to_velocity_def udiv32_def bind_res_def Let_def split: if_splits sum.splits)

lemma handle_button_event_fault:
  assumes "handle_button_event midi now st i b a = Inl f" and "i < length (keys st)"
  shows "f = Division_by_zero \<and> vel_curve st \<noteq> VEL_CURVE_LINEAR"
  using assms time_to_velocity_fault [of st _ f]
  by (auto simp: handle_unfold bind_res_def split: KEY_STATE.splits if_splits sum.splits)

lemma step_fault:
  assumes "debounce_invar s" and "enabled s e" and "system_step jit s e = Inl f"
  shows "f = Division_by_zero \<and> vel_curve (sys_gpio s) \<noteq> VEL_CURVE_LINEAR"
proof (cases e)
  case (Irq irq)
  with assms(2) obtain i b where "get_key_from_irq (sys_gpio s) irq = Some (i, b)"
    by (blast elim: enabled_irqE)
  with assms(3) Irq show ?thesis by (auto simp: irq_handler_eq bind_res_def split: if_splits)
next
  case (Timer_expired t now gv)
  obtain i b where t: "t = (i, b)" by (cases t)
  with assms(1,2) Timer_expired have i: "i < length (keys (sys_gpio s))"
    by (simp add: debounce_invar_def)
  let ?k = "keys (sys_gpio s) ! i"
  let ?st = "put_key (sys_gpio s) i (?k\<lparr>timer_started := (timer_started ?k)(b := False)\<rparr>)"
  from assms(3) Timer_expired t have "timer_irq (sys_midi s) now gv (sys_gpio s) (i, b) = Inl f"
    by (simp add: bind_res_def split: sum.splits prod.splits)
  then obtain a where "handle_button_event (sys_midi s) now ?st i b a = Inl f"
    unfolding timer_irq_eq [OF i] by blast
  from handle_button_event_fault [OF this] i show ?thesis by simp
next
  case (Ioctl cmd arg)
  with assms(3) show ?thesis by (simp add: Let_def split: prod.splits)
qed


section \<open>Further lemmas on the ioctl interface and on steps\<close>

lemma ioctl_stroke_time_min:
  "cmidid_ioctl midi st cmd arg = (midi', st', r) \<Longrightarrow> stroke_time_min st' = stroke_time_min st"
  by (auto simp: cmidid_ioctl_def cmidid_transpose_def gpio_setter_defs Let_def split: if_splits)

lemma irq_handler_stroke_time_min:
  "irq_handler jit st irq = Inr (st', cs) \<Longrightarrow> stroke_time_min st' = stroke_time_min st"
  by (auto simp: irq_handler_def bind_res_eq_Inr split: if_splits)

lemma timer_irq_stroke_time_min:
  "timer_irq midi now gv st t = Inr (st', cs) \<Longrightarrow> stroke_time_min st' = stroke_time_min st"
  by (auto simp: timer_irq_def bind_res_eq_Inr Let_def dest!: handle_button_event_frame(4)
      split: option.splits)

lemma step_stroke_time_min:
  "system_step jit s e = Inr s' \<Longrightarrow> stroke_time_min (sys_gpio s') = stroke_time_min (sys_gpio s)"
  by (cases e)
     (auto simp: bind_res_eq_Inr Let_def
       dest: irq_handler_stroke_time_min timer_irq_stroke_time_min ioctl_stroke_time_min
       split: prod.splits)

lemma ioctl_transpose_eq:
  "cmidid_ioctl midi st CMIDID_TRANSPOSE arg =
     (midi\<lparr>transpose := transpose midi + ucast arg\<rparr>, st,
      sint (transpose midi + ucast arg) + 128)"
  by (simp add: cmidid_ioctl_def ioctl_cmd_defs cmidid_transpose_def Let_def)

lemma ioctl_min_eq:
  "cmidid_ioctl midi st CMIDID_CALIBRATE_MIN_TIME arg =
     (midi, st\<lparr>stroke_time_max := last_stroke_time st\<rparr>, sint (last_stroke_time st))"
  by (simp add: cmidid_ioctl_def cmidid_set_min_stroke_time_def)

section \<open>Properties\<close>

definition sample_system :: cmidid_system where
  "sample_system = \<lparr>sys_midi = sample_midi, sys_gpio = sample_gpio, pending = {}, calls = []\<rparr>"

lemma sample_system_simps [simp]:
  "sys_midi sample_system = sample_midi" "sys_gpio sample_system = sample_gpio"
  "pending sample_system = {}" "calls sample_system = []"
  "irqs sample_key START_BUTTON = 117" "irqs sample_key END_BUTTON = 104"
  "gpios sample_key START_BUTTON = 17" "timer_started sample_key b = False"
  by (simp_all add: sample_system_def sample_key_def)

lemma fresh_sample_system: "fresh_system sample_system"
  by (simp add: fresh_system_def sample_key_def)

definition touched_system :: cmidid_system where
  "touched_system = sample_system\<lparr>
     sys_gpio := put_key sample_gpio 0
       (sample_key\<lparr>timer_started := (timer_started sample_key)(START_BUTTON := True)\<rparr>),
     pending := {(0, START_BUTTON)},
     calls := [Hrtimer_start (0, START_BUTTON) 1000000]\<rparr>"

lemma irq_sample: "system_step 1000000 sample_system (Irq 117) = Inr touched_system"
proof -
  have "get_key_from_irq sample_gpio 117 = Some (0, START_BUTTON)" by (simp add: get_key_from_irq_def)
  then show ?thesis by (simp add: irq_handler_eq touched_system_def sample_system_def insert_commute)
qed

lemma reachable_touched: "reachable 1000000 sample_system touched_system"
  by (rule reachable.step [OF reachable.start _ irq_sample]) simp

text \<open>
  C12. Debouncing: in every state the running module can reach from a fresh initialisation, an
  interrupt of a registered IRQ is either ignored, when the timer of its button is already
  pending, or starts that timer with the jitter resolution time and marks it; it never sends
  an event and never faults.
\<close>

theorem irq_debounced:
  assumes "fresh_system s0" and "reachable jit s0 s" and "enabled s (Irq irq)"
  shows "\<exists>i b. get_key_from_irq (sys_gpio s) irq = Some (i, b) \<and>
    (if (i, b) \<in> pending s then system_step jit s (Irq irq) = Inr s
     else \<exists>g. system_step jit s (Irq irq) = Inr (s\<lparr>sys_gpio := g,
            pending := insert (i, b) (pending s), calls := calls s @ [Hrtimer_start (i, b) jit]\<rparr>))"
proof -
  obtain i b where f: "get_key_from_irq (sys_gpio s) irq = Some (i, b)"
    using assms(3) by (rule enabled_irqE)
  from reachable_debounce [OF assms(2,1)]
  have "(i, b) \<in> pending s \<longleftrightarrow> timer_started (keys (sys_gpio s) ! i) b"
    using get_key_from_irq_SomeD [OF f] by (simp add: debounce_invarD)
  with f show ?thesis by (auto simp: irq_handler_eq [OF f])
qed

lemma irq_debounced_witness:
  "system_step 1000000 touched_system (Irq 117) = Inr touched_system"
proof -
  have e: "enabled touched_system (Irq 117)" by (simp add: touched_system_def)
  have "get_key_from_irq (sys_gpio touched_system) 117 = Some (0, START_BUTTON)"
    by (simp add: get_key_from_irq_def touched_system_def)
  then show ?thesis
    using irq_debounced [OF fresh_sample_system reachable_touched e]
    by (simp add: touched_system_def)
qed

text \<open>
  The debounce flag of a button is set exactly while its timer is pending, in every
  reachable state, so each timer that runs out finds its key and no second timer of the same
  button is ever started meanwhile.
\<close>

theorem debounce_flag_tracks_timer:
  assumes "fresh_system s0" and "reachable jit s0 s"
  shows "(i, b) \<in> pending s \<longleftrightarrow>
    i < num_keys (sys_gpio s) \<and> timer_started (keys (sys_gpio s) ! i) b"
  using reachable_debounce [OF assms(2,1)] by (simp add: debounce_invar_def num_keys_def)

lemma debounce_flag_tracks_timer_witness:
  "(0, START_BUTTON) \<in> pending touched_system \<and> (0, END_BUTTON) \<notin> pending touched_system"
  using debounce_flag_tracks_timer [OF fresh_sample_system reachable_touched, of 0 START_BUTTON]
    debounce_flag_tracks_timer [OF fresh_sample_system reachable_touched, of 0 END_BUTTON]
  by (simp add: touched_system_def num_keys_def)


text \<open>
  C28. Every event the running module hands to the sequencer is well formed: note and velocity
  are seven-bit values and the channel is one of sixteen, whatever interrupts, timers,
  button levels and ioctl commands (transpositions included) led there.
\<close>

theorem output_well_formed:
  assumes "reachable jit s0 s" and "midi_channel (sys_midi s0) \<le> 15" and "calls s0 = []"
    and "ev \<in> set (dispatched (calls s))"
  shows "ev_note ev \<le> 127 \<and> ev_velocity ev \<le> 127 \<and> ev_channel ev \<le> 15"
proof -
  have "output_invar s0" using assms(2,3) by (simp add: output_invar_def)
  from reachable_output [OF assms(1) this] assms(4) show ?thesis
    by (simp add: output_invar_def wf_note_event_def)
qed

text \<open>
  C29. The only fault the running module can meet is a division by zero in a velocity curve
  other than the linear one: from a fresh initialisation, a step the kernel may trigger
  either succeeds, or divides by zero while such a curve is selected.
\<close>

theorem module_faults:
  assumes "fresh_system s0" and "reachable jit s0 s" and "enabled s e"
  shows "(\<exists>s'. system_step jit s e = Inr s') \<or>
    (system_step jit s e = Inl Division_by_zero \<and> vel_curve (sys_gpio s) \<noteq> VEL_CURVE_LINEAR)"
  using step_fault [OF reachable_debounce [OF assms(2,1)] assms(3)]
  by (cases "system_step jit s e") auto

lemma module_faults_witness:
  "\<exists>s'. system_step 1000000 touched_system (Timer_expired (0, START_BUTTON) 5 (\<lambda>_. 0)) = Inr s'"
  using module_faults [OF fresh_sample_system reachable_touched, of "Timer_expired (0, START_BUTTON) 5 (\<lambda>_. 0)"]
  by (simp add: touched_system_def)

text \<open>
  The minimum stroke time of the running module never changes from its initial value,
  although the interface has a command to calibrate it: that command sets the maximum.
\<close>

theorem min_stroke_time_constant:
  assumes "reachable jit s0 s"
  shows "stroke_time_min (sys_gpio s) = stroke_time_min (sys_gpio s0) \<and>
    (\<exists>s'. system_step jit s (Ioctl CMIDID_CALIBRATE_MIN_TIME arg) = Inr s' \<and>
       sys_gpio s' = (sys_gpio s)\<lparr>stroke_time_max := last_stroke_time (sys_gpio s)\<rparr>)"
proof -
  have "stroke_time_min (sys_gpio s) = stroke_time_min (sys_gpio s0)"
    using assms by (induction rule: reachable.induct) (simp_all add: step_stroke_time_min)
  then show ?thesis by (simp add: ioctl_min_eq)
qed

lemma min_stroke_time_constant_witness:
  "stroke_time_min (sys_gpio touched_system) = 1000"
  using min_stroke_time_constant [OF reachable_touched] by simp

text \<open>
  The transposition command: it answers the new transposition plus 128, a number from 0 to
  255, so an answer is never taken for an error; the transposition is the old one plus the
  low byte of the argument, and the command with the negated argument restores the module.
\<close>

theorem transpose_ioctl_roundtrip:
  "\<exists>midi' r. cmidid_ioctl midi st CMIDID_TRANSPOSE arg = (midi', st, r) \<and>
     transpose midi' = transpose midi + ucast arg \<and>
     0 \<le> r \<and> r \<le> 255 \<and> sint (transpose midi') = r - 128 \<and>
     fst (cmidid_ioctl midi' st CMIDID_TRANSPOSE (- arg)) = midi"
proof -
  have neg: "ucast (- arg) = - (ucast arg :: u8)"
  proof -
    have "- arg = word_of_int (- uint arg)" by simp
    then have "ucast (- arg) = (word_of_int (- uint arg) :: u8)"
      using ucast_down_wi [where 'a = 32 and 'b = 8, of "- uint arg"] by (simp add: is_down)
    also have "\<dots> = - ucast arg"
      by (simp only: ucast_eq wi_hom_neg)
    finally show ?thesis .
  qed
  show ?thesis
    using sint_ge [of "transpose midi + ucast arg"] sint_lt [of "transpose midi + ucast arg"]
    by (simp add: ioctl_transpose_eq neg)
qed

text \<open>
  Transposing while a key is held loses the note: when the key is released, the note-off
  goes to the newly transposed pitch, which differs from the pitch the note-on went to as
  long as neither leaves the range of MIDI pitches.
\<close>

theorem transpose_while_held:
  assumes "client midi > 0" and "i < num_keys st" and "key_state (keys st ! i) = KEY_PRESSED"
    and "cmidid_ioctl midi st CMIDID_TRANSPOSE arg = (midi', st, r)"
    and "(ucast arg :: u8) \<noteq> 0"
    and "key_note (keys st ! i) + transpose midi \<le> 127"
    and "key_note (keys st ! i) + transpose midi' \<le> 127"
  shows "\<exists>st' off. handle_button_event midi' now st i START_BUTTON False =
      Inr (st', [Seq_dispatch (client midi) off]) \<and> ev_type off = SNDRV_SEQ_EVENT_NOTEOFF \<and>
    ev_note off \<noteq> ev_note (config_note_event midi (key_note (keys st ! i)) v SNDRV_SEQ_EVENT_NOTEON)"
  using assms
  by (auto simp: num_keys_def handle_unfold cmidid_note_off_def dispatch_event_def ioctl_transpose_eq
      min.absorb2)


lemma output_well_formed_witness:
  "\<exists>s ev. reachable 1000000 sample_system s \<and> dispatched (calls s) = [ev] \<and> ev_note ev \<le> 127"
proof -
  let ?e = "Timer_expired (0, START_BUTTON) 5 (\<lambda>_. 0)"
  obtain s where s: "system_step 1000000 touched_system ?e = Inr s"
    and d: "dispatched (calls s) = [config_note_event sample_midi 60 127 SNDRV_SEQ_EVENT_NOTEOFF]"
    by (simp add: touched_system_def timer_irq_eq handle_unfold sample_gpio_def sample_state_def)
  have r: "reachable 1000000 sample_system s"
    by (rule reachable.step [OF reachable_touched _ s]) (simp add: touched_system_def)
  show ?thesis using output_well_formed [OF r] r d by auto
qed

lemma transpose_while_held_witness:
  "\<exists>st' off. handle_button_event (sample_midi\<lparr>transpose := 12\<rparr>) 5
      (put_key sample_gpio 0 (sample_key\<lparr>key_state := KEY_PRESSED\<rparr>)) 0 START_BUTTON False =
      Inr (st', [Seq_dispatch 128 off]) \<and> ev_type off = SNDRV_SEQ_EVENT_NOTEOFF \<and>
    ev_note off \<noteq> ev_note (config_note_event sample_midi 60 100 SNDRV_SEQ_EVENT_NOTEON)"
proof -
  let ?g = "put_key sample_gpio 0 (sample_key\<lparr>key_state := KEY_PRESSED\<rparr>)"
  have c: "cmidid_ioctl sample_midi ?g CMIDID_TRANSPOSE 12 = (sample_midi\<lparr>transpose := 12\<rparr>, ?g, 140)"
    by (simp add: ioctl_transpose_eq)
  show ?thesis using transpose_while_held [OF _ _ _ c, of 0] by (simp add: num_keys_def)
qed

end
