(* ===== verification/Gpio_Init.thy ===== *)
theory Gpio_Init
  imports Gpio_State
begin

text \<open>
  Start and end of the GPIO component: \<open>is_valid\<close>, \<open>cmidid_gpio_init\<close> and
  \<open>cmidid_gpio_exit\<close> of \<open>module/cmidid_gpio.c\<close>. The answers of the GPIO and interrupt
  layers of the kernel are the fields of \<open>gpio_env\<close>, the module parameters those of
  \<open>gpio_params\<close>; \<open>gpio_mapping_size\<close> is the length of the given part of \<open>gpio_mapping\<close>.
  The loop over the keys is a recursion on the index of the key; a step returns the error
  code (0, or negative where the source jumps to \<open>free_buttons\<close>), the state and the calls.
\<close>

section \<open>The code\<close>

record gpio_params =
  gpio_mapping :: "int list"
  start_button_active_high :: bool
  end_button_active_high :: bool
  param_stroke_time_min :: u32
  param_stroke_time_max :: u32

record gpio_env =
  kzalloc_ok :: bool
  gpio_is_valid :: "int \<Rightarrow> bool"
  gpio_to_irq :: "int \<Rightarrow> int"
  gpio_request_array :: "int \<Rightarrow> int \<Rightarrow> int"
  request_irq :: "u32 \<Rightarrow> int"

definition key_zero :: key where
  "key_zero = \<lparr>key_state = KEY_INACTIVE, gpios = (\<lambda>_. 0), irqs = (\<lambda>_. 0), hit_time = 0,
     timer_started = (\<lambda>_. False), key_note = 0, last_velocity = 0\<rparr>"

fun gpio_unused :: "key list \<Rightarrow> int \<Rightarrow> bool" where
  "gpio_unused [] gpio = True"
| "gpio_unused (k # ks) gpio =
     (if gpio = gpios k START_BUTTON then False
      else if gpio = gpios k END_BUTTON then False
      else gpio_unused ks gpio)"

definition is_valid :: "gpio_env \<Rightarrow> key list \<Rightarrow> int \<Rightarrow> bool" where
  "is_valid K ks gpio = (gpio_unused ks gpio \<and> gpio_is_valid K gpio)"

text \<open>
  The body of the loop for key \<open>i\<close> on the array of keys. An IRQ number is unsigned, so the
  source's tests for a negative one never succeed.
\<close>

definition init_key ::
    "gpio_env \<Rightarrow> int list \<Rightarrow> key list \<Rightarrow> nat \<Rightarrow> int \<times> key list \<times> kcall list" where
  "init_key K mapping ks i =
     (let k = (ks ! i)\<lparr>key_state := KEY_INACTIVE, last_velocity := 0\<rparr>;
          ks = ks[i := k];
          g0 = mapping ! (3 * i + 0)
      in if \<not> is_valid K ks g0 then (- EINVAL, ks, [])
         else
      let k = k\<lparr>gpios := (gpios k)(START_BUTTON := g0)\<rparr>;
          ks = ks[i := k];
          g1 = mapping ! (3 * i + 1)
      in if \<not> is_valid K ks g1 then (- EINVAL, ks, [])
         else
      let k = k\<lparr>gpios := (gpios k)(END_BUTTON := g1), key_note := word_of_int (mapping ! (3 * i + 2))\<rparr>;
          ks = ks[i := k];
          err = gpio_request_array K g0 g1;
          cs = [Gpio_request_array g0 g1]
      in if err < 0 then (err, ks, cs)
         else
      let irq0 = word_of_int (gpio_to_irq K g0) :: u32
      in if uint irq0 < 0 then (sint irq0, ks, cs)
         else
      let k = k\<lparr>irqs := (irqs k)(START_BUTTON := irq0),
                timer_started := (\<lambda>_. False)\<rparr>;
          ks = ks[i := k];
          cs = cs @ [Hrtimer_init (i, START_BUTTON), Hrtimer_init (i, END_BUTTON)];
          irq1 = word_of_int (gpio_to_irq K g1) :: u32
      in if uint irq1 < 0 then (sint irq1, ks, cs)
         else
      let k = k\<lparr>irqs := (irqs k)(END_BUTTON := irq1)\<rparr>;
          ks = ks[i := k];
          cs = cs @ [Request_irq irq0]
      in if request_irq K irq0 < 0 then (- EINVAL, ks, cs)
         else
      let cs = cs @ [Request_irq irq1]
      in if request_irq K irq1 < 0 then (- EINVAL, ks, cs)
         else (0, ks, cs))"

text \<open>The cleanup loop \<open>for (--i; i > 0; --i)\<close>, entered with the given value of \<open>i\<close> after \<open>--i\<close>.\<close>

fun free_buttons_loop :: "key list \<Rightarrow> nat \<Rightarrow> kcall list" where
  "free_buttons_loop ks 0 = []"
| "free_buttons_loop ks (Suc i) =
     [Gpio_free_array (gpios (ks ! Suc i) START_BUTTON) (gpios (ks ! Suc i) END_BUTTON),
      Hrtimer_cancel (Suc i, END_BUTTON), Hrtimer_cancel (Suc i, START_BUTTON)]
     @ free_buttons_loop ks i"

definition free_buttons :: "key list \<Rightarrow> nat \<Rightarrow> kcall list" where
  "free_buttons ks i = free_buttons_loop ks (i - 1) @ [Kfree_keys]"

lemma init_key_length: "init_key K mapping ks i = (err, ks', cs) \<Longrightarrow> length ks' = length ks"
  by (auto simp: init_key_def Let_def split: if_splits)

function init_keys ::
    "gpio_env \<Rightarrow> int list \<Rightarrow> key list \<Rightarrow> nat \<Rightarrow> int \<times> key list \<times> kcall list" where
  "init_keys K mapping ks i =
     (if i < length ks then
        (let (err, ks', cs) = init_key K mapping ks i
         in if err < 0 then (err, ks', cs @ free_buttons ks' i)
            else (let (err', ks'', cs') = init_keys K mapping ks' (Suc i)
                  in (err', ks'', cs @ cs')))
      else (0, ks, []))"
  by pat_completeness auto

termination
  by (relation "measure (\<lambda>(K, mapping, ks, i). length ks - i)") (auto dest: init_key_length [OF sym])

declare init_keys.simps [simp del]

text \<open>
  The number of keys is the length of their list. In the one branch where the source sets the number without the keys, when
  there is no memory for them, the load fails and nothing reads it any more.
\<close>

definition cmidid_gpio_init ::
    "gpio_env \<Rightarrow> gpio_params \<Rightarrow> cmidid_gpio_state \<Rightarrow> int \<times> cmidid_gpio_state \<times> kcall list" where
  "cmidid_gpio_init K p st =
     (let gpio_mapping_size = int (length (gpio_mapping p)) in
      if gpio_mapping_size \<le> 0 then (- EINVAL, st, [])
      else if gpio_mapping_size mod 3 \<noteq> 0 then (- EINVAL, st, [])
      else
        let n = nat (gpio_mapping_size div 3) in
        if \<not> kzalloc_ok K then (- ENOMEM, st\<lparr>keys := []\<rparr>, [Kzalloc_keys n])
        else
          let st = st\<lparr>keys := replicate n key_zero, last_stroke_time := 100000,
                      stroke_time_min := param_stroke_time_min p,
                      stroke_time_max := param_stroke_time_max p,
                      vel_curve := VEL_CURVE_LINEAR,
                      button_active_high := (button_active_high st)
                        (START_BUTTON := start_button_active_high p,
                         END_BUTTON := end_button_active_high p)\<rparr>;
              (err, ks, cs) = init_keys K (gpio_mapping p) (keys st) 0
          in (err, st\<lparr>keys := ks\<rparr>, Kzalloc_keys n # cs))"

definition key_release :: "key list \<Rightarrow> nat \<Rightarrow> kcall list" where
  "key_release ks i =
     [Free_irq (irqs (ks ! i) START_BUTTON), Free_irq (irqs (ks ! i) END_BUTTON),
      Gpio_free_array (gpios (ks ! i) START_BUTTON) (gpios (ks ! i) END_BUTTON),
      Hrtimer_cancel (i, END_BUTTON), Hrtimer_cancel (i, START_BUTTON)]"

definition cmidid_gpio_exit :: "cmidid_gpio_state \<Rightarrow> kcall list" where
  "cmidid_gpio_exit st = concat (map (key_release (keys st)) [0..<num_keys st]) @ [Kfree_keys]"

section \<open>One key\<close>

text \<open>The GPIOs of an array of keys, and the key and the calls a successful step produces.\<close>

definition used_gpios :: "key list \<Rightarrow> int list" where
  "used_gpios ks = concat (map (\<lambda>k. [gpios k START_BUTTON, gpios k END_BUTTON]) ks)"

lemma used_gpios_simps [simp]:
  "used_gpios [] = []"
  "used_gpios (k # ks) = gpios k START_BUTTON # gpios k END_BUTTON # used_gpios ks"
  "used_gpios (ks @ ks') = used_gpios ks @ used_gpios ks'"
  by (simp_all add: used_gpios_def)

lemma used_gpios_mem: "k \<in> set ks \<Longrightarrow> gpios k b \<in> set (used_gpios ks)"
  by (cases b) (auto simp: used_gpios_def)

lemma gpio_unused_iff [simp]: "gpio_unused ks g \<longleftrightarrow> g \<notin> set (used_gpios ks)"
  by (induction ks) auto

definition key_conf :: "gpio_env \<Rightarrow> int list \<Rightarrow> nat \<Rightarrow> key" where
  "key_conf K m i =
     \<lparr>key_state = KEY_INACTIVE,
      gpios = (\<lambda>_. 0)(START_BUTTON := m ! (3 * i), END_BUTTON := m ! (3 * i + 1)),
      irqs = (\<lambda>_. 0)(START_BUTTON := word_of_int (gpio_to_irq K (m ! (3 * i))),
                     END_BUTTON := word_of_int (gpio_to_irq K (m ! (3 * i + 1)))),
      hit_time = 0, timer_started = (\<lambda>_. False),
      key_note = word_of_int (m ! (3 * i + 2)), last_velocity = 0\<rparr>"

definition key_acquire :: "gpio_env \<Rightarrow> int list \<Rightarrow> nat \<Rightarrow> kcall list" where
  "key_acquire K m i =
     [Gpio_request_array (m ! (3 * i)) (m ! (3 * i + 1)),
      Hrtimer_init (i, START_BUTTON), Hrtimer_init (i, END_BUTTON),
      Request_irq (word_of_int (gpio_to_irq K (m ! (3 * i)))),
      Request_irq (word_of_int (gpio_to_irq K (m ! (3 * i + 1))))]"

lemma init_key_success:
  assumes "init_key K m (ps @ key_zero # zs) (length ps) = (err, ks', cs)" and "\<not> err < 0"
  defines "g0 \<equiv> m ! (3 * length ps)" and "g1 \<equiv> m ! (3 * length ps + 1)"
  shows "ks' = ps @ key_conf K m (length ps) # zs" and "cs = key_acquire K m (length ps)"
    and "g0 \<notin> insert 0 (set (used_gpios ps))" and "g1 \<notin> insert g0 (insert 0 (set (used_gpios ps)))"
    and "gpio_is_valid K g0" and "gpio_is_valid K g1"
  using assms(1,2) unfolding g0_def g1_def
  by (auto simp: init_key_def key_zero_def key_conf_def key_acquire_def is_valid_def Let_def EINVAL_def
      nth_append list_update_append fun_upd_twist split: if_splits)

lemma init_key_failure:
  assumes "init_key K m ks i = (err, ks', cs)" and "err < 0"
  shows "j \<noteq> i \<Longrightarrow> ks' ! j = ks ! j" and "Free_irq n \<notin> set cs" and "Gpio_free_array g g' \<notin> set cs"
  using assms by (auto simp: init_key_def Let_def split: if_splits)

section \<open>The loop over the keys\<close>

text \<open>
  From an array whose first keys are configured, the loop either configures all others or
  stops at the first key that fails and runs the cleanup.
\<close>

definition gpios_good :: "gpio_env \<Rightarrow> key list \<Rightarrow> bool" where
  "gpios_good K ks \<longleftrightarrow> distinct (0 # used_gpios ks) \<and> (\<forall>g \<in> set (used_gpios ks). gpio_is_valid K g)"

lemma init_key_good:
  assumes "init_key K m (ps @ key_zero # zs) (length ps) = (err, ks', cs)" and "\<not> err < 0"
    and "gpios_good K ps"
  shows "gpios_good K (ps @ [key_conf K m (length ps)])"
  using assms(3) init_key_success(3-6) [OF assms(1,2)]
  by (auto simp: gpios_good_def key_conf_def)

lemma init_keys_result:
  assumes "init_keys K m (ps @ replicate r key_zero) (length ps) = (err, ks', cs)"
    and "gpios_good K ps"
  shows "(err = 0 \<and> gpios_good K ks' \<and> ks' = ps @ map (key_conf K m) [length ps..<length ps + r] \<and>
          cs = concat (map (key_acquire K m) [length ps..<length ps + r])) \<or>
         (err < 0 \<and> (\<exists>i ks cs'. i < r \<and>
            gpios_good K (ps @ map (key_conf K m) [length ps..<length ps + i]) \<and>
            ks = ps @ map (key_conf K m) [length ps..<length ps + i] @ replicate (r - i) key_zero \<and>
            init_key K m ks (length ps + i) = (err, ks', cs') \<and>
            cs = concat (map (key_acquire K m) [length ps..<length ps + i]) @ cs'
                 @ free_buttons ks' (length ps + i)))"
  using assms
proof (induction r arbitrary: ps cs)
  case 0
  then show ?case by (simp add: init_keys.simps)
next
  case (Suc r)
  let ?l = "length ps"
  obtain e ks1 cs1 where k: "init_key K m (ps @ key_zero # replicate r key_zero) ?l = (e, ks1, cs1)"
    by (metis prod_cases3)
  show ?case
  proof (cases "e < 0")
    case True
    with Suc.prems(1) k have "err = e" "ks' = ks1" "cs = cs1 @ free_buttons ks1 ?l"
      by (subst (asm) init_keys.simps; simp)+
    with True k Suc.prems(2) show ?thesis by (intro disjI2 conjI exI [of _ 0]) simp_all
  next
    case False
    note s = init_key_success(1,2) [OF k False]
    note good = init_key_good [OF k False Suc.prems(2)]
    obtain cs2 where rec: "init_keys K m ((ps @ [key_conf K m ?l]) @ replicate r key_zero)
        (length (ps @ [key_conf K m ?l])) = (err, ks', cs2)" and cs: "cs = cs1 @ cs2"
      using Suc.prems(1) k False s(1)
      by (subst (asm) init_keys.simps) (auto split: prod.splits)
    show ?thesis
    proof (rule disjE [OF Suc.IH [OF rec good]], goal_cases)
      case 1
      with s cs show ?case by (auto simp: upt_add_Suc simp del: upt_Suc)
    next
      case 2
      then obtain i cs' where i: "i < r" "err < 0"
        "gpios_good K (ps @ key_conf K m ?l # map (key_conf K m) [Suc ?l..<Suc ?l + i])"
        "init_key K m (ps @ key_conf K m ?l # map (key_conf K m) [Suc ?l..<Suc ?l + i]
            @ replicate (r - i) key_zero) (Suc ?l + i) = (err, ks', cs')"
        "cs2 = concat (map (key_acquire K m) [Suc ?l..<Suc ?l + i]) @ cs' @ free_buttons ks' (Suc ?l + i)"
        by auto
      with s cs show ?case
        by (intro disjI2 conjI exI [of _ "Suc i"]) (simp_all add: upt_add_Suc del: upt_Suc)
    qed
  qed
qed

section \<open>The whole initialisation\<close>

lemma gpios_good_Nil [simp]: "gpios_good K []"
  by (simp add: gpios_good_def)

lemmas init_keys_from_start = init_keys_result [where ps = "[] :: key list", simplified]

text \<open>The keys of a successful initialisation, in terms of the mapping alone.\<close>

lemma gpio_init_success:
  assumes "cmidid_gpio_init K p st = (err, st', cs)" and "\<not> err < 0"
  defines "n \<equiv> length (gpio_mapping p) div 3"
  shows "err = 0" and "0 < n" and "length (gpio_mapping p) = 3 * n"
    and "keys st' = map (key_conf K (gpio_mapping p)) [0..<n]"
    and "gpios_good K (keys st')"
    and "cs = Kzalloc_keys n # concat (map (key_acquire K (gpio_mapping p)) [0..<n])"
    and "vel_curve st' = VEL_CURVE_LINEAR"
    and "stroke_time_min st' = param_stroke_time_min p"
    and "stroke_time_max st' = param_stroke_time_max p"
    and "button_active_high st' START_BUTTON = start_button_active_high p"
    and "button_active_high st' END_BUTTON = end_button_active_high p"
proof -
  have dvd: "3 dvd int x \<longleftrightarrow> x mod 3 = 0" for x :: nat by presburger
  have len: "gpio_mapping p \<noteq> []" "length (gpio_mapping p) mod 3 = 0" "kzalloc_ok K"
    using assms(1,2) by (auto simp: cmidid_gpio_init_def Let_def errno_defs dvd split: if_splits)
  then have "3 \<le> length (gpio_mapping p)" by (intro dvd_imp_le) auto
  with len show "0 < n" and "length (gpio_mapping p) = 3 * n"
    by (auto simp: n_def div_greater_zero_iff)
  obtain ks cs' where i: "init_keys K (gpio_mapping p) (replicate n key_zero) 0 = (err, ks, cs')"
    and st': "keys st' = ks"
    and cs: "cs = Kzalloc_keys n # cs'"
    using assms(1,2) len
    by (auto simp: cmidid_gpio_init_def Let_def n_def errno_defs nat_div_distrib
        split: if_splits prod.splits)
  from init_keys_from_start [OF i] assms(2)
  show "err = 0" "keys st' = map (key_conf K (gpio_mapping p)) [0..<n]" "gpios_good K (keys st')"
    "cs = Kzalloc_keys n # concat (map (key_acquire K (gpio_mapping p)) [0..<n])"
    by (auto simp: st' cs)
qed (use assms in \<open>auto simp: cmidid_gpio_init_def Let_def errno_defs split: if_splits prod.splits\<close>)

section \<open>Balance of the resources\<close>

fun requested_gpios :: "kcall list \<Rightarrow> (int \<times> int) list" where
  "requested_gpios [] = []"
| "requested_gpios (Gpio_request_array g g' # cs) = (g, g') # requested_gpios cs"
| "requested_gpios (_ # cs) = requested_gpios cs"

fun freed_gpios :: "kcall list \<Rightarrow> (int \<times> int) list" where
  "freed_gpios [] = []"
| "freed_gpios (Gpio_free_array g g' # cs) = (g, g') # freed_gpios cs"
| "freed_gpios (_ # cs) = freed_gpios cs"

fun requested_irqs :: "kcall list \<Rightarrow> u32 list" where
  "requested_irqs [] = []"
| "requested_irqs (Request_irq n # cs) = n # requested_irqs cs"
| "requested_irqs (_ # cs) = requested_irqs cs"

fun freed_irqs :: "kcall list \<Rightarrow> u32 list" where
  "freed_irqs [] = []"
| "freed_irqs (Free_irq n # cs) = n # freed_irqs cs"
| "freed_irqs (_ # cs) = freed_irqs cs"

lemma resources_append [simp]:
  "requested_gpios (xs @ ys) = requested_gpios xs @ requested_gpios ys"
  "freed_gpios (xs @ ys) = freed_gpios xs @ freed_gpios ys"
  "requested_irqs (xs @ ys) = requested_irqs xs @ requested_irqs ys"
  "freed_irqs (xs @ ys) = freed_irqs xs @ freed_irqs ys"
  by (induction xs rule: requested_gpios.induct) simp_all

lemma acquire_release_balance:
  "requested_gpios (key_acquire K m i) = [(m ! (3 * i), m ! (3 * i + 1))]"
  "map (key_conf K m) [0..<n] = ks \<Longrightarrow> i < n \<Longrightarrow>
     freed_gpios (key_release ks i) = requested_gpios (key_acquire K m i)"
  "map (key_conf K m) [0..<n] = ks \<Longrightarrow> i < n \<Longrightarrow>
     freed_irqs (key_release ks i) = requested_irqs (key_acquire K m i)"
  by (auto simp: key_acquire_def key_release_def key_conf_def)

lemma free_buttons_loop_calls:
  "c \<in> set (free_buttons_loop ks i) \<longleftrightarrow>
     (\<exists>j. 0 < j \<and> j \<le> i \<and> c \<in> {Gpio_free_array (gpios (ks ! j) START_BUTTON) (gpios (ks ! j) END_BUTTON),
        Hrtimer_cancel (j, END_BUTTON), Hrtimer_cancel (j, START_BUTTON)})"
  by (induction i) (auto simp: le_Suc_eq)

lemma init_release_balance:
  assumes "ks = map (key_conf K m) [0..<n]"
  shows "freed_gpios (concat (map (key_release ks) [0..<n])) =
           requested_gpios (concat (map (key_acquire K m) [0..<n]))"
    and "freed_irqs (concat (map (key_release ks) [0..<n])) =
           requested_irqs (concat (map (key_acquire K m) [0..<n]))"
proof -
  have *: "freed_gpios (concat (map (key_release ks) is)) = requested_gpios (concat (map (key_acquire K m) is))"
    "freed_irqs (concat (map (key_release ks) is)) = requested_irqs (concat (map (key_acquire K m) is))"
    if "set is \<subseteq> {0..<n}" for "is"
    using that acquire_release_balance(2,3) [OF assms [symmetric]] by (induction "is") simp_all
  show "freed_gpios (concat (map (key_release ks) [0..<n])) =
           requested_gpios (concat (map (key_acquire K m) [0..<n]))"
    and "freed_irqs (concat (map (key_release ks) [0..<n])) =
           requested_irqs (concat (map (key_acquire K m) [0..<n]))"
    by (rule *; simp)+
qed

lemma key_acquire_frees_nothing [simp]:
  "Free_irq n \<notin> set (key_acquire K m i)" "Gpio_free_array g g' \<notin> set (key_acquire K m i)"
  by (simp_all add: key_acquire_def)

lemma free_buttons_calls:
  "Free_irq n \<notin> set (free_buttons ks i)" "Kfree_keys \<in> set (free_buttons ks i)"
  "Gpio_free_array g g' \<in> set (free_buttons ks i) \<Longrightarrow>
     \<exists>j. 0 < j \<and> j < i \<and> gpios (ks ! j) START_BUTTON = g"
  by (auto simp: free_buttons_def free_buttons_loop_calls)

lemma gpio_init_exit_balance:
  assumes "cmidid_gpio_init K p st = (err, st', cs)" and "\<not> err < 0"
  shows "freed_gpios (cmidid_gpio_exit st') = requested_gpios cs"
    and "freed_irqs (cmidid_gpio_exit st') = requested_irqs cs"
  using gpio_init_success(4,6) [OF assms]
    init_release_balance [of "keys st'" K "gpio_mapping p" "num_keys st'"]
  by (simp_all add: cmidid_gpio_exit_def num_keys_def)

text \<open>Of every resource: what an initialisation took the exit gives back.\<close>

lemma acquire_release_kheld:
  assumes "ks = map (key_conf K m) [0..<n]" and "i < n"
  shows "kheld r (key_acquire K m i) + kheld r (key_release ks i) = 0"
  using assms by (simp add: key_acquire_def key_release_def key_conf_def)

lemma gpio_init_exit_kheld:
  assumes "cmidid_gpio_init K p st = (err, st', cs)" and "\<not> err < 0"
  shows "kheld r (cs @ cmidid_gpio_exit st') = 0"
proof -
  let ?m = "gpio_mapping p" and ?n = "length (gpio_mapping p) div 3"
  note ks = gpio_init_success(4) [OF assms]
  have "kheld r (concat (map (key_acquire K ?m) is)) + kheld r (concat (map (key_release (keys st')) is)) = 0"
    if "set is \<subseteq> {0..<?n}" for "is"
    using that
  proof (induction "is")
    case (Cons i "is")
    then have "kheld r (key_acquire K ?m i) + kheld r (key_release (keys st') i) = 0"
      using acquire_release_kheld [OF ks, of i r] by simp
    with Cons show ?case by simp
  qed simp
  from this [of "[0..<?n]"] gpio_init_success(6) [OF assms] ks show ?thesis
    by (simp add: cmidid_gpio_exit_def num_keys_def)
qed

text \<open>What a failing initialisation looks like: some keys configured, then the cleanup.\<close>

lemma gpio_init_failure:
  assumes "cmidid_gpio_init K p st = (err, st', cs)" and "err < 0"
    and "Gpio_request_array g g' \<in> set cs"
  obtains i ks ks' cs' where "gpios_good K (map (key_conf K (gpio_mapping p)) [0..<i])"
    and "ks = map (key_conf K (gpio_mapping p)) [0..<i] @ replicate (length (gpio_mapping p) div 3 - i) key_zero"
    and "init_key K (gpio_mapping p) ks i = (err, ks', cs')"
    and "cs = Kzalloc_keys (length (gpio_mapping p) div 3) #
           concat (map (key_acquire K (gpio_mapping p)) [0..<i]) @ cs' @ free_buttons ks' i"
proof -
  let ?n = "length (gpio_mapping p) div 3"
  have ok: "gpio_mapping p \<noteq> []" "kzalloc_ok K"
    using assms(1,3) by (auto simp: cmidid_gpio_init_def Let_def split: if_splits)
  obtain ks cs1 where k: "init_keys K (gpio_mapping p) (replicate ?n key_zero) 0 = (err, ks, cs1)"
    and cs: "cs = Kzalloc_keys ?n # cs1"
    using assms(1,3) ok
    by (auto simp: cmidid_gpio_init_def Let_def errno_defs nat_div_distrib split: if_splits prod.splits)
  from init_keys_from_start [OF k] assms(2) obtain i ks1 cs' where
    "gpios_good K (map (key_conf K (gpio_mapping p)) [0..<i])"
    "ks1 = map (key_conf K (gpio_mapping p)) [0..<i] @ replicate (?n - i) key_zero"
    "init_key K (gpio_mapping p) ks1 i = (err, ks, cs')"
    "cs1 = concat (map (key_acquire K (gpio_mapping p)) [0..<i]) @ cs' @ free_buttons ks i"
    by auto
  then show thesis using that cs by blast
qed

lemma gpios_good_first:
  assumes "gpios_good K (map (key_conf K m) [0..<i])" and "0 < j" and "j < i"
  shows "m ! (3 * j) \<noteq> m ! 0"
proof -
  have i: "[0..<i] = 0 # [1..<i]" and "j \<in> set [1..<i]"
    using assms(2,3) by (auto simp: upt_conv_Cons)
  then have "gpios (key_conf K m j) START_BUTTON \<in> set (used_gpios (map (key_conf K m) [1..<i]))"
    by (intro used_gpios_mem) simp
  moreover have "gpios (key_conf K m 0) START_BUTTON \<notin> set (used_gpios (map (key_conf K m) [1..<i]))"
    using assms(1) unfolding gpios_good_def i by simp
  ultimately have "gpios (key_conf K m j) START_BUTTON \<noteq> gpios (key_conf K m 0) START_BUTTON"
    by metis
  then show ?thesis by (simp add: key_conf_def)
qed

section \<open>Properties\<close>

text \<open>A mapping of two keys, and a kernel that grants everything, for the witnesses.\<close>

definition sample_env :: gpio_env where
  "sample_env = \<lparr>kzalloc_ok = True, gpio_is_valid = (\<lambda>g. 0 \<le> g \<and> g < 54),
     gpio_to_irq = (\<lambda>g. g + 100), gpio_request_array = (\<lambda>_ _. 0), request_irq = (\<lambda>_. 0)\<rparr>"

definition sample_params :: gpio_params where
  "sample_params = \<lparr>gpio_mapping = [17, 4, 60, 22, 27, 62], start_button_active_high = True,
     end_button_active_high = False, param_stroke_time_min = 1000, param_stroke_time_max = 1000000\<rparr>"

definition zero_gpio_state :: cmidid_gpio_state where
  "zero_gpio_state = \<lparr>keys = [], button_active_high = (\<lambda>_. False), last_stroke_time = 0,
     stroke_time_min = 0, stroke_time_max = 0, vel_curve = VEL_CURVE_LINEAR\<rparr>"

lemmas sample_init_defs =
  cmidid_gpio_init_def init_keys.simps init_key_def is_valid_def sample_env_def sample_params_def
  zero_gpio_state_def key_zero_def free_buttons_def Let_def EINVAL_def numeral_2_eq_2

text \<open>
  C22. A successful \<open>cmidid_gpio_init\<close> builds one key per triple of the mapping, with the GPIOs,
  the IRQs and the note of the triple, inactive and with no timer flag set; all GPIO numbers
  it accepted are valid, pairwise different and different from 0 (a key array fresh from
  \<open>kzalloc\<close> already holds the number 0, so GPIO 0 always counts as used).
\<close>

theorem gpio_init_establishes:
  assumes "cmidid_gpio_init K p st = (err, st', cs)" and "\<not> err < 0"
  defines "m \<equiv> gpio_mapping p"
  shows "err = 0 \<and> length m = 3 * num_keys st' \<and>
    (\<forall>i < num_keys st'. let k = keys st' ! i in
       key_state k = KEY_INACTIVE \<and> (\<forall>b. \<not> timer_started k b) \<and>
       gpios k START_BUTTON = m ! (3 * i) \<and> gpios k END_BUTTON = m ! (3 * i + 1) \<and>
       irqs k START_BUTTON = word_of_int (gpio_to_irq K (m ! (3 * i))) \<and>
       irqs k END_BUTTON = word_of_int (gpio_to_irq K (m ! (3 * i + 1))) \<and>
       key_note k = word_of_int (m ! (3 * i + 2))) \<and>
    distinct (0 # used_gpios (keys st')) \<and> (\<forall>g \<in> set (used_gpios (keys st')). gpio_is_valid K g)"
  using gpio_init_success [OF assms(1,2)]
  by (simp add: m_def num_keys_def gpios_good_def key_conf_def)

lemma gpio_init_establishes_witness:
  "\<exists>st' cs. cmidid_gpio_init sample_env sample_params zero_gpio_state = (0, st', cs) \<and>
     6 = 3 * num_keys st' \<and> distinct (0 # used_gpios (keys st'))"
proof -
  obtain st' cs where i: "cmidid_gpio_init sample_env sample_params zero_gpio_state = (0, st', cs)"
    by (simp add: sample_init_defs)
  from gpio_init_establishes [OF i] i show ?thesis
    by (auto simp: sample_params_def)
qed

text \<open>
  \<open>cmidid_gpio_exit\<close> gives back exactly what a successful \<open>cmidid_gpio_init\<close> took: the pairs
  of GPIOs and the interrupt lines, in the order they were requested, and the key array.
\<close>

theorem gpio_exit_releases_init:
  assumes "cmidid_gpio_init K p st = (err, st', cs)" and "\<not> err < 0"
  shows "freed_gpios (cmidid_gpio_exit st') = requested_gpios cs \<and>
    freed_irqs (cmidid_gpio_exit st') = requested_irqs cs \<and>
    Kzalloc_keys (num_keys st') \<in> set cs \<and> Kfree_keys \<in> set (cmidid_gpio_exit st')"
  using gpio_init_success(4,6) [OF assms] gpio_init_exit_balance [OF assms]
  by (simp add: cmidid_gpio_exit_def num_keys_def)

lemma gpio_exit_releases_init_witness:
  "\<exists>st' cs. cmidid_gpio_init sample_env sample_params zero_gpio_state = (0, st', cs) \<and>
     freed_gpios (cmidid_gpio_exit st') = [(17, 4), (22, 27)] \<and> requested_gpios cs = [(17, 4), (22, 27)]"
proof -
  obtain st' cs where i: "cmidid_gpio_init sample_env sample_params zero_gpio_state = (0, st', cs)"
    and r: "requested_gpios cs = [(17, 4), (22, 27)]"
    by (simp add: sample_init_defs)
  from gpio_exit_releases_init [OF i] i r show ?thesis by auto
qed

text \<open>
  A failing \<open>cmidid_gpio_init\<close> does not undo what it did: it frees the key array while every
  interrupt handler it registered stays registered, and the GPIOs of the first key stay
  requested, because the cleanup frees no interrupt and stops before index 0.
\<close>

theorem gpio_init_failure_leaks:
  assumes "cmidid_gpio_init K p st = (err, st', cs)" and "err < 0"
    and "Gpio_request_array (gpio_mapping p ! 0) (gpio_mapping p ! 1) \<in> set cs"
  shows "Kfree_keys \<in> set cs \<and> (\<forall>n. Free_irq n \<notin> set cs) \<and>
    Gpio_free_array (gpio_mapping p ! 0) (gpio_mapping p ! 1) \<notin> set cs"
proof -
  let ?m = "gpio_mapping p"
  obtain i ks ks' cs' where good: "gpios_good K (map (key_conf K ?m) [0..<i])"
    and ks: "ks = map (key_conf K ?m) [0..<i] @ replicate (length ?m div 3 - i) key_zero"
    and k: "init_key K ?m ks i = (err, ks', cs')"
    and cs: "cs = Kzalloc_keys (length ?m div 3) #
           concat (map (key_acquire K ?m) [0..<i]) @ cs' @ free_buttons ks' i"
    using gpio_init_failure [OF assms] by blast
  have freed: "gpios (ks' ! j) START_BUTTON \<noteq> ?m ! 0" if "0 < j" "j < i" for j
    using that init_key_failure(1) [OF k assms(2), of j] gpios_good_first [OF good, of j]
    by (simp add: ks nth_append key_conf_def)
  then have "Gpio_free_array (?m ! 0) (?m ! 1) \<notin> set (free_buttons ks' i)"
    using free_buttons_calls(3) by blast
  with init_key_failure(2,3) [OF k assms(2)] free_buttons_calls(1,2) show ?thesis
    by (simp add: cs)
qed

lemma gpio_init_failure_leaks_witness:
  "\<exists>err st' cs. err < 0 \<and>
     cmidid_gpio_init (sample_env\<lparr>gpio_is_valid := (\<lambda>g. g = 17 \<or> g = 4)\<rparr>) sample_params zero_gpio_state
       = (err, st', cs) \<and>
     requested_irqs cs = [117, 104] \<and> Kfree_keys \<in> set cs \<and> (\<forall>n. Free_irq n \<notin> set cs)"
proof -
  let ?K = "sample_env\<lparr>gpio_is_valid := (\<lambda>g. g = 17 \<or> g = 4)\<rparr>"
  obtain err st' cs where i: "cmidid_gpio_init ?K sample_params zero_gpio_state = (err, st', cs)"
    and e: "err < 0" and r: "requested_irqs cs = [117, 104]"
    and g: "Gpio_request_array (gpio_mapping sample_params ! 0) (gpio_mapping sample_params ! 1) \<in> set cs"
    by (simp add: sample_init_defs)
  from gpio_init_failure_leaks [OF i e g] i e r show ?thesis by blast
qed

end
