(* ===== verification/Cmidid_Main.thy ===== *)
theory Cmidid_Main
  imports Cmidid_System Gpio_Init
begin

text \<open>
  Loading and unloading of the CMIDID module: \<open>cmidid_init\<close> and \<open>cmidid_exit\<close> of
  \<open>module/cmidid_main.c\<close>, over the initialisations of its two components. The kernel's
  answers are the fields of \<open>chrdev_env\<close>, \<open>alsa_env\<close> and \<open>gpio_env\<close>; the results of
  \<open>class_create\<close> and \<open>device_create\<close> are not looked at by the source. The lemmas connect a
  successful load with the running module of \<open>Cmidid_System\<close> and count the resources that
  loading and unloading take and give back.
\<close>

section \<open>The code\<close>

record chrdev_env =
  alloc_chrdev_region :: int
  cdev_alloc_ok :: bool
  cdev_add :: int

text \<open>The cleanup labels of \<open>cmidid_init\<close>, each falling through to the next.\<close>

definition free_device_number :: "kcall list" where
  "free_device_number = [Unregister_chrdev_region]"

definition free_cdev :: "kcall list" where
  "free_cdev = Kobject_put # free_device_number"

definition err_midi_init :: "kcall list" where
  "err_midi_init = [Device_destroy, Class_destroy, Cdev_del] @ free_cdev"

definition err_gpio_init :: "cmidid_midi_state \<Rightarrow> kcall list" where
  "err_gpio_init midi = cmidid_midi_exit midi @ err_midi_init"

definition cmidid_init ::
    "chrdev_env \<Rightarrow> alsa_env \<Rightarrow> u8 \<Rightarrow> gpio_env \<Rightarrow> gpio_params \<Rightarrow>
     cmidid_midi_state \<Rightarrow> cmidid_gpio_state \<Rightarrow>
     int \<times> cmidid_midi_state \<times> cmidid_gpio_state \<times> kcall list" where
  "cmidid_init C A chan G p midi gpio =
     (if alloc_chrdev_region C < 0 then (- EIO, midi, gpio, [Alloc_chrdev_region])
      else
      let cs = [Alloc_chrdev_region, Cdev_alloc]
      in if \<not> cdev_alloc_ok C then (- EIO, midi, gpio, cs @ free_device_number)
      else
      let cs = cs @ [Cdev_add]
      in if cdev_add C \<noteq> 0 then (- EIO, midi, gpio, cs @ free_cdev)
      else
      let cs = cs @ [Class_create, Device_create];
          (err, midi, mcs) = cmidid_midi_init A chan midi;
          cs = cs @ mcs
      in if err < 0 then (err, midi, gpio, cs @ err_midi_init)
      else
      let (err, gpio, gcs) = cmidid_gpio_init G p gpio;
          cs = cs @ gcs
      in if err < 0 then (err, midi, gpio, cs @ err_gpio_init midi)
      else (0, midi, gpio, cs))"

definition cmidid_exit :: "cmidid_midi_state \<Rightarrow> cmidid_gpio_state \<Rightarrow> kcall list" where
  "cmidid_exit midi gpio =
     cmidid_gpio_exit gpio @ cmidid_midi_exit midi @
     [Device_destroy, Class_destroy, Cdev_del, Unregister_chrdev_region]"

section \<open>Counting resources\<close>

text \<open>The GPIO component touches its own resources only.\<close>

definition gpio_call :: "kcall \<Rightarrow> bool" where
  "gpio_call c = (case c of
     Kzalloc_keys n \<Rightarrow> True | Kfree_keys \<Rightarrow> True | Gpio_request_array a b \<Rightarrow> True
   | Gpio_free_array a b \<Rightarrow> True | Hrtimer_init t \<Rightarrow> True | Hrtimer_cancel t \<Rightarrow> True
   | Request_irq n \<Rightarrow> True | Free_irq n \<Rightarrow> True | _ \<Rightarrow> False)"

definition foreign :: "kresource \<Rightarrow> bool" where
  "foreign r \<longleftrightarrow> r \<in> {K_region, K_cdev, K_class, K_device, K_card, K_client}"

lemma gpio_calls_foreign: "list_all gpio_call cs \<Longrightarrow> foreign r \<Longrightarrow> kheld r cs = 0"
proof (induction cs)
  case (Cons c cs)
  then show ?case by (cases c) (auto simp: gpio_call_def foreign_def)
qed simp

lemma free_buttons_gpio_calls: "list_all gpio_call (free_buttons ks i)"
proof -
  have "list_all gpio_call (free_buttons_loop ks j)" for j
    by (induction j) (simp_all add: gpio_call_def)
  then show ?thesis by (simp add: free_buttons_def gpio_call_def)
qed

lemma init_key_gpio_calls: "init_key K m ks i = (err, ks', cs) \<Longrightarrow> list_all gpio_call cs"
  by (auto simp: init_key_def Let_def gpio_call_def split: if_splits)

lemma init_keys_gpio_calls: "init_keys K m ks i = (err, ks', cs) \<Longrightarrow> list_all gpio_call cs"
proof (induction K m ks i arbitrary: err ks' cs rule: init_keys.induct)
  case (1 K m ks i)
  then show ?case
    by (subst (asm) (2) init_keys.simps)
       (auto simp: free_buttons_gpio_calls dest: init_key_gpio_calls split: if_splits prod.splits)
qed

lemma gpio_init_calls: "cmidid_gpio_init K p st = (err, st', cs) \<Longrightarrow> list_all gpio_call cs"
  by (auto simp: cmidid_gpio_init_def Let_def gpio_call_def dest: init_keys_gpio_calls
      split: if_splits prod.splits)

lemma gpio_exit_calls: "list_all gpio_call (cmidid_gpio_exit st)"
  by (simp add: cmidid_gpio_exit_def list_all_iff key_release_def gpio_call_def)

lemmas gpio_foreign [simp] =
  gpio_calls_foreign [OF gpio_init_calls] gpio_calls_foreign [OF gpio_exit_calls]

section \<open>Loading\<close>

lemma foreign_simps [simp]:
  "foreign K_region" "foreign K_cdev" "foreign K_class" "foreign K_device" "foreign K_card" "foreign K_client"
  by (simp_all add: foreign_def)

text \<open>The MIDI component takes a card and a client; when the client cannot be created it frees the card and may still succeed.\<close>

lemma midi_init_kheld:
  assumes "cmidid_midi_init A chan st = (err, st', cs)" and "r \<noteq> K_card" and "r \<noteq> K_client"
  shows "kheld r cs = 0"
  using assms by (auto simp: cmidid_midi_init_def Let_def split: if_splits prod.splits)

lemma midi_init_success:
  assumes "cmidid_midi_init A chan st = (err, st', cs)" and "0 \<le> err"
  defines "c \<equiv> snd_seq_create_kernel_client A (snd (snd_card_create A))"
  shows "card st' = snd (snd_card_create A)" and "client st' = c"
    and "kheld K_card cs = of_bool (0 \<le> c)" and "kheld K_client cs = 1"
  using assms by (auto simp: cmidid_midi_init_def Let_def EINVAL_def split: if_splits prod.splits)

lemma midi_exit_kheld [simp]:
  "kheld r (cmidid_midi_exit st) = - of_bool (r = K_client \<or> r = K_card)"
  by (auto simp: cmidid_midi_exit_def)

lemma midi_init_channel:
  "cmidid_midi_init A chan st = (err, st', cs) \<Longrightarrow> 0 \<le> err \<Longrightarrow> midi_channel st' \<le> 15"
  by (auto simp: cmidid_midi_init_def Let_def EINVAL_def word_le_nat_alt split: if_splits prod.splits)

text \<open>A load that returns 0 went through both components.\<close>

lemma cmidid_init_success:
  assumes "cmidid_init C A chan G p midi0 gpio0 = (0, midi, gpio, cs)"
  obtains err mcs err' gcs where "cmidid_midi_init A chan midi0 = (err, midi, mcs)" and "0 \<le> err"
    and "cmidid_gpio_init G p gpio0 = (err', gpio, gcs)" and "\<not> err' < 0"
    and "cs = [Alloc_chrdev_region, Cdev_alloc, Cdev_add, Class_create, Device_create] @ mcs @ gcs"
  using assms
  by (auto simp: cmidid_init_def Let_def EIO_def split: if_splits prod.splits)

section \<open>Properties\<close>

definition sample_chrdev :: chrdev_env where
  "sample_chrdev = \<lparr>alloc_chrdev_region = 0, cdev_alloc_ok = True, cdev_add = 0\<rparr>"

definition sample_alsa :: "int \<Rightarrow> alsa_env" where
  "sample_alsa k = \<lparr>snd_card_create = (0, Some 7), snd_seq_create_kernel_client = (\<lambda>_. k),
     snd_seq_create_port = (\<lambda>_. 0)\<rparr>"

text \<open>The loads of the two components and of the module on the sample environment.\<close>

lemma sample_gpio_load:
  "\<exists>gpio gcs. cmidid_gpio_init sample_env sample_params zero_gpio_state = (0, gpio, gcs)"
  by (simp add: sample_init_defs)

lemma sample_midi_load:
  "\<exists>midi mcs. cmidid_midi_init (sample_alsa k) 3 midi_state_init = (0, midi, mcs)"
  by (cases "k < 0") (simp_all add: cmidid_midi_init_def sample_alsa_def midi_state_init_def Let_def)

lemma sample_load:
  obtains midi gpio cs where "cmidid_init sample_chrdev (sample_alsa k) 3 sample_env sample_params
    midi_state_init zero_gpio_state = (0, midi, gpio, cs)"
proof -
  obtain gpio gcs where "cmidid_gpio_init sample_env sample_params zero_gpio_state = (0, gpio, gcs)"
    using sample_gpio_load by blast
  moreover obtain midi mcs where "cmidid_midi_init (sample_alsa k) 3 midi_state_init = (0, midi, mcs)"
    using sample_midi_load by blast
  ultimately show thesis
    by (intro that) (simp add: cmidid_init_def sample_chrdev_def)
qed

text \<open>
  A load that succeeds hands a fresh module to the kernel: no debounce flag is set and no
  timer pending, the MIDI channel is one of sixteen, no key sounds and the linear curve is
  selected. So everything proved of a running module holds from here on.
\<close>

theorem loaded_module_fresh:
  assumes "cmidid_init C A chan G p midi0 gpio0 = (0, midi, gpio, cs)"
  shows "fresh_system \<lparr>sys_midi = midi, sys_gpio = gpio, pending = {}, calls = []\<rparr> \<and>
    midi_channel midi \<le> 15 \<and> vel_curve gpio = VEL_CURVE_LINEAR \<and>
    (\<forall>k \<in> set (keys gpio). key_state k = KEY_INACTIVE)"
proof -
  obtain err mcs err' gcs where m: "cmidid_midi_init A chan midi0 = (err, midi, mcs)" "0 \<le> err"
    and g: "cmidid_gpio_init G p gpio0 = (err', gpio, gcs)" "\<not> err' < 0"
    using assms by (rule cmidid_init_success)
  from gpio_init_success(4,7) [OF g] midi_init_channel [OF m] show ?thesis
    by (auto simp: fresh_system_def key_conf_def)
qed

lemma loaded_module_fresh_witness:
  "\<exists>midi gpio cs. cmidid_init sample_chrdev (sample_alsa 128) 3 sample_env sample_params
       midi_state_init zero_gpio_state = (0, midi, gpio, cs) \<and>
     fresh_system \<lparr>sys_midi = midi, sys_gpio = gpio, pending = {}, calls = []\<rparr>"
proof -
  obtain midi gpio cs where r: "cmidid_init sample_chrdev (sample_alsa 128) 3 sample_env sample_params
       midi_state_init zero_gpio_state = (0, midi, gpio, cs)"
    by (rule sample_load)
  from loaded_module_fresh [OF r] r show ?thesis by blast
qed

text \<open>
  What unloading does to the resources of the kernel, in the state a module has reached after it was loaded: it depends on the
  keys' wiring, the card and the client only, which a running module leaves alone.
\<close>

lemma exit_calls_cong:
  assumes "wiring st' = wiring st" and "card midi' = card midi" and "client midi' = client midi"
  shows "cmidid_exit midi' st' = cmidid_exit midi st"
proof -
  have len: "length (keys st') = length (keys st)" using assms(1) map_eq_imp_length_eq by (fastforce simp: wiring_def)
  have "gpios (keys st' ! i) = gpios (keys st ! i) \<and> irqs (keys st' ! i) = irqs (keys st ! i)" if "i < length (keys st)" for i
  proof -
    have "wiring st' ! i = wiring st ! i" using assms(1) by simp
    with that len show ?thesis by (simp add: wiring_def)
  qed
  with len have "map (key_release (keys st')) [0..<num_keys st'] = map (key_release (keys st)) [0..<num_keys st]"
    by (auto simp: key_release_def num_keys_def)
  with assms(2,3) show ?thesis by (simp add: cmidid_exit_def cmidid_gpio_exit_def cmidid_midi_exit_def)
qed

lemma loaded_kheld:
  assumes "cmidid_init C A chan G p midi0 gpio0 = (0, midi, gpio, cs)"
  shows "kheld r (cs @ cmidid_exit midi gpio) =
    (if r = K_card \<and> snd_seq_create_kernel_client A (snd (snd_card_create A)) < 0 then - 1 else 0)"
proof -
  obtain err mcs err' gcs where m: "cmidid_midi_init A chan midi0 = (err, midi, mcs)" "0 \<le> err"
    and g: "cmidid_gpio_init G p gpio0 = (err', gpio, gcs)" "\<not> err' < 0"
    and cs: "cs = [Alloc_chrdev_region, Cdev_alloc, Cdev_add, Class_create, Device_create] @ mcs @ gcs"
    using assms(1) by (rule cmidid_init_success)
  have "kheld r gcs + kheld r (cmidid_gpio_exit gpio) = 0" using gpio_init_exit_kheld [OF g, of r] by simp
  moreover have "kheld r mcs = (if r = K_client then 1 else if r = K_card then
      of_bool (0 \<le> snd_seq_create_kernel_client A (snd (snd_card_create A))) else 0)"
    using midi_init_kheld [OF m(1), of r] midi_init_success(3,4) [OF m] by auto
  ultimately show ?thesis by (cases r) (simp_all add: cs cmidid_exit_def)
qed

text \<open>
  C15. Loading, running and unloading: from a load that succeeds on, whatever interrupts, timers and ioctl commands come before
  the module is unloaded, every resource of the kernel the module took is given back as often as it was taken: the device number,
  the reference to the character device, the class and its device file, the sequencer client, the memory of the keys, and for each key the
  pair of GPIOs, both interrupt lines and both timers. The client deleted and the card freed are those the load got. The one
  exception is a load that could not create the client: it succeeds all the same and has freed the card already; unloading
  then deletes a client with the negative number of the error, which was never created, and frees the card a second time.
\<close>

theorem load_unload_balanced:
  assumes "cmidid_init C A chan G p midi0 gpio0 = (0, midi, gpio, cs)"
    and "reachable jit \<lparr>sys_midi = midi, sys_gpio = gpio, pending = {}, calls = cs\<rparr> s"
  defines "c \<equiv> snd_seq_create_kernel_client A (snd (snd_card_create A))"
    and "exit_calls \<equiv> cmidid_exit (sys_midi s) (sys_gpio s)"
  shows "(\<forall>r. 0 \<le> c \<or> r \<noteq> K_client \<longrightarrow> kheld r (calls s @ exit_calls) = (if r = K_card \<and> c < 0 then - 1 else 0)) \<and>
    {d. Seq_delete_client d \<in> set exit_calls} = {c} \<and>
    {d. Snd_card_free d \<in> set exit_calls} = {snd (snd_card_create A)}"
proof -
  obtain err mcs where m: "cmidid_midi_init A chan midi0 = (err, midi, mcs)" "0 \<le> err"
    using assms(1) by (rule cmidid_init_success)
  have exit: "exit_calls = cmidid_exit midi gpio"
    using reachable_wiring [OF assms(2)] unfolding exit_calls_def by (intro exit_calls_cong) simp_all
  have "kheld r (calls s @ exit_calls) = kheld r (cs @ cmidid_exit midi gpio)" for r
    using reachable_wiring [OF assms(2), of r] by (simp add: exit)
  then have "\<forall>r. kheld r (calls s @ exit_calls) = (if r = K_card \<and> c < 0 then - 1 else 0)"
    using loaded_kheld [OF assms(1)] by (simp add: c_def)
  moreover have "c' \<in> set (cmidid_gpio_exit gpio) \<Longrightarrow> gpio_call c'" for c' using gpio_exit_calls by (simp add: list_all_iff)
  then have "{d. Seq_delete_client d \<in> set exit_calls} = {client midi} \<and> {d. Snd_card_free d \<in> set exit_calls} = {card midi}"
    by (fastforce simp: exit cmidid_exit_def cmidid_midi_exit_def gpio_call_def)
  ultimately show ?thesis using midi_init_success(1,2) [OF m] by (simp add: c_def)
qed

text \<open>On a kernel that creates the client, and on one that does not.\<close>

lemma load_unload_balanced_witness:
  "(\<exists>midi gpio cs. cmidid_init sample_chrdev (sample_alsa 128) 3 sample_env sample_params
       midi_state_init zero_gpio_state = (0, midi, gpio, cs) \<and> (\<forall>r. kheld r (cs @ cmidid_exit midi gpio) = 0)) \<and>
   (\<exists>midi gpio cs. cmidid_init sample_chrdev (sample_alsa (- ENOMEM)) 3 sample_env sample_params
       midi_state_init zero_gpio_state = (0, midi, gpio, cs) \<and> kheld K_card (cs @ cmidid_exit midi gpio) = - 1)"
proof -
  have "\<exists>midi gpio cs. cmidid_init sample_chrdev (sample_alsa k) 3 sample_env sample_params
       midi_state_init zero_gpio_state = (0, midi, gpio, cs) \<and>
     (\<forall>r. 0 \<le> k \<or> r \<noteq> K_client \<longrightarrow>
       kheld r (cs @ cmidid_exit midi gpio) = (if r = K_card \<and> k < 0 then - 1 else 0))" for k
  proof -
    obtain midi gpio cs where r: "cmidid_init sample_chrdev (sample_alsa k) 3 sample_env sample_params
         midi_state_init zero_gpio_state = (0, midi, gpio, cs)"
      by (rule sample_load)
    with load_unload_balanced [OF r reachable.start] show ?thesis
      by (intro exI [of _ midi] exI [of _ gpio] exI [of _ cs]) (simp add: sample_alsa_def)
  qed
  from this [of 128] this [of "- ENOMEM"] show ?thesis by (fastforce simp: ENOMEM_def)
qed

text \<open>A module without a client sends nothing.\<close>

lemma no_client_silent:
  assumes "cmidid_init C A chan G p midi0 gpio0 = (0, midi, gpio, cs)"
    and "snd_seq_create_kernel_client A (snd (snd_card_create A)) < 0"
  shows "client midi < 0 \<and> dispatch_event midi ev = []"
proof -
  obtain err mcs where m: "cmidid_midi_init A chan midi0 = (err, midi, mcs)" "0 \<le> err"
    using assms(1) by (rule cmidid_init_success)
  with midi_init_success(2) [OF m] assms(2) show ?thesis by (simp add: dispatch_event_def)
qed

text \<open>
  A failing load gives the device number back whenever it got one, and returns a negative
  code. Its cleanup of the character device is right when \<open>cdev_add\<close> fails, but once the
  device was added the cleanup drops one reference more than was taken, since \<open>kobject_put\<close>
  runs after \<open>cdev_del\<close>.
\<close>

theorem failed_load_cleanup:
  assumes "cmidid_init C A chan G p midi0 gpio0 = (err, midi, gpio, cs)" and "err \<noteq> 0"
    and "0 \<le> alloc_chrdev_region C"
  shows "err < 0 \<and> kheld K_region cs = 0 \<and>
    (if cdev_alloc_ok C then kheld K_cdev cs = (if cdev_add C = 0 then - 1 else 0)
     else Cdev_del \<notin> set cs \<and> Kobject_put \<notin> set cs)"
  using assms
  by (auto simp: cmidid_init_def Let_def EIO_def free_device_number_def free_cdev_def
      err_midi_init_def err_gpio_init_def midi_init_kheld
      split: if_splits prod.splits)

lemma failed_load_cleanup_witness:
  "\<exists>err midi gpio cs. cmidid_init sample_chrdev (sample_alsa 128) 16 sample_env sample_params
       midi_state_init zero_gpio_state = (err, midi, gpio, cs) \<and> err < 0 \<and> kheld K_cdev cs = - 1"
proof -
  obtain midi gpio cs where r: "cmidid_init sample_chrdev (sample_alsa 128) 16 sample_env sample_params
       midi_state_init zero_gpio_state = (- EINVAL, midi, gpio, cs)"
    by (simp add: cmidid_init_def sample_chrdev_def cmidid_midi_init_def EINVAL_def)
  from failed_load_cleanup [OF r] r show ?thesis by (auto simp: sample_chrdev_def EINVAL_def)
qed

end
