(* ===== verification/Keyboard_Network.thy ===== *)
theory Keyboard_Network
  imports Apple_Membership Cmidid_Main
begin

text \<open>
  The two modules together: the CMIDID module hands its note events to the sequencer, which hands them to its subscribers,
  the AppleMIDI module among them. Both read the same \<open>struct snd_seq_event\<close>; the one writes its type as a constant of the
  sequencer, the other compares it with the number. From the buttons of the keyboard to the packets of the network.
\<close>

section \<open>An event of the sequencer\<close>

definition seq_type_code :: "seq_event_type \<Rightarrow> u8" where
  "seq_type_code t = (case t of SNDRV_SEQ_EVENT_NOTEON \<Rightarrow> 6 | SNDRV_SEQ_EVENT_NOTEOFF \<Rightarrow> 7)"

definition seq_view :: "snd_seq_event \<Rightarrow> alsa_event" where
  "seq_view ev = alsa_event.make (seq_type_code (snd_seq_event.ev_type ev)) (snd_seq_event.ev_channel ev)
     (snd_seq_event.ev_note ev) (snd_seq_event.ev_velocity ev)"

text \<open>The MIDI command an event stands for.\<close>

definition midi_command :: "snd_seq_event \<Rightarrow> three_bytes" where
  "midi_command ev = ((case snd_seq_event.ev_type ev of SNDRV_SEQ_EVENT_NOTEON \<Rightarrow> 0x90 | SNDRV_SEQ_EVENT_NOTEOFF \<Rightarrow> 0x80) OR
     snd_seq_event.ev_channel ev, snd_seq_event.ev_note ev, snd_seq_event.ev_velocity ev)"

lemma nibble_low: "(c :: u8) \<le> 15 \<Longrightarrow> c AND 0xf = c"
proof -
  assume "c \<le> 15"
  then have "unat c \<in> {..< 16}" by (simp add: word_le_nat_alt)
  moreover have "\<forall>i \<in> {..< 16 :: nat}. (of_nat i :: u8) AND 0xf = of_nat i" by (simp add: lessThan_nat_numeral lessThan_Suc)
  ultimately have "(of_nat (unat c) :: u8) AND 0xf = of_nat (unat c)" by blast
  then show ?thesis by simp
qed

lemma seq_view_note:
  assumes "wf_note_event ev"
  shows "note_event (seq_view ev)" and "note_bytes (seq_view ev) = midi_command ev"
proof -
  have ev: "snd_seq_event.ev_note ev \<le> 127" "snd_seq_event.ev_velocity ev \<le> 127" "snd_seq_event.ev_channel ev \<le> 15"
    using assms by (simp_all add: wf_note_event_def)
  have "(x :: u8) < 0x80" if "x \<le> 127" for x using that by (simp add: word_le_nat_alt word_less_nat_alt)
  with ev show "note_event (seq_view ev)"
    by (auto simp: note_event_def seq_view_def alsa_event.make_def seq_type_code_def event_types split: seq_event_type.splits)
  show "note_bytes (seq_view ev) = midi_command ev"
    using nibble_low [OF ev(3)]
    by (auto simp: note_bytes_def seq_view_def alsa_event.make_def seq_type_code_def event_types midi_command_def split: seq_event_type.splits)
qed

section \<open>Traffic with the notes of the keyboard\<close>

fun notes_of :: "traffic list \<Rightarrow> alsa_event list" where
  "notes_of [] = []"
| "notes_of (Note E ev # es) = ev # notes_of es"
| "notes_of (_ # es) = notes_of es"

lemma notes_of_append [simp]: "notes_of (xs @ ys) = notes_of xs @ notes_of ys"
  by (induction xs rule: notes_of.induct) simp_all

lemma note_in_notes: "Note E ev \<in> set es \<Longrightarrow> ev \<in> set (notes_of es)"
  by (induction es rule: notes_of.induct) auto

lemma keyboard_events:
  assumes "cmidid_init C A chan G p midi0 gpio0 = (0, midi, gpio, kcs)"
    and "reachable jit \<lparr>sys_midi = midi, sys_gpio = gpio, pending = {}, calls = []\<rparr> k"
    and "ev \<in> set (dispatched (calls k))"
  shows "wf_note_event ev"
proof -
  obtain err mcs where m: "cmidid_midi_init A chan midi0 = (err, midi, mcs)" "0 \<le> err"
    using assms(1) by (rule cmidid_init_success)
  have "output_invar \<lparr>sys_midi = midi, sys_gpio = gpio, pending = {}, calls = []\<rparr>"
    using midi_init_channel [OF m] by (simp add: output_invar_def)
  from reachable_output [OF assms(2) this] assms(3) show ?thesis by (simp add: output_invar_def)
qed


section \<open>Properties\<close>

text \<open>
  C4. From the buttons to the network: both modules are loaded, the keyboard has gone through any interrupts, timers and ioctl
  commands, and its events reach the AppleMIDI driver in their order, mixed in any way with runs of its timer and messages of other
  hosts that keep to the protocol. As long as no host ends its session the driver serves it all. Each event of the keyboard, at its place
  among the traffic, goes to every host that is a peer at that moment in one packet, in which the host reads exactly one MIDI command: the
  kind of the event, its channel, its note and its velocity. The one exception is a driver that has stopped before: after a host ended its session
  the timer went on from the freed peer of its last exchange of clocks.
\<close>

theorem keyboard_to_network:
  assumes "cmidid_init C A chan G p midi0 gpio0 = (0, midi, gpio, kcs)"
    and "reachable jit \<lparr>sys_midi = midi, sys_gpio = gpio, pending = {}, calls = []\<rparr> k"
    and "startable K m c b1 b2" and "serving K b1 b2" and "allocator alloc"
    and "\<forall>e \<in> set es. conforming e \<or> ending e \<or> (\<exists>E ev. e = Note E ev)" and "notes_of es = map seq_view (dispatched (calls k))"
    and "es = before @ Note E ev # after" and "socket_takes_all (network E)"
  shows "\<exists>a0 cs. mod_init K port Map.empty m clks None = Inr (0, Some a0, cs) \<and>
    ((\<forall>e \<in> set es. \<not> ending e) \<longrightarrow> (\<exists>z. run_steps (serve alloc) (a0, []) es = Inr z)) \<and>
    ((\<exists>a out a' pks payload. run_steps (serve alloc) (a0, []) before = Inr (a, out) \<and>
        alsa_input E ev a = Inr (0, a', map (Send (the (socket (rtp_session (driver a))))) pks) \<and>
        list_all2 (packet_for (rtp_session (driver a)) (peer_store a) 0 payload) (peer_list (rtp_session (driver a))) pks \<and>
        dec_payload 0 payload = Some [(0, midi_command (dispatched (calls k) ! length (notes_of before)))]) \<or>
     (\<exists>before' E' after' a out. before = before' @ Tick E' # after' \<and> (\<exists>e \<in> set before'. ending e) \<and>
        run_steps (serve alloc) (a0, []) before' = Inr (a, out) \<and> stale a \<and>
        run_steps (serve alloc) (a0, []) before = Inl Use_after_free))"
proof -
  let ?kev = "dispatched (calls k) ! length (notes_of before)"
  have wf: "\<forall>kev \<in> set (dispatched (calls k)). wf_note_event kev" using keyboard_events [OF assms(1,2)] by blast
  have n: "notes_of before @ ev # notes_of after = map seq_view (dispatched (calls k))" using assms(7,8) by simp
  then have l: "length (notes_of before) < length (dispatched (calls k))" by (metis length_append length_map list.size(4) less_add_same_cancel1 zero_less_Suc add_Suc_right)
  have ev: "ev = seq_view ?kev" using l n by (metis nth_append_length nth_map)
  have cf: "conforming e \<or> ending e" if "e \<in> set es" for e
    using assms(6) that note_in_notes [of _ _ es] assms(7) wf seq_view_note(1) by fastforce
  have view: "note_event ev" "note_bytes ev = midi_command ?kev" using wf l seq_view_note ev by simp_all
  obtain a0 cs where a0: "mod_init K port Map.empty m clks None = Inr (0, Some a0, cs)" "live a0" "tracked a0"
    using loaded_live [OF assms(3,4)] by blast
  have "\<forall>e \<in> set es. conforming e \<or> ending e" and "\<forall>e \<in> set before. conforming e \<or> ending e" using cf assms(8) by auto
  note all = served_or_stopped [OF a0(2,3) assms(5) this(1)] and upto = served_or_stopped [OF a0(2,3) assms(5) this(2)]
  have whole: "(\<forall>e \<in> set es. \<not> ending e) \<longrightarrow> (\<exists>z. run_steps (serve alloc) (a0, []) es = Inr z)" using all by fastforce
  have sent: "\<exists>a' pks payload. alsa_input E ev a = Inr (0, a', map (Send (the (socket (rtp_session (driver a))))) pks) \<and>
      list_all2 (packet_for (rtp_session (driver a)) (peer_store a) 0 payload) (peer_list (rtp_session (driver a))) pks \<and>
      dec_payload 0 payload = Some [(0, midi_command ?kev)]" if "served a0 (a, out)" for a out
    using live_note_sent [of a, OF _ view(1) assms(9)] that view(2) by (auto simp: served_def)
  from upto show ?thesis
  proof
    assume "\<exists>a out. run_steps (serve alloc) (a0, []) before = Inr (a, out) \<and> served a0 (a, out) \<and>
      spec_run membership (roster a0) before (roster a)"
    with sent a0(1) whole show ?thesis by meson
  next
    assume "\<exists>before' E' after' a out. before = before' @ Tick E' # after' \<and> (\<exists>e \<in> set before'. ending e) \<and>
       run_steps (serve alloc) (a0, []) before' = Inr (a, out) \<and> spec_run membership (roster a0) before' (roster a) \<and> stale a \<and>
       run_steps (serve alloc) (a0, []) before = Inl Use_after_free"
    with a0(1) whole show ?thesis by (intro exI [of _ a0] exI [of _ cs] conjI disjI2) auto
  qed
qed


text \<open>A list of events the kernel may trigger one after the other.\<close>

fun possible :: "u32 \<Rightarrow> cmidid_system \<Rightarrow> cmidid_event list \<Rightarrow> bool" where
  "possible jit s [] \<longleftrightarrow> True"
| "possible jit s (e # es) \<longleftrightarrow> enabled s e \<and> (case system_step jit s e of Inl f \<Rightarrow> False | Inr s' \<Rightarrow> possible jit s' es)"

lemma possible_reachable:
  "possible jit s es \<Longrightarrow> run_steps (system_step jit) s es = Inr k \<Longrightarrow> reachable jit s0 s \<Longrightarrow> reachable jit s0 k"
proof (induction es arbitrary: s)
  case (Cons e es)
  then obtain s' where "system_step jit s e = Inr s'" by (auto split: sum.splits)
  with Cons show ?case by (auto intro: reachable.step)
qed simp

text \<open>A stroke on the first key of a keyboard with two keys.\<close>

lemma sample_stroke_events:
  assumes "keys gpio = map (key_conf sample_env (gpio_mapping sample_params)) [0..<2]" and "client midi = 128"
    and "vel_curve gpio = VEL_CURVE_LINEAR" and "stroke_time_min gpio = 1000" and "stroke_time_max gpio = 1000000"
    and "button_active_high gpio START_BUTTON" and "\<not> button_active_high gpio END_BUTTON"
  defines "k0 \<equiv> \<lparr>sys_midi = midi, sys_gpio = gpio, pending = {}, calls = []\<rparr>"
  shows "\<exists>k. reachable 1000000 k0 k \<and> dispatched (calls k) = [config_note_event midi 60 63 SNDRV_SEQ_EVENT_NOTEON]"
proof -
  let ?es = "[Irq 117, Timer_expired (0, START_BUTTON) 0 (\<lambda>_. 1), Irq 104, Timer_expired (0, END_BUTTON) 512512000 (\<lambda>_. 0)]"
  have u: "[0..<2] = [0, 1 :: nat]" by (simp add: upt_rec numeral_2_eq_2)
  have keys: "keys gpio = [key_conf sample_env (gpio_mapping sample_params) 0, key_conf sample_env (gpio_mapping sample_params) 1]"
    using assms(1) by (simp add: u)
  note eval = k0_def keys key_conf_def sample_env_def sample_params_def irq_handler_def get_key_from_irq_def timer_irq_def
    get_key_from_timer_def handle_unfold time_to_velocity_def udiv32_def stime64_to_utime32_def
  have "\<exists>k. run_steps (system_step 1000000) k0 ?es = Inr k \<and> dispatched (calls k) = [config_note_event midi 60 63 SNDRV_SEQ_EVENT_NOTEON]"
    using assms(2-7) by (simp add: eval)
  moreover have "possible 1000000 k0 ?es" using assms(2-7) by (simp add: eval)
  ultimately show ?thesis using possible_reachable [OF _ _ reachable.start] by blast
qed


lemma sample_keyboard:
  obtains midi gpio kcs k where "cmidid_init sample_chrdev (sample_alsa 128) 3 sample_env sample_params midi_state_init zero_gpio_state = (0, midi, gpio, kcs)"
    and "reachable 1000000 \<lparr>sys_midi = midi, sys_gpio = gpio, pending = {}, calls = []\<rparr> k"
    and "dispatched (calls k) = [config_note_event midi 60 63 SNDRV_SEQ_EVENT_NOTEON]" and "midi_channel midi = 3" and "transpose midi = 0"
proof -
  obtain gpio gcs where g: "cmidid_gpio_init sample_env sample_params zero_gpio_state = (0, gpio, gcs)" using sample_gpio_load by blast
  obtain midi mcs where m: "cmidid_midi_init (sample_alsa 128) 3 midi_state_init = (0, midi, mcs)" "client midi = 128"
      "midi_channel midi = 3" "transpose midi = 0"
    by (simp add: cmidid_midi_init_def sample_alsa_def midi_state_init_def)
  have n: "length (gpio_mapping sample_params) div 3 = 2" "start_button_active_high sample_params" "\<not> end_button_active_high sample_params"
    "param_stroke_time_min sample_params = 1000" "param_stroke_time_max sample_params = 1000000" by (simp_all add: sample_params_def)
  note s = gpio_init_success [OF g, simplified]
  obtain k where "reachable 1000000 \<lparr>sys_midi = midi, sys_gpio = gpio, pending = {}, calls = []\<rparr> k"
    "dispatched (calls k) = [config_note_event midi 60 63 SNDRV_SEQ_EVENT_NOTEON]"
    using sample_stroke_events [of gpio midi] s(4,7-11) m(2) n by auto
  moreover obtain kcs where "cmidid_init sample_chrdev (sample_alsa 128) 3 sample_env sample_params midi_state_init zero_gpio_state = (0, midi, gpio, kcs)"
    using g m(1) by (simp add: cmidid_init_def sample_chrdev_def)
  ultimately show thesis using m(3,4) that by blast
qed

lemma keyboard_to_network_witness:
  "\<exists>midi gpio kcs k a0 cs a out a' pks payload.
    cmidid_init sample_chrdev (sample_alsa 128) 3 sample_env sample_params midi_state_init zero_gpio_state = (0, midi, gpio, kcs) \<and>
    reachable 1000000 \<lparr>sys_midi = midi, sys_gpio = gpio, pending = {}, calls = []\<rparr> k \<and>
    mod_init sample_create 5008 Map.empty Map.empty Map.empty None = Inr (0, Some a0, cs) \<and>
    run_steps (serve (\<lambda>h. Suc (Max (insert 0 (dom h))))) (a0, [])
      [Message sample_world True 5008 5008 0 9 (Session APPLEMIDI_COMMAND_INVITATION 2 77 5 [80, 105]),
       Message sample_world False 5009 5009 0 9 (Session APPLEMIDI_COMMAND_INVITATION 2 77 5 [80, 105])] = Inr (a, out) \<and>
    alsa_input sample_world (seq_view (hd (dispatched (calls k)))) a =
      Inr (0, a', map (Send (the (socket (rtp_session (driver a))))) pks) \<and>
    dec_payload 0 payload = Some [(0, 0x93, 60, 63)]"
proof -
  let ?before = "[Message sample_world True 5008 5008 0 9 (Session APPLEMIDI_COMMAND_INVITATION 2 77 5 [80, 105]),
       Message sample_world False 5009 5009 0 9 (Session APPLEMIDI_COMMAND_INVITATION 2 77 5 [80, 105])]"
  obtain midi gpio kcs k where k: "cmidid_init sample_chrdev (sample_alsa 128) 3 sample_env sample_params midi_state_init zero_gpio_state = (0, midi, gpio, kcs)"
    "reachable 1000000 \<lparr>sys_midi = midi, sys_gpio = gpio, pending = {}, calls = []\<rparr> k"
    "dispatched (calls k) = [config_note_event midi 60 63 SNDRV_SEQ_EVENT_NOTEON]" "midi_channel midi = 3" "transpose midi = 0"
    by (rule sample_keyboard)
  let ?ev = "config_note_event midi 60 63 SNDRV_SEQ_EVENT_NOTEON"
  let ?es = "?before @ Note sample_world (seq_view ?ev) # [Tick sample_world]"
  have n: "socket_takes_all (network sample_world)" by (simp add: socket_takes_all_def sample_world_def)
  have c: "\<forall>e \<in> set ?es. conforming e \<or> ending e \<or> (\<exists>E ev. e = Note E ev)" by (simp add: session_command_def commands_differ)
  have e: "notes_of ?es = map seq_view (dispatched (calls k))" "midi_command ?ev = (0x93, 60, 63)"
    using k(3-5) by (simp_all add: midi_command_def)
  have "length (notes_of ?before) = 0" "hd (dispatched (calls k)) = ?ev" "dispatched (calls k) ! 0 = ?ev" using k(3) by simp_all
  moreover have no_tick: "?before \<noteq> before' @ Tick E' # after'" for before' E' after'
  proof
    assume "?before = before' @ Tick E' # after'"
    then have "Tick E' \<in> set ?before" by (metis in_set_conv_decomp)
    then show False by simp
  qed
  ultimately show ?thesis
    using keyboard_to_network [OF k(1,2) sample_startable sample_serving max_allocator c e(1) refl n, of 5008 Map.empty] k(1,2) e(2)
    by metis
qed

end
