(* ===== verification/Arm_Core.thy ===== *)
theory Arm_Core
  imports C_Prelude
begin

text \<open>
  The part of the ARM instruction set the assembly routine of the AppleMIDI module uses: data processing with a shifted operand
  and its flags, counting of leading zeros, conditional execution, and blocks of instructions that end in a branch or run into the
  next one. Registers have 32 bits; the stack is the list of the words pushed. A program is a list of instructions for each of its labels.
\<close>

section \<open>State\<close>

datatype arm_reg = R0 | R1 | R2 | R3 | R4 | R5 | R6 | R7 | IP | LR

record arm =
  reg :: "arm_reg \<Rightarrow> u32"
  flag_n :: bool
  flag_z :: bool
  flag_c :: bool
  flag_v :: bool
  stack :: "u32 list"

section \<open>Instructions\<close>

datatype condition = AL | EQ | MI | PL | CC | LS

datatype operand =
    Imm u32
  | Rg arm_reg
  | Lsl arm_reg arm_reg
  | Lsr arm_reg arm_reg
  | Lsr_imm arm_reg nat
  | Rrx arm_reg

datatype data_op = MOV | ORR | AND_op | SUB | SBC | RSB | ADD
datatype test_op = TST | TEQ | CMP

text \<open>\<open>'l\<close> are the labels of the program, \<open>'f\<close> the functions it calls. The flag says whether the condition codes are set.\<close>

datatype ('l, 'f) instr =
    Data condition data_op bool arm_reg arm_reg operand
  | Test condition test_op arm_reg operand
  | Clz condition arm_reg arm_reg
  | Branch condition 'l
  | Call 'f
  | Push "arm_reg list"
  | Pop_return "arm_reg list"

abbreviation mov :: "arm_reg \<Rightarrow> operand \<Rightarrow> ('l, 'f) instr" where "mov d x \<equiv> Data AL MOV False d d x"
abbreviation movs :: "arm_reg \<Rightarrow> operand \<Rightarrow> ('l, 'f) instr" where "movs d x \<equiv> Data AL MOV True d d x"

section \<open>Operands and flags\<close>

fun holds :: "condition \<Rightarrow> arm \<Rightarrow> bool" where
  "holds AL s \<longleftrightarrow> True"
| "holds EQ s \<longleftrightarrow> flag_z s"
| "holds MI s \<longleftrightarrow> flag_n s"
| "holds PL s \<longleftrightarrow> \<not> flag_n s"
| "holds CC s \<longleftrightarrow> \<not> flag_c s"
| "holds LS s \<longleftrightarrow> \<not> flag_c s \<or> flag_z s"

text \<open>A shift by a register takes the low byte of the register; the carry is the last bit that was shifted out.\<close>

definition shift_left :: "u32 \<Rightarrow> nat \<Rightarrow> bool \<Rightarrow> u32 \<times> bool" where
  "shift_left x n c = (push_bit n x, if n = 0 then c else n \<le> 32 \<and> bit x (32 - n))"

definition shift_right :: "u32 \<Rightarrow> nat \<Rightarrow> bool \<Rightarrow> u32 \<times> bool" where
  "shift_right x n c = (drop_bit n x, if n = 0 then c else bit x (n - 1))"

definition rotate_extend :: "bool \<Rightarrow> u32 \<Rightarrow> u32" where
  "rotate_extend c x = push_bit 31 (of_bool c) OR drop_bit 1 x"

fun shifter :: "operand \<Rightarrow> arm \<Rightarrow> u32 \<times> bool" where
  "shifter (Imm n) s = (n, flag_c s)"
| "shifter (Rg r) s = (reg s r, flag_c s)"
| "shifter (Lsl r k) s = shift_left (reg s r) (unat (reg s k AND 0xff)) (flag_c s)"
| "shifter (Lsr r k) s = shift_right (reg s r) (unat (reg s k AND 0xff)) (flag_c s)"
| "shifter (Lsr_imm r k) s = shift_right (reg s r) k (flag_c s)"
| "shifter (Rrx r) s = (rotate_extend (flag_c s) (reg s r), bit (reg s r) 0)"

definition set_nz :: "u32 \<Rightarrow> arm \<Rightarrow> arm" where
  "set_nz x s = s\<lparr>flag_n := bit x 31, flag_z := x = 0\<rparr>"

definition logical :: "u32 \<Rightarrow> bool \<Rightarrow> arm \<Rightarrow> arm" where
  "logical x c s = set_nz x (s\<lparr>flag_c := c\<rparr>)"

text \<open>The flags of a difference \<open>x - y - b\<close>: carry is the absence of a borrow.\<close>

definition difference :: "u32 \<Rightarrow> u32 \<Rightarrow> nat \<Rightarrow> u32" where
  "difference x y b = x - y - of_nat b"

definition set_difference :: "u32 \<Rightarrow> u32 \<Rightarrow> nat \<Rightarrow> arm \<Rightarrow> arm" where
  "set_difference x y b s =
     set_nz (difference x y b) (s\<lparr>flag_c := unat y + b \<le> unat x, flag_v := sint (difference x y b) \<noteq> sint x - sint y - int b\<rparr>)"

definition set_sum :: "u32 \<Rightarrow> u32 \<Rightarrow> arm \<Rightarrow> arm" where
  "set_sum x y s = set_nz (x + y) (s\<lparr>flag_c := 2 ^ 32 \<le> unat x + unat y, flag_v := sint (x + y) \<noteq> sint x + sint y\<rparr>)"

definition borrow :: "arm \<Rightarrow> nat" where
  "borrow s = (if flag_c s then 0 else 1)"

definition set_reg :: "arm_reg \<Rightarrow> u32 \<Rightarrow> arm \<Rightarrow> arm" where
  "set_reg r x s = s\<lparr>reg := (reg s)(r := x)\<rparr>"

text \<open>The result of an operation on the first operand and the shifter, and the state with its flags.\<close>

fun compute :: "data_op \<Rightarrow> u32 \<Rightarrow> u32 \<times> bool \<Rightarrow> arm \<Rightarrow> u32 \<times> arm" where
  "compute MOV x (y, c) s = (y, logical y c s)"
| "compute ORR x (y, c) s = (x OR y, logical (x OR y) c s)"
| "compute AND_op x (y, c) s = (x AND y, logical (x AND y) c s)"
| "compute SUB x (y, c) s = (difference x y 0, set_difference x y 0 s)"
| "compute SBC x (y, c) s = (difference x y (borrow s), set_difference x y (borrow s) s)"
| "compute RSB x (y, c) s = (difference y x 0, set_difference y x 0 s)"
| "compute ADD x (y, c) s = (x + y, set_sum x y s)"

fun compare :: "test_op \<Rightarrow> u32 \<Rightarrow> u32 \<times> bool \<Rightarrow> arm \<Rightarrow> arm" where
  "compare TST x (y, c) s = logical (x AND y) c s"
| "compare TEQ x (y, c) s = logical (x XOR y) c s"
| "compare CMP x (y, c) s = set_difference x y 0 s"

text \<open>The number of zero bits above the highest bit that is set.\<close>

definition clz :: "u32 \<Rightarrow> nat" where
  "clz x = length (takeWhile (\<lambda>i. \<not> bit x i) (rev [0..<32]))"

section \<open>Execution\<close>

text \<open>
  A block runs into the next one, branches or returns; \<open>ldmfd sp!, {..., pc}\<close> loads the last word it takes into the program
  counter, which is where the function returns to. A pop of more words than were pushed is a fault.
\<close>

datatype 'l outcome = Fall arm | Goto 'l arm | Return u32 arm | Fault

definition push :: "arm_reg list \<Rightarrow> arm \<Rightarrow> arm" where
  "push rs s = s\<lparr>stack := map (reg s) rs @ stack s\<rparr>"

fun pop :: "arm_reg list \<Rightarrow> arm \<Rightarrow> arm" where
  "pop [] s = s"
| "pop (r # rs) s = pop rs (set_reg r (hd (stack s)) s\<lparr>stack := tl (stack s)\<rparr>)"

fun exec :: "('f \<Rightarrow> arm \<Rightarrow> arm) \<Rightarrow> ('l, 'f) instr list \<Rightarrow> arm \<Rightarrow> 'l outcome" where
  "exec K [] s = Fall s"
| "exec K (Data c f upd d n x # is) s =
     (if holds c s then
        let (y, t) = compute f (reg s n) (shifter x s) s
        in exec K is (set_reg d y (if upd then t else s))
      else exec K is s)"
| "exec K (Test c f n x # is) s = exec K is (if holds c s then compare f (reg s n) (shifter x s) s else s)"
| "exec K (Clz c d n # is) s = exec K is (if holds c s then set_reg d (of_nat (clz (reg s n))) s else s)"
| "exec K (Branch c l # is) s = (if holds c s then Goto l s else exec K is s)"
| "exec K (Call f # is) s = exec K is (K f s)"
| "exec K (Push rs # is) s = exec K is (push rs s)"
| "exec K (Pop_return rs # is) s =
     (if length (stack s) \<le> length rs then Fault
      else let t = pop rs s in Return (hd (stack t)) (t\<lparr>stack := tl (stack t)\<rparr>))"

text \<open>Running a program from a label, with fuel for the blocks; \<open>next\<close> is the label a block runs into.\<close>

fun run_blocks ::
    "nat \<Rightarrow> ('f \<Rightarrow> arm \<Rightarrow> arm) \<Rightarrow> ('l \<Rightarrow> ('l, 'f) instr list) \<Rightarrow> ('l \<Rightarrow> 'l option) \<Rightarrow> 'l \<Rightarrow> arm \<Rightarrow> (u32 \<times> arm) option" where
  "run_blocks 0 K code next l s = None"
| "run_blocks (Suc n) K code next l s =
     (case exec K (code l) s of
        Fall s' \<Rightarrow> (case next l of None \<Rightarrow> None | Some l' \<Rightarrow> run_blocks n K code next l' s')
      | Goto l' s' \<Rightarrow> run_blocks n K code next l' s'
      | Return ra s' \<Rightarrow> Some (ra, s')
      | Fault \<Rightarrow> None)"

end
