(* ===== verification/Arm_Uldivmod.thy ===== *)
theory Arm_Uldivmod
  imports Arm_Core
begin

text \<open>
  The division of 64-bit numbers the AppleMIDI module brings along for the ARM (\<open>applemidi/_uldivmod.S\<close>): the routine
  the compiler calls for a \<open>/\<close> or \<open>%\<close> of \<open>unsigned long long\<close>, as in \<open>clock.c\<close>. Its instructions, one list for each label, and the
  proof that it returns quotient and remainder, leaves what its caller relies on alone, and is done within a fixed number of blocks.
  The 32-bit division and the reaction to a division by zero are functions of the kernel and parameters.
\<close>

section \<open>The program\<close>

datatype label =
    L_uldivmod | L_div_64_64 | L_done_shift | L_subtract | L_update | L_exit | L_div_32_32 | L_pow2 | L_1 | L_div_by_0

datatype callee = Aeabi_uidivmod | Div0

abbreviation A_0 :: arm_reg where "A_0 \<equiv> R0"
abbreviation A_1 :: arm_reg where "A_1 \<equiv> R1"
abbreviation B_0 :: arm_reg where "B_0 \<equiv> R2"
abbreviation B_1 :: arm_reg where "B_1 \<equiv> R3"
abbreviation C_0 :: arm_reg where "C_0 \<equiv> R4"
abbreviation C_1 :: arm_reg where "C_1 \<equiv> R5"
abbreviation D_0 :: arm_reg where "D_0 \<equiv> R6"
abbreviation D_1 :: arm_reg where "D_1 \<equiv> R7"
abbreviation Q_0 :: arm_reg where "Q_0 \<equiv> R0"
abbreviation Q_1 :: arm_reg where "Q_1 \<equiv> R1"
abbreviation Rem_0 :: arm_reg where "Rem_0 \<equiv> R2"
abbreviation Rem_1 :: arm_reg where "Rem_1 \<equiv> R3"

definition saved :: "arm_reg list" where "saved = [R4, R5, R6, R7]"

definition entry_code :: "(label, callee) instr list" where
  "entry_code =
    [Push (saved @ [LR]),
     Data AL ORR True IP B_0 (Rg B_1),
     Branch EQ L_div_by_0,
     Data AL SUB True C_0 B_0 (Imm 1),
     Data AL SBC False C_1 B_1 (Imm 0),
     Test AL TST C_0 (Rg B_0),
     Test EQ TST B_1 (Rg C_1),
     Branch EQ L_pow2,
     Data AL ORR True IP A_1 (Rg B_1),
     Branch EQ L_div_32_32]"

definition align_code :: "(label, callee) instr list" where
  "align_code =
    [mov C_0 (Imm 1),
     mov C_1 (Imm 0),
     Test AL TEQ A_1 (Imm 0),
     Clz AL D_0 A_1,
     Clz EQ IP A_0,
     Data EQ ADD False D_0 D_0 (Rg IP),
     Test AL TEQ B_1 (Imm 0),
     Clz AL D_1 B_1,
     Clz EQ IP B_0,
     Data EQ ADD False D_1 D_1 (Rg IP),
     Data AL SUB True D_0 D_1 (Rg D_0),
     Branch LS L_done_shift,
     Data AL SUB True D_1 D_0 (Imm 32),
     Data AL RSB False IP D_0 (Imm 32),
     Data MI MOV False B_1 B_1 (Lsl B_1 D_0),
     Data MI ORR False B_1 B_1 (Lsr B_0 IP),
     Data PL MOV False B_1 B_1 (Lsl B_0 D_1),
     Data AL MOV False B_0 B_0 (Lsl B_0 D_0),
     Data MI MOV False C_1 C_1 (Lsl C_1 D_0),
     Data MI ORR False C_1 C_1 (Lsr C_0 IP),
     Data PL MOV False C_1 C_1 (Lsl C_0 D_1),
     Data AL MOV False C_0 C_0 (Lsl C_0 D_0)]"

definition done_shift_code :: "(label, callee) instr list" where
  "done_shift_code = [mov D_0 (Imm 0), mov D_1 (Imm 0)]"

definition subtract_code :: "(label, callee) instr list" where
  "subtract_code =
    [Test AL CMP A_1 (Rg B_1),
     Test EQ CMP A_0 (Rg B_0),
     Branch CC L_update,
     Data AL SUB True A_0 A_0 (Rg B_0),
     Data AL SBC False A_1 A_1 (Rg B_1),
     Data AL ORR False D_0 D_0 (Rg C_0),
     Data AL ORR False D_1 D_1 (Rg C_1)]"

definition update_code :: "(label, callee) instr list" where
  "update_code =
    [Data AL ORR True IP A_1 (Rg A_0),
     Branch EQ L_exit,
     movs C_1 (Lsr_imm C_1 1),
     movs C_0 (Rrx C_0),
     Data AL ORR True IP C_1 (Rg C_0),
     Branch EQ L_exit,
     movs B_1 (Lsr_imm B_1 1),
     mov B_0 (Rrx B_0),
     Branch AL L_subtract]"

definition exit_code :: "(label, callee) instr list" where
  "exit_code =
    [mov Rem_0 (Rg A_0), mov Rem_1 (Rg A_1), mov Q_0 (Rg D_0), mov Q_1 (Rg D_1), Pop_return saved]"

definition div_32_32_code :: "(label, callee) instr list" where
  "div_32_32_code =
    [mov R1 (Rg B_0), Call Aeabi_uidivmod, mov Rem_0 (Rg R1), mov Rem_1 (Imm 0), mov Q_1 (Imm 0), Pop_return saved]"

definition pow2_code :: "(label, callee) instr list" where
  "pow2_code =
    [Data AL AND_op False C_0 A_0 (Rg C_0),
     Data AL AND_op False C_1 A_1 (Rg C_1),
     Clz AL D_0 B_0,
     Data AL ADD False D_1 D_0 (Imm 1),
     Data AL RSB True D_0 D_0 (Imm 31),
     Branch PL L_1,
     Clz AL D_0 B_1,
     Data AL RSB False D_0 D_0 (Imm 31),
     mov A_0 (Lsr A_1 D_0),
     Data AL ADD False D_0 D_0 (Imm 32)]"

definition L_1_code :: "(label, callee) instr list" where
  "L_1_code =
    [Data PL MOV False A_0 A_0 (Lsr A_0 D_0),
     Data PL ORR False A_0 A_0 (Lsl A_1 D_1),
     mov A_1 (Lsr A_1 D_0),
     mov Rem_0 (Rg C_0),
     mov Rem_1 (Rg C_1),
     Pop_return saved]"

definition div_by_0_code :: "(label, callee) instr list" where
  "div_by_0_code =
    [Call Div0, mov Q_0 (Imm 0), mov Q_1 (Imm 0), mov Rem_0 (Imm 0), mov Rem_1 (Imm 0), Pop_return saved]"

fun uldivmod_code :: "label \<Rightarrow> (label, callee) instr list" where
  "uldivmod_code L_uldivmod = entry_code"
| "uldivmod_code L_div_64_64 = align_code"
| "uldivmod_code L_done_shift = done_shift_code"
| "uldivmod_code L_subtract = subtract_code"
| "uldivmod_code L_update = update_code"
| "uldivmod_code L_exit = exit_code"
| "uldivmod_code L_div_32_32 = div_32_32_code"
| "uldivmod_code L_pow2 = pow2_code"
| "uldivmod_code L_1 = L_1_code"
| "uldivmod_code L_div_by_0 = div_by_0_code"

fun next_label :: "label \<Rightarrow> label option" where
  "next_label L_uldivmod = Some L_div_64_64"
| "next_label L_div_64_64 = Some L_done_shift"
| "next_label L_done_shift = Some L_subtract"
| "next_label L_subtract = Some L_update"
| "next_label L_update = Some L_exit"
| "next_label L_exit = Some L_div_32_32"
| "next_label L_div_32_32 = Some L_pow2"
| "next_label L_pow2 = Some L_1"
| "next_label L_1 = Some L_div_by_0"
| "next_label L_div_by_0 = None"

definition aeabi_uldivmod :: "nat \<Rightarrow> (callee \<Rightarrow> arm \<Rightarrow> arm) \<Rightarrow> arm \<Rightarrow> (u32 \<times> arm) option" where
  "aeabi_uldivmod fuel K = run_blocks fuel K uldivmod_code next_label L_uldivmod"

section \<open>Two registers as one number\<close>

definition pair64 :: "u32 \<Rightarrow> u32 \<Rightarrow> u64" where
  "pair64 lo hi = push_bit 32 (ucast hi) OR ucast lo"

definition va :: "arm \<Rightarrow> u64" where "va s = pair64 (reg s A_0) (reg s A_1)"
definition vb :: "arm \<Rightarrow> u64" where "vb s = pair64 (reg s B_0) (reg s B_1)"
definition vc :: "arm \<Rightarrow> u64" where "vc s = pair64 (reg s C_0) (reg s C_1)"
definition vd :: "arm \<Rightarrow> u64" where "vd s = pair64 (reg s D_0) (reg s D_1)"

lemma bit_pair64: "bit (pair64 lo hi) n = (if n < 32 then bit lo n else n < 64 \<and> bit hi (n - 32))"
  by (auto simp: pair64_def bit_simps dest: bit_imp_le_length)

lemma unat_pair64: "unat (pair64 lo hi) = unat hi * 2 ^ 32 + unat lo"
proof -
  have "push_bit 32 (ucast hi) AND (ucast lo :: u64) = 0"
    by (rule bit_word_eqI) (auto simp: bit_simps dest: bit_imp_le_length)
  then have "pair64 lo hi = push_bit 32 (ucast hi) + ucast lo"
    by (simp add: pair64_def disjunctive_add_eq_or)
  moreover have "unat hi * 2 ^ 32 + unat lo < 2 ^ 64"
  proof -
    have "x * 4294967296 + y < 18446744073709551616" if "x < 4294967296" "y < 4294967296" for x y :: nat using that by linarith
    from this [OF unat_u32_less unat_u32_less] show ?thesis by simp
  qed
  ultimately show ?thesis
    by (simp add: push_bit_eq_mult unat_word_ariths unsigned_ucast_eq take_bit_nat_eq_self mod_add_left_eq mult.commute)
qed

lemma pair64_eq: "pair64 lo hi = pair64 lo' hi' \<longleftrightarrow> lo = lo' \<and> hi = hi'"
proof
  assume h: "pair64 lo hi = pair64 lo' hi'"
  have "bit lo n = bit lo' n" if "n < 32" for n using h that bit_pair64 [of lo hi n] bit_pair64 [of lo' hi' n] by simp
  moreover have "bit hi n = bit hi' n" if "n < 32" for n using h that bit_pair64 [of lo hi "n + 32"] bit_pair64 [of lo' hi' "n + 32"] by simp
  ultimately show "lo = lo' \<and> hi = hi'" by (auto intro: bit_word_eqI)
qed simp

lemma pair64_0 [simp]: "pair64 lo hi = 0 \<longleftrightarrow> lo = 0 \<and> hi = 0"
  using pair64_eq [of lo hi 0 0] by (simp add: pair64_def)

lemma pair64_ops:
  "pair64 (a AND c) (b AND d) = pair64 a b AND pair64 c d"
  "pair64 (a OR c) (b OR d) = pair64 a b OR pair64 c d"
  by (rule bit_word_eqI; simp add: bit_pair64 bit_simps)+

lemma pair64_half: "pair64 (rotate_extend (bit hi 0) lo) (drop_bit (Suc 0) hi) = drop_bit (Suc 0) (pair64 lo hi)"
proof (rule bit_word_eqI)
  fix n assume "n < LENGTH(64)"
  consider "n < 31" | "n = 31" | "32 \<le> n" by arith
  then show "bit (pair64 (rotate_extend (bit hi 0) lo) (drop_bit (Suc 0) hi)) n = bit (drop_bit (Suc 0) (pair64 lo hi)) n"
  proof cases
    case 3
    then have "n - 31 = Suc (n - 32)" by simp
    with 3 show ?thesis by (auto simp: rotate_extend_def bit_pair64 bit_simps dest: bit_imp_le_length)
  qed (auto simp: rotate_extend_def bit_pair64 bit_simps dest: bit_imp_le_length)
qed

lemma pair64_half_zero:
  "rotate_extend (bit hi 0) lo = 0 \<and> drop_bit (Suc 0) hi = 0 \<longleftrightarrow> drop_bit (Suc 0) (pair64 lo hi) = 0"
  using pair64_half [of hi lo] by (metis pair64_0)

lemma uint_pair64: "uint (pair64 lo hi) = uint hi * 4294967296 + uint lo"
  by (simp only: uint_nat unat_pair64) simp

lemma borrow_arith:
  fixes a0 a1 b0 b1 :: int
  assumes "0 \<le> a0" "a0 < 4294967296" "0 \<le> b0" "b0 < 4294967296"
  shows "((a1 - b1 - (if b0 \<le> a0 then 0 else 1)) mod 4294967296) * 4294967296 + (a0 - b0) mod 4294967296 =
    ((a1 * 4294967296 + a0) - (b1 * 4294967296 + b0)) mod 18446744073709551616"
proof -
  define k where "k = (if b0 \<le> a0 then 0 else 1 :: int)"
  have r: "(a0 - b0) mod 4294967296 = a0 - b0 + k * 4294967296"
  proof (cases "b0 \<le> a0")
    case True
    then show ?thesis using assms by (simp add: k_def mod_pos_pos_trivial)
  next
    case False
    have "(a0 - b0) mod 4294967296 = (a0 - b0 + 4294967296) mod 4294967296" by simp
    also have "\<dots> = a0 - b0 + 4294967296" using False assms by (intro mod_pos_pos_trivial) simp_all
    finally show ?thesis using False by (simp add: k_def)
  qed
  define q where "q = (a1 - b1 - k) div 4294967296"
  have d: "a1 - b1 - k = q * 4294967296 + (a1 - b1 - k) mod 4294967296" by (simp add: q_def)
  have m: "0 \<le> (a1 - b1 - k) mod 4294967296" "(a1 - b1 - k) mod 4294967296 < 4294967296" by simp_all
  define x where "x = (a1 - b1 - k) mod 4294967296 * 4294967296 + (a0 - b0 + k * 4294967296)"
  have "(a1 * 4294967296 + a0) - (b1 * 4294967296 + b0) = x + q * 18446744073709551616"
    using d by (simp add: x_def algebra_simps)
  then have "((a1 * 4294967296 + a0) - (b1 * 4294967296 + b0)) mod 18446744073709551616 = x mod 18446744073709551616"
    by (simp only: mod_mult_self1)
  moreover have "0 \<le> x" "x < 18446744073709551616"
    using m assms unfolding k_def x_def by (cases "b0 \<le> a0"; simp; linarith)+
  ultimately show ?thesis unfolding r k_def [symmetric] x_def [symmetric] by (simp only: mod_pos_pos_trivial)
qed

lemma pair64_diff:
  "pair64 (difference a0 b0 0) (difference a1 b1 (if unat b0 \<le> unat a0 then 0 else 1)) = pair64 a0 a1 - pair64 b0 b1"
proof -
  have le: "unat b0 \<le> unat a0 \<longleftrightarrow> uint b0 \<le> uint a0" by (simp flip: word_le_def word_le_nat_alt)
  have b: "uint x < 4294967296" for x :: u32
  proof -
    have "uint x < 2 ^ LENGTH(32)" by (rule unsigned_less)
    then show ?thesis by simp
  qed
  have d0: "uint (x - y) = (uint x - uint y) mod 4294967296" for x y :: u32 by (simp add: uint_word_ariths)
  have d1: "uint (difference a1 b1 (if unat b0 \<le> unat a0 then 0 else 1)) =
      (uint a1 - uint b1 - (if uint b0 \<le> uint a0 then 0 else 1)) mod 4294967296"
  proof (cases "uint b0 \<le> uint a0")
    case True
    then show ?thesis using d0 [of a1 b1] le by (simp add: difference_def)
  next
    case False
    have "uint (a1 - b1 - 1) = ((uint a1 - uint b1) mod 4294967296 - 1) mod 4294967296" using d0 [of "a1 - b1" 1] d0 [of a1 b1] by simp
    also have "\<dots> = (uint a1 - uint b1 - 1) mod 4294967296" by (rule mod_diff_left_eq)
    finally show ?thesis using False le by (simp add: difference_def)
  qed
  have "uint (pair64 (difference a0 b0 0) (difference a1 b1 (if unat b0 \<le> unat a0 then 0 else 1))) =
      (uint (pair64 a0 a1) - uint (pair64 b0 b1)) mod 18446744073709551616"
    unfolding uint_pair64 d1 using borrow_arith [of "uint a0" "uint b0" "uint a1" "uint b1"] b [of a0] b [of b0] d0 [of a0 b0]
    by (simp add: difference_def del: if_split)
  also have "\<dots> = uint (pair64 a0 a1 - pair64 b0 b1)" by (simp add: uint_word_ariths)
  finally show ?thesis by (simp only: word_uint_eq_iff)
qed

lemma pair64_le: "pair64 b0 b1 \<le> pair64 a0 a1 \<longleftrightarrow> (if a1 = b1 then unat b0 \<le> unat a0 else unat b1 \<le> unat a1)"
proof -
  have "unat b1 * 4294967296 + unat b0 \<le> unat a1 * 4294967296 + unat a0 \<longleftrightarrow>
      (if unat a1 = unat b1 then unat b0 \<le> unat a0 else unat b1 \<le> unat a1)"
  proof (cases "unat a1" "unat b1" rule: linorder_cases)
    case less
    with unat_u32_less [of a0] have "unat a1 * 4294967296 + unat a0 < unat b1 * 4294967296 + unat b0" by linarith
    with less show ?thesis by simp
  next
    case greater
    with unat_u32_less [of b0] have "unat b1 * 4294967296 + unat b0 \<le> unat a1 * 4294967296 + unat a0" by linarith
    with greater show ?thesis by simp
  qed simp
  then show ?thesis by (simp add: word_le_nat_alt unat_pair64 word_unat_eq_iff)
qed

lemma pair64_push:
  assumes "n < 64"
  shows "pair64 (push_bit n lo) (if n < 32 then push_bit n hi OR drop_bit (32 - n) lo else push_bit (n - 32) lo) = push_bit n (pair64 lo hi)"
  using assms by (intro bit_word_eqI) (auto simp: bit_pair64 bit_simps ac_simps dest: bit_imp_le_length)

lemma pair64_drop:
  assumes "n < 64"
  shows "pair64 (if n < 32 then drop_bit n lo OR push_bit (32 - n) hi else drop_bit (n - 32) hi) (drop_bit n hi) = drop_bit n (pair64 lo hi)"
  using assms by (intro bit_word_eqI) (auto simp: bit_pair64 bit_simps ac_simps dest: bit_imp_le_length)


section \<open>The blocks of the loop\<close>

lemmas value_defs = va_def vb_def vc_def vd_def
lemmas arm_defs = Let_def set_reg_def set_nz_def logical_def set_difference_def set_sum_def

lemma set_reg_simps [simp]:
  "reg (set_reg r x s) q = (if q = r then x else reg s q)" "stack (set_reg r x s) = stack s"
  "flag_n (set_reg r x s) = flag_n s" "flag_z (set_reg r x s) = flag_z s" "flag_c (set_reg r x s) = flag_c s"
  by (simp_all add: set_reg_def)

lemma flags_simps [simp]:
  "reg (logical x c s) = reg s" "stack (logical x c s) = stack s"
  "flag_n (logical x c s) = bit x 31" "flag_z (logical x c s) = (x = 0)" "flag_c (logical x c s) = c"
  "reg (set_difference x y k s) = reg s" "stack (set_difference x y k s) = stack s"
  "flag_n (set_difference x y k s) = bit (difference x y k) 31" "flag_z (set_difference x y k s) = (difference x y k = 0)"
  "flag_c (set_difference x y k s) = (unat y + k \<le> unat x)"
  "reg (set_sum x y s) = reg s" "stack (set_sum x y s) = stack s"
  by (simp_all add: arm_defs)

lemma difference_simps [simp]: "difference x y 0 = x - y" "difference x y (Suc 0) = x - y - 1"
  by (simp_all add: difference_def)

lemma or_zero [simp]: "(x :: u32) OR y = 0 \<longleftrightarrow> x = 0 \<and> y = 0"
  by (rule or_eq_0_iff)

lemma exec_subtract:
  assumes "vb s \<le> va s"
  shows "\<exists>s'. exec K subtract_code s = Fall s' \<and> stack s' = stack s \<and>
    vb s' = vb s \<and> vc s' = vc s \<and> va s' = va s - vb s \<and> vd s' = vd s OR vc s"
  using assms pair64_diff [of "reg s A_0" "reg s B_0" "reg s A_1" "reg s B_1"]
  by (simp add: subtract_code_def value_defs borrow_def pair64_ops pair64_le split: if_splits)

lemma exec_no_subtract:
  assumes "\<not> vb s \<le> va s"
  shows "\<exists>s'. exec K subtract_code s = Goto L_update s' \<and> stack s' = stack s \<and>
    vb s' = vb s \<and> vc s' = vc s \<and> va s' = va s \<and> vd s' = vd s"
  using assms by (auto simp: subtract_code_def value_defs pair64_le split: if_splits)

lemma exec_update_exit:
  assumes "va s = 0 \<or> drop_bit 1 (vc s) = 0"
  shows "\<exists>s'. exec K update_code s = Goto L_exit s' \<and> stack s' = stack s \<and> va s' = va s \<and> vd s' = vd s"
proof (cases "va s = 0")
  case True
  then show ?thesis by (simp add: update_code_def value_defs)
next
  case False
  with assms have "rotate_extend (bit (reg s C_1) 0) (reg s C_0) = 0" "drop_bit (Suc 0) (reg s C_1) = 0"
    using pair64_half_zero [of "reg s C_1" "reg s C_0"] by (auto simp: value_defs)
  with False show ?thesis by (auto simp: update_code_def value_defs shift_right_def)
qed

lemma exec_update_loop:
  assumes "va s \<noteq> 0" and "drop_bit 1 (vc s) \<noteq> 0"
  shows "\<exists>s'. exec K update_code s = Goto L_subtract s' \<and> stack s' = stack s \<and> va s' = va s \<and> vd s' = vd s \<and>
    vc s' = drop_bit 1 (vc s) \<and> vb s' = drop_bit 1 (vb s)"
proof -
  have "drop_bit (Suc 0) (reg s C_1) \<noteq> 0 \<or> rotate_extend (bit (reg s C_1) 0) (reg s C_0) \<noteq> 0"
    using assms(2) pair64_half_zero [of "reg s C_1" "reg s C_0"] by (auto simp: value_defs)
  with assms(1) show ?thesis by (auto simp: update_code_def value_defs shift_right_def pair64_half)
qed


lemma exec_done_shift:
  "\<exists>s'. exec K done_shift_code s = Fall s' \<and> stack s' = stack s \<and> va s' = va s \<and> vb s' = vb s \<and> vc s' = vc s \<and> vd s' = 0"
  by (simp add: done_shift_code_def value_defs)

section \<open>Returning\<close>

text \<open>What the routine has pushed since \<open>s0\<close>, and what it owes its caller: the result, and the registers and the stack of \<open>s0\<close>.\<close>

definition frame :: "arm \<Rightarrow> arm \<Rightarrow> bool" where
  "frame s0 s \<longleftrightarrow> stack s = map (reg s0) (saved @ [LR]) @ stack s0"

definition returns :: "arm \<Rightarrow> nat \<Rightarrow> nat \<Rightarrow> (u32 \<times> arm) option \<Rightarrow> bool" where
  "returns s0 q r res \<longleftrightarrow>
     (\<exists>s. res = Some (reg s0 LR, s) \<and> unat (va s) = q \<and> unat (vb s) = r \<and>
       (\<forall>x\<in>set saved. reg s x = reg s0 x) \<and> stack s = stack s0)"

lemma run_return:
  assumes "exec K (code l) s = Return ra s'"
  shows "run_blocks (Suc n) K code next l s = Some (ra, s')"
  using assms by simp

lemma exec_pop_return:
  assumes "frame s0 s"
  shows "\<exists>s'. exec K [Pop_return saved] s = Return (reg s0 LR) s' \<and> va s' = va s \<and> vb s' = vb s \<and>
    (\<forall>x\<in>set saved. reg s' x = reg s0 x) \<and> stack s' = stack s0"
  using assms by (simp add: frame_def saved_def value_defs Let_def)

lemma run_exit:
  assumes "frame s0 s" and "unat (vd s) = q" and "unat (va s) = r"
  shows "returns s0 q r (run_blocks (Suc n) K uldivmod_code next_label L_exit s)"
  using assms by (simp add: returns_def exit_code_def frame_def saved_def value_defs Let_def)

section \<open>The loop\<close>

text \<open>
  \<open>B\<close> is the divisor shifted by \<open>k\<close>, \<open>C\<close> the bit of the quotient it stands for; \<open>D\<close> has the bits above, \<open>A\<close> what is left.
\<close>

definition dividing :: "nat \<Rightarrow> nat \<Rightarrow> nat \<Rightarrow> arm \<Rightarrow> bool" where
  "dividing a b k s \<longleftrightarrow>
     unat (vb s) = b * 2 ^ k \<and> unat (vc s) = 2 ^ k \<and> k < 64 \<and>
     unat (va s) < 2 * (b * 2 ^ k) \<and> unat (vd s) * b + unat (va s) = a \<and> 2 ^ Suc k dvd unat (vd s)"

lemma nat_or_disjoint:
  assumes "2 ^ Suc k dvd (d :: nat)"
  shows "d OR 2 ^ k = d + 2 ^ k"
proof -
  obtain m where "d = push_bit (Suc k) m" using assms by (auto simp: push_bit_eq_mult mult.commute)
  then have "d AND 2 ^ k = 0" by (intro bit_eqI) (auto simp: bit_simps bit_0)
  then show ?thesis by (simp add: disjunctive_add_eq_or)
qed

lemma drop_bit_unat: "unat (drop_bit (Suc 0) (w :: u64)) = unat w div 2"
proof -
  have "unat (drop_bit (Suc 0) w) = drop_bit (Suc 0) (unat w)"
    by (intro bit_eqI) (auto simp: bit_simps dest: bit_imp_le_length)
  then show ?thesis by (simp add: drop_bit_Suc)
qed

lemma unat_push: "unat (w :: u64) * 2 ^ k < 2 ^ 64 \<Longrightarrow> unat (push_bit k w) = unat w * 2 ^ k"
  unfolding unsigned_push_bit_eq by (simp add: push_bit_eq_mult take_bit_nat_eq_self)

lemma unat_or: "unat ((x :: u64) OR y) = unat x OR unat y"
  by (rule unsigned_or_eq)

lemma dvd_half_power: "2 ^ Suc k dvd (d :: nat) \<Longrightarrow> 2 ^ k dvd d"
  by (rule dvd_trans [of _ "2 ^ Suc k"]) simp_all

text \<open>One round up to the decision to leave: the bit is set or not, and the remainder gets smaller than the shifted divisor.\<close>

lemma dividing_subtract:
  assumes "dividing a b k s"
  shows "\<exists>s' d. (exec K subtract_code s = Fall s' \<or> exec K subtract_code s = Goto L_update s') \<and> stack s' = stack s \<and>
    vb s' = vb s \<and> vc s' = vc s \<and> unat (va s') < b * 2 ^ k \<and> vd s' = d \<and> unat d * b + unat (va s') = a \<and> 2 ^ k dvd unat d"
proof (cases "vb s \<le> va s")
  case True
  from exec_subtract [OF True] obtain s' where
    e: "exec K subtract_code s = Fall s'" "stack s' = stack s" "vb s' = vb s" "vc s' = vc s" "va s' = va s - vb s" "vd s' = vd s OR vc s"
    by blast
  have d: "unat (vd s OR vc s) = unat (vd s) + 2 ^ k"
    using assms by (simp only: dividing_def unat_or nat_or_disjoint)
  have "unat (va s') = unat (va s) - b * 2 ^ k" using True assms e(5) by (simp add: unat_sub dividing_def)
  moreover have "b * 2 ^ k \<le> unat (va s)" using True assms by (simp add: word_le_nat_alt dividing_def)
  moreover have "2 ^ k dvd unat (vd s)" using assms dvd_half_power by (simp only: dividing_def)
  ultimately show ?thesis using e(1-4,6) d assms by (auto simp: dividing_def algebra_simps)
next
  case False
  from exec_no_subtract [OF False] obtain s' where
    "exec K subtract_code s = Goto L_update s'" "stack s' = stack s" "vb s' = vb s" "vc s' = vc s" "va s' = va s" "vd s' = vd s"
    by blast
  moreover have "unat (va s) < b * 2 ^ k" using False assms by (simp add: word_le_nat_alt dividing_def)
  moreover have "2 ^ k dvd unat (vd s)" using assms dvd_half_power by (simp only: dividing_def)
  ultimately show ?thesis using assms by (auto simp: dividing_def)
qed

lemma div_mod_unique:
  assumes "q * b + r = (a :: nat)" and "r < b"
  shows "q = a div b" "r = a mod b"
  using assms by (auto simp: mult.commute)

text \<open>A round: the subtraction, and then leaving or going on.\<close>

lemma run_round:
  assumes "dividing a b k s" and "frame s0 s"
  obtains s1 where "\<And>m. run_blocks (Suc m) K uldivmod_code next_label L_subtract s = run_blocks m K uldivmod_code next_label L_update s1"
    and "frame s0 s1" "vb s1 = vb s" "vc s1 = vc s"
    and "unat (va s1) < b * 2 ^ k" "unat (vd s1) * b + unat (va s1) = a" "2 ^ k dvd unat (vd s1)"
proof -
  obtain s1 where s1: "exec K subtract_code s = Fall s1 \<or> exec K subtract_code s = Goto L_update s1" "stack s1 = stack s"
      "vb s1 = vb s" "vc s1 = vc s"
      "unat (va s1) < b * 2 ^ k" "unat (vd s1) * b + unat (va s1) = a" "2 ^ k dvd unat (vd s1)"
    using dividing_subtract [OF assms(1), of K] by auto
  have "frame s0 s1" using assms(2) s1(2) by (simp add: frame_def)
  with s1 that [of s1] show ?thesis by auto
qed

lemma run_leave:
  assumes "frame s0 s" and "va s = 0 \<or> drop_bit 1 (vc s) = 0" and "unat (vd s) * b + unat (va s) = a" and "unat (va s) < b"
  shows "returns s0 (a div b) (a mod b) (run_blocks (Suc (Suc n)) K uldivmod_code next_label L_update s)"
proof -
  obtain s1 where s1: "exec K update_code s = Goto L_exit s1" "stack s1 = stack s" "va s1 = va s" "vd s1 = vd s"
    using exec_update_exit [OF assms(2), of K] by blast
  have "frame s0 s1" using assms(1) s1(2) by (simp add: frame_def)
  from run_exit [OF this, of "a div b" "a mod b" n K] show ?thesis using div_mod_unique [OF assms(3,4)] s1 by simp
qed

lemma run_loop:
  assumes "dividing a b k s" and "frame s0 s"
  shows "returns s0 (a div b) (a mod b) (run_blocks (Suc (2 * Suc k + n)) K uldivmod_code next_label L_subtract s)"
  using assms
proof (induction k arbitrary: s n)
  case 0
  from run_round [OF 0, of K] obtain s1 where
    s1: "\<And>m. run_blocks (Suc m) K uldivmod_code next_label L_subtract s = run_blocks m K uldivmod_code next_label L_update s1"
    "frame s0 s1" "vc s1 = vc s" "unat (va s1) < b" "unat (vd s1) * b + unat (va s1) = a" by auto
  have "unat (drop_bit 1 (vc s1)) = 0" using 0(1) s1(3) by (simp add: drop_bit_unat dividing_def)
  then have "drop_bit 1 (vc s1) = 0" by (simp only: unat_eq_0)
  with run_leave [OF s1(2) _ s1(5,4), of n K] show ?case by (simp add: s1(1) del: run_blocks.simps)
next
  case (Suc k)
  from run_round [OF Suc.prems, of K] obtain s1 where
    s1: "\<And>m. run_blocks (Suc m) K uldivmod_code next_label L_subtract s = run_blocks m K uldivmod_code next_label L_update s1"
    "frame s0 s1" "vb s1 = vb s" "vc s1 = vc s"
    "unat (va s1) < b * 2 ^ Suc k" "unat (vd s1) * b + unat (va s1) = a" "2 ^ Suc k dvd unat (vd s1)" by blast
  show ?case
  proof (cases "va s1 = 0")
    case True
    then have "unat (va s1) < b" using s1(5) by (cases b) simp_all
    with run_leave [OF s1(2) _ s1(6) this, of "Suc (Suc (2 * k + n))" K] True show ?thesis by (simp add: s1(1) del: run_blocks.simps)
  next
    case False
    have "unat (drop_bit 1 (vc s1)) = 2 ^ k" using Suc.prems(1) s1(4) by (simp add: drop_bit_unat dividing_def)
    then have "drop_bit 1 (vc s1) \<noteq> 0" by auto
    then obtain s2 where s2: "exec K update_code s1 = Goto L_subtract s2" "stack s2 = stack s1" "va s2 = va s1" "vd s2 = vd s1"
        "vc s2 = drop_bit 1 (vc s1)" "vb s2 = drop_bit 1 (vb s1)"
      using exec_update_loop [OF False, of K] by blast
    have "dividing a b k s2" using Suc.prems(1) s1 s2 by (simp add: dividing_def drop_bit_unat ac_simps)
    moreover have "frame s0 s2" using s1(2) s2(2) by (simp add: frame_def)
    ultimately have "returns s0 (a div b) (a mod b) (run_blocks (Suc (2 * Suc k + n)) K uldivmod_code next_label L_subtract s2)"
      by (rule Suc.IH)
    moreover have "run_blocks (Suc (Suc m)) K uldivmod_code next_label L_subtract s = run_blocks m K uldivmod_code next_label L_subtract s2" for m
      unfolding s1(1) by (simp add: s2(1))
    ultimately show ?thesis by (simp del: run_blocks.simps)
  qed
qed

section \<open>Counting leading zeros\<close>

lemma clz_0: "clz 0 = 32"
  by code_simp

lemma clz_bits:
  assumes "x \<noteq> 0"
  shows "clz x < 32" and "bit x (31 - clz x)" and "\<And>j. 31 - clz x < j \<Longrightarrow> \<not> bit x j"
proof -
  let ?P = "\<lambda>i. \<not> bit x i" and ?xs = "rev [0..<32]"
  obtain i where "bit x i" using assms by (metis bit_word_eqI zero_eq_power2 bit_0_eq bot_apply bot_bool_def)
  then have "i < 32" "\<not> ?P i" by (auto dest: bit_imp_le_length)
  then have "takeWhile ?P ?xs \<noteq> ?xs" by (auto simp: takeWhile_eq_all_conv)
  then have l: "length (takeWhile ?P ?xs) < 32"
    using length_takeWhile_le [of ?P ?xs] takeWhile_eq_take [of ?P ?xs] by (metis diff_zero le_neq_implies_less length_rev length_upt take_all)
  then show "clz x < 32" by (simp add: clz_def)
  from nth_length_takeWhile [of ?P ?xs] l show "bit x (31 - clz x)" by (simp add: clz_def rev_nth)
  fix j assume j: "31 - clz x < j"
  show "\<not> bit x j"
  proof (cases "j < 32")
    case True
    with j l have m: "31 - j < length (takeWhile ?P ?xs)" by (simp add: clz_def)
    then have "?P (takeWhile ?P ?xs ! (31 - j))" using nth_mem set_takeWhileD by metis
    with m True show ?thesis by (simp add: takeWhile_nth rev_nth)
  qed (auto dest: bit_imp_le_length)
qed

lemma clz_bounds:
  assumes "x \<noteq> 0"
  shows "2 ^ (31 - clz x) \<le> unat x" and "unat x < 2 ^ (32 - clz x)"
proof -
  note c = clz_bits [OF assms]
  have b: "bit (unat x) j \<longleftrightarrow> bit x j" for j by (auto simp: bit_simps dest: bit_imp_le_length)
  have "odd (unat x div 2 ^ (31 - clz x))" using c(2) b [of "31 - clz x"] by (simp add: bit_iff_odd)
  then have "unat x div 2 ^ (31 - clz x) \<noteq> 0" by (metis even_zero)
  then show "2 ^ (31 - clz x) \<le> unat x" by (simp add: div_eq_0_iff)
  have "take_bit (32 - clz x) (unat x) = unat x"
  proof (rule bit_eqI)
    fix n
    have "n < 32 - clz x" if "bit x n" using c(1) c(3) [of n] that by linarith
    then show "bit (take_bit (32 - clz x) (unat x)) n = bit (unat x) n" by (auto simp: bit_take_bit_iff b)
  qed
  then show "unat x < 2 ^ (32 - clz x)" by (simp add: take_bit_nat_eq_self_iff)
qed

text \<open>The count for a pair: that of the high word, and that of the low word if the high word is zero.\<close>

definition clz2 :: "u32 \<Rightarrow> u32 \<Rightarrow> nat" where
  "clz2 lo hi = (if hi = 0 then 32 + clz lo else clz hi)"

lemma clz2_0: "clz2 0 0 = 64"
  by (simp add: clz2_def clz_0)

lemma clz2_less: "pair64 lo hi \<noteq> 0 \<Longrightarrow> clz2 lo hi < 64"
  using clz_bits(1) [of lo] clz_bits(1) [of hi] by (auto simp: clz2_def)

lemma clz2_bounds:
  assumes "pair64 lo hi \<noteq> 0"
  shows "2 ^ (63 - clz2 lo hi) \<le> unat (pair64 lo hi)" and "unat (pair64 lo hi) < 2 ^ (64 - clz2 lo hi)"
proof -
  have "2 ^ (63 - clz2 lo hi) \<le> unat (pair64 lo hi) \<and> unat (pair64 lo hi) < 2 ^ (64 - clz2 lo hi)"
  proof (cases "hi = 0")
    case True
    with assms have "lo \<noteq> 0" by simp
    from clz_bounds [OF this] True show ?thesis by (simp add: clz2_def unat_pair64)
  next
    case False
    note b = clz_bounds [OF False] and l = clz_bits(1) [OF False]
    have p: "2 ^ (63 - clz hi) = 2 ^ (31 - clz hi) * (2 ^ 32 :: nat)" "2 ^ (64 - clz hi) = 2 ^ (32 - clz hi) * (2 ^ 32 :: nat)"
      using l by (simp_all only: power_add [symmetric]) simp_all
    have "unat hi * 2 ^ 32 + unat lo < 2 ^ (32 - clz hi) * 2 ^ 32"
    proof -
      have "x * 4294967296 + y < p * 4294967296" if "x < p" "y < 4294967296" for x y p :: nat using that by linarith
      from this [OF b(2) unat_u32_less] show ?thesis by simp
    qed
    moreover have "2 ^ (31 - clz hi) * 2 ^ 32 \<le> unat hi * 2 ^ 32 + unat lo"
      using b(1) mult_le_mono1 [of "2 ^ (31 - clz hi)" "unat hi" "2 ^ 32"] by simp
    ultimately show ?thesis using False by (simp only: clz2_def p unat_pair64 if_False)
  qed
  then show "2 ^ (63 - clz2 lo hi) \<le> unat (pair64 lo hi)" "unat (pair64 lo hi) < 2 ^ (64 - clz2 lo hi)" by simp_all
qed


section \<open>Aligning the divisor\<close>

definition align_count :: "(label, callee) instr list" where
  "align_count = take 12 align_code"

definition align_shift :: "(label, callee) instr list" where
  "align_shift = drop 12 align_code"

lemma exec_append: "exec K (xs @ ys) s = (case exec K xs s of Fall s' \<Rightarrow> exec K ys s' | res \<Rightarrow> res)"
proof (induction K xs s rule: exec.induct)
  case (2 K c f upd d n x "is" s)
  then show ?case by (simp add: split_beta Let_def)
qed (simp_all add: Let_def)

lemma exec_align: "exec K align_code s = (case exec K align_count s of Fall s' \<Rightarrow> exec K align_shift s' | res \<Rightarrow> res)"
proof -
  have a: "align_code = align_count @ align_shift" by (simp only: align_count_def align_shift_def append_take_drop_id)
  show ?thesis by (subst a) (rule exec_append)
qed

lemma unat_small: "n < 2 ^ 32 \<Longrightarrow> unat (of_nat n :: u32) = n"
  by (simp add: unat_of_nat)

lemma exec_align_count:
  assumes "za = clz2 (reg s A_0) (reg s A_1)" and "zb = clz2 (reg s B_0) (reg s B_1)"
  shows "\<exists>s'. exec K align_count s = (if zb \<le> za then Goto L_done_shift s' else Fall s') \<and> stack s' = stack s \<and>
    va s' = va s \<and> vb s' = vb s \<and> reg s' C_0 = 1 \<and> reg s' C_1 = 0 \<and> reg s' D_0 = of_nat zb - of_nat za"
proof -
  have c: "clz x \<le> 32" for x using clz_bits(1) [of x] clz_0 by (cases "x = 0") simp_all
  have l: "za \<le> 64" "zb \<le> 64"
    using assms c [of "reg s A_0"] c [of "reg s A_1"] c [of "reg s B_0"] c [of "reg s B_1"] by (simp_all add: clz2_def)
  have d: "of_nat (clz (reg s A_1)) + (if reg s A_1 = 0 then of_nat (clz (reg s A_0)) else 0) = (of_nat za :: u32)"
    "of_nat (clz (reg s B_1)) + (if reg s B_1 = 0 then of_nat (clz (reg s B_0)) else 0) = (of_nat zb :: u32)"
    using assms by (simp_all add: clz2_def clz_0)
  have u: "unat (of_nat za :: u32) = za" "unat (of_nat zb :: u32) = zb" using l by (simp_all add: unat_small)
  have e: "(of_nat zb :: u32) = of_nat za \<longleftrightarrow> zb = za" using u by (metis)
  show ?thesis
    using d u e by (cases "reg s A_1 = 0"; cases "reg s B_1 = 0")
      (auto simp: align_count_def align_code_def value_defs)
qed

lemma shift_counts:
  assumes "k < 64"
  shows "bit (of_nat k - 32 :: u32) 31 \<longleftrightarrow> k < 32" and "unat ((of_nat k :: u32) AND 0xff) = k"
    and "32 \<le> k \<Longrightarrow> unat ((of_nat k - 32 :: u32) AND 0xff) = k - 32" and "k < 32 \<Longrightarrow> unat ((32 - of_nat k :: u32) AND 0xff) = 32 - k"
proof -
  have "\<forall>k\<in>set [0..<64]. (bit (of_nat k - 32 :: u32) 31 \<longleftrightarrow> k < 32) \<and> unat ((of_nat k :: u32) AND 0xff) = k \<and>
      (32 \<le> k \<longrightarrow> unat ((of_nat k - 32 :: u32) AND 0xff) = k - 32) \<and> (k < 32 \<longrightarrow> unat ((32 - of_nat k :: u32) AND 0xff) = 32 - k)"
    by code_simp
  with assms show "bit (of_nat k - 32 :: u32) 31 \<longleftrightarrow> k < 32" "unat ((of_nat k :: u32) AND 0xff) = k"
    "32 \<le> k \<Longrightarrow> unat ((of_nat k - 32 :: u32) AND 0xff) = k - 32" "k < 32 \<Longrightarrow> unat ((32 - of_nat k :: u32) AND 0xff) = 32 - k"
    by auto
qed

lemma exec_align_shift:
  assumes "reg s D_0 = of_nat k" and "k < 64"
  shows "\<exists>s'. exec K align_shift s = Fall s' \<and> stack s' = stack s \<and>
    va s' = va s \<and> vb s' = push_bit k (vb s) \<and> vc s' = push_bit k (vc s)"
proof -
  note n = shift_counts [OF assms(2)]
  show ?thesis
    using n assms pair64_push [OF assms(2), of "reg s B_0" "reg s B_1"] pair64_push [OF assms(2), of "reg s C_0" "reg s C_1"]
    by (cases "k < 32") (auto simp: align_shift_def align_code_def value_defs shift_left_def shift_right_def)
qed


text \<open>After the alignment the state is that of the loop.\<close>

lemma run_done_shift:
  assumes "frame s0 s" and "unat (vb s) = b * 2 ^ k" and "unat (vc s) = 2 ^ k" and "k < 64" and "unat (va s) = a" and "a < 2 * (b * 2 ^ k)"
  shows "returns s0 (a div b) (a mod b) (run_blocks (130 + n) K uldivmod_code next_label L_done_shift s)"
proof -
  obtain s1 where s1: "exec K done_shift_code s = Fall s1" "stack s1 = stack s" "va s1 = va s" "vb s1 = vb s" "vc s1 = vc s" "vd s1 = 0"
    using exec_done_shift [of K s] by blast
  have "dividing a b k s1" using s1 assms by (simp add: dividing_def)
  moreover have "frame s0 s1" using s1 assms(1) by (simp add: frame_def)
  ultimately have "returns s0 (a div b) (a mod b) (run_blocks (Suc (2 * Suc k + (126 - 2 * k + n))) K uldivmod_code next_label L_subtract s1)"
    by (rule run_loop)
  moreover have "Suc (2 * Suc k + (126 - 2 * k + n)) = 129 + n" using assms(4) by simp
  moreover have "130 + n = Suc (129 + n)" by simp
  ultimately show ?thesis using s1(1) by (simp only: run_blocks.simps uldivmod_code.simps next_label.simps option.case outcome.case)
qed

lemma pair_bounds:
  fixes lo hi :: u32
  defines "z \<equiv> clz2 lo hi"
  shows "unat (pair64 lo hi) < 2 ^ (64 - z)" and "z \<le> 64"
proof -
  have "unat (pair64 lo hi) < 2 ^ (64 - z) \<and> z \<le> 64"
  proof (cases "pair64 lo hi = 0")
    case True
    then show ?thesis by (simp add: z_def clz2_0 unat_pair64)
  next
    case False
    with clz2_bounds(2) [of lo hi] clz2_less [of lo hi] show ?thesis by (simp add: z_def)
  qed
  then show "unat (pair64 lo hi) < 2 ^ (64 - z)" "z \<le> 64" by simp_all
qed

text \<open>With as many zeros as the dividend, or fewer if it has more, the shifted divisor fits and is more than half the dividend.\<close>

lemma align_arith:
  fixes a b :: nat
  assumes "2 ^ (63 - zb) \<le> b" and "b < 2 ^ (64 - zb)" and "zb < 64" and "a < 2 ^ (64 - za)"
  defines "k \<equiv> zb - za"
  shows "b * 2 ^ k < 2 ^ 64" and "a < 2 * (b * 2 ^ k)"
proof -
  have "b * 2 ^ k < 2 ^ (64 - zb) * 2 ^ k" using assms(2) by simp
  also have "\<dots> \<le> 2 ^ 64" using assms(3) by (simp only: power_add [symmetric]) (intro power_increasing, simp_all add: k_def)
  finally show "b * 2 ^ k < 2 ^ 64" .
  have "64 - zb = Suc (63 - zb)" using assms(3) by simp
  then have half: "2 ^ (64 - zb) = 2 * (2 ^ (63 - zb) :: nat)" by simp
  have "a < 2 ^ (64 - zb) * 2 ^ k"
  proof -
    have "(2 :: nat) ^ (64 - za) \<le> 2 ^ (64 - zb + k)" using assms(3) by (intro power_increasing) (simp_all add: k_def)
    with assms(4) show ?thesis by (simp add: power_add)
  qed
  also have "\<dots> \<le> 2 * b * 2 ^ k" using assms(1) half by simp
  finally show "a < 2 * (b * 2 ^ k)" by simp
qed

lemma run_align:
  assumes "frame s0 s" and "vb s \<noteq> 0"
  shows "returns s0 (unat (va s) div unat (vb s)) (unat (va s) mod unat (vb s)) (run_blocks (131 + n) K uldivmod_code next_label L_div_64_64 s)"
proof -
  define za where "za = clz2 (reg s A_0) (reg s A_1)"
  define zb where "zb = clz2 (reg s B_0) (reg s B_1)"
  define k where "k = zb - za"
  let ?a = "unat (va s)" and ?b = "unat (vb s)"
  have "131 + n = Suc (130 + n)" by simp
  then have run: "run_blocks (131 + n) K uldivmod_code next_label L_div_64_64 s =
      (case exec K align_code s of Fall t \<Rightarrow> run_blocks (130 + n) K uldivmod_code next_label L_done_shift t
        | Goto l t \<Rightarrow> run_blocks (130 + n) K uldivmod_code next_label l t | Return ra t \<Rightarrow> Some (ra, t) | Fault \<Rightarrow> None)"
    by (simp only: run_blocks.simps uldivmod_code.simps next_label.simps option.case)
  have b: "2 ^ (63 - zb) \<le> ?b" "?b < 2 ^ (64 - zb)" "zb < 64"
    using clz2_bounds [of "reg s B_0" "reg s B_1"] clz2_less [of "reg s B_0" "reg s B_1"] assms(2) by (simp_all add: zb_def vb_def)
  have "?a < 2 ^ (64 - za)" using pair_bounds(1) [of "reg s A_0" "reg s A_1"] by (simp add: va_def za_def)
  note fits = align_arith [OF b this, folded k_def]
  have k: "k < 64" using b(3) by (simp add: k_def)
  obtain s1 where s1: "exec K align_count s = (if zb \<le> za then Goto L_done_shift s1 else Fall s1)" "stack s1 = stack s" "va s1 = va s" "vb s1 = vb s"
      "reg s1 C_0 = 1" "reg s1 C_1 = 0" "reg s1 D_0 = of_nat zb - of_nat za"
    using exec_align_count [OF za_def zb_def, of K] by blast
  have c: "vc s1 = 1" using s1 by (simp add: vc_def pair64_def)
  have f: "frame s0 s1" using s1 assms(1) by (simp add: frame_def)
  show ?thesis
  proof (cases "zb \<le> za")
    case True
    then show ?thesis using run_done_shift [OF f _ _ k, of ?b ?a n K] fits(2) s1 c by (simp add: run exec_align k_def)
  next
    case False
    then have "reg s1 D_0 = of_nat k" using s1(7) by (simp add: k_def of_nat_diff)
    from exec_align_shift [OF this k, of K] obtain s2 where
      s2: "exec K align_shift s1 = Fall s2" "stack s2 = stack s1" "va s2 = va s1" "vb s2 = push_bit k (vb s1)" "vc s2 = push_bit k (vc s1)" by blast
    have "unat (push_bit k (vb s)) = ?b * 2 ^ k" using fits(1) by (rule unat_push)
    moreover have "unat (push_bit k (1 :: u64)) = 2 ^ k" using k power_strict_increasing [of k 64 "2 :: nat"] by (subst unat_push) simp_all
    moreover have "frame s0 s2" using f s2 by (simp add: frame_def)
    ultimately have "returns s0 (?a div ?b) (?a mod ?b) (run_blocks (130 + n) K uldivmod_code next_label L_done_shift s2)"
      using s1 s2 c k fits(2) by (intro run_done_shift [of _ _ _ k]) simp_all
    then show ?thesis using False s1(1) s2(1) by (simp add: run exec_align)
  qed
qed


section \<open>The other paths\<close>

lemma pred_pair64:
  "pair64 (lo - 1) (difference hi 0 (if 1 \<le> unat lo then 0 else 1)) = pair64 lo hi - 1"
proof -
  have "pair64 1 0 = 1" by (simp add: pair64_def)
  then show ?thesis using pair64_diff [of lo 1 hi 0] by simp
qed

definition entry_target :: "arm \<Rightarrow> arm \<Rightarrow> label outcome" where
  "entry_target s0 s =
     (if vb s0 = 0 then Goto L_div_by_0 s
      else if vb s0 AND (vb s0 - 1) = 0 then Goto L_pow2 s
      else if reg s0 A_1 = 0 \<and> reg s0 B_1 = 0 then Goto L_div_32_32 s
      else Fall s)"

lemma exec_entry:
  "\<exists>s. exec K entry_code s0 = entry_target s0 s \<and> frame s0 s \<and>
    (\<forall>x\<in>{A_0, A_1, B_0, B_1}. reg s x = reg s0 x) \<and> (vb s0 \<noteq> 0 \<longrightarrow> vc s = vb s0 - 1)"
proof -
  have c: "reg s0 B_0 AND (reg s0 B_0 - 1) = 0 \<and>
      reg s0 B_1 AND difference (reg s0 B_1) 0 (if 1 \<le> unat (reg s0 B_0) then 0 else 1) = 0 \<longleftrightarrow> vb s0 AND (vb s0 - 1) = 0"
    unfolding vb_def pred_pair64 [symmetric] pair64_ops [symmetric] pair64_0 ..
  show ?thesis
  proof (cases "1 \<le> unat (reg s0 B_0)")
    case True
    with c pred_pair64 [of "reg s0 B_0" "reg s0 B_1"] show ?thesis
      by (auto simp: entry_code_def entry_target_def frame_def saved_def push_def value_defs borrow_def and.commute)
  next
    case False
    with c pred_pair64 [of "reg s0 B_0" "reg s0 B_1"] show ?thesis
      by (auto simp: entry_code_def entry_target_def frame_def saved_def push_def value_defs borrow_def and.commute)
  qed
qed

text \<open>A power of two is what has no bit in common with its predecessor.\<close>

lemma power_of_two:
  assumes "(b :: u64) \<noteq> 0" and "b AND (b - 1) = 0"
  shows "\<exists>k<64. unat b = 2 ^ k"
proof -
  define P where "P = (\<lambda>k. unat b < 2 ^ k)"
  have "P 64" using unat_u64_less [of b] by (simp add: P_def)
  then have l: "P (LEAST k. P k)" and m: "(LEAST k. P k) \<le> 64" by (rule LeastI, rule Least_le)
  have "0 < unat b" using assms(1) by (simp add: unat_gt_0)
  then have "\<not> P 0" by (simp add: P_def)
  then obtain k where k: "(LEAST k. P k) = Suc k" using l by (metis not0_implies_Suc)
  have lo: "2 ^ k \<le> unat b" using not_less_Least [of k P] k by (simp add: P_def)
  have hi: "unat b < 2 * 2 ^ k" using l k by (simp add: P_def)
  have "unat b = 2 ^ k"
  proof (rule ccontr)
    assume "unat b \<noteq> 2 ^ k"
    then have "unat b div 2 ^ k = 1" "(unat b - 1) div 2 ^ k = 1" using lo hi by (auto intro!: div_nat_eqI)
    then have "bit (unat b) k" "bit (unat b - 1) k" by (simp_all add: bit_iff_odd)
    then have "bit (unat b AND (unat b - 1)) k" by (simp add: bit_and_iff)
    moreover have "unat (b AND (b - 1)) = unat b AND (unat b - 1)" using assms(1) by (simp add: unsigned_and_eq unat_minus_one)
    ultimately show False using assms(2) by simp
  qed
  moreover have "k < 64" using m k by simp
  ultimately show ?thesis by blast
qed

lemma clz_power:
  assumes "unat x = 2 ^ k" and "k < 32"
  shows "clz x = 31 - k"
proof -
  have "x \<noteq> 0" using assms(1) by auto
  from clz_bounds [OF this] clz_bits(1) [OF this] assms have "31 - clz x \<le> k" "k < 32 - clz x"
    by (simp_all add: power_strict_increasing_iff power_increasing_iff)
  with assms(2) show ?thesis by linarith
qed

lemma pow2_counts:
  assumes "k < 32"
  shows "\<not> bit (31 - of_nat (31 - k) :: u32) 31" and "unat ((31 - of_nat (31 - k) :: u32) AND 0xff) = k"
    and "unat ((of_nat (31 - k) + 1 :: u32) AND 0xff) = 32 - k" and "unat ((31 - of_nat (31 - k) + 32 :: u32) AND 0xff) = k + 32"
proof -
  have "\<forall>k\<in>set [0..<32]. \<not> bit (31 - of_nat (31 - k) :: u32) 31 \<and> unat ((31 - of_nat (31 - k) :: u32) AND 0xff) = k \<and>
      unat ((of_nat (31 - k) + 1 :: u32) AND 0xff) = 32 - k \<and> unat ((31 - of_nat (31 - k) + 32 :: u32) AND 0xff) = k + 32"
    by code_simp
  with assms show "\<not> bit (31 - of_nat (31 - k) :: u32) 31" "unat ((31 - of_nat (31 - k) :: u32) AND 0xff) = k"
    "unat ((of_nat (31 - k) + 1 :: u32) AND 0xff) = 32 - k" "unat ((31 - of_nat (31 - k) + 32 :: u32) AND 0xff) = k + 32"
    by auto
qed


lemma run_pow2:
  assumes "frame s0 s" and "unat (vb s) = 2 ^ k" and "k < 64" and "vc s = vb s - 1"
  shows "returns s0 (unat (va s) div 2 ^ k) (unat (va s) mod 2 ^ k) (run_blocks (Suc (Suc n)) K uldivmod_code next_label L_pow2 s)"
proof -
  have q: "unat (drop_bit k (va s)) = unat (va s) div 2 ^ k" 
  proof -
    have "unat (drop_bit k (va s)) = drop_bit k (unat (va s))" by (intro bit_eqI) (auto simp: bit_simps dest: bit_imp_le_length)
    then show ?thesis by (simp add: drop_bit_eq_div)
  qed
  have "unat (vb s - 1) = mask k" using assms(2) by (subst unat_minus_one) (auto simp: mask_eq_exp_minus_1)
  then have r: "unat (va s AND (vb s - 1)) = unat (va s) mod 2 ^ k"
    by (simp add: unsigned_and_eq flip: take_bit_eq_mask take_bit_eq_mod)
  have m: "pair64 (reg s A_0 AND reg s C_0) (reg s A_1 AND reg s C_1) = va s AND (vb s - 1)"
    using assms(4) by (simp add: pair64_ops value_defs)
  have b: "unat (reg s B_1) * 4294967296 + unat (reg s B_0) = 2 ^ k" using assms(2) by (simp add: vb_def unat_pair64)
  note d = pair64_drop [OF assms(3), of "reg s A_0" "reg s A_1"]
  show ?thesis
  proof (cases "k < 32")
    case True
    have "(2 :: nat) ^ k < 4294967296" using True power_strict_increasing [of k 32 "2 :: nat"] by simp
    with b have "unat (reg s B_1) = 0" by (cases "unat (reg s B_1)") simp_all
    with b have z: "unat (reg s B_1) = 0" "unat (reg s B_0) = 2 ^ k" by simp_all
    note c = clz_power [OF z(2) True] and n = pow2_counts [OF True]
    show ?thesis
      using assms(1) q r m d c n True
      by (auto simp: pow2_code_def L_1_code_def returns_def value_defs frame_def saved_def shift_right_def shift_left_def Let_def)
  next
    case False
    then obtain j where j: "k = 32 + j" "j < 32" using assms(3) by (metis add_less_cancel_left le_add_diff_inverse not_le numeral_Bit0)
    with b have e: "unat (reg s B_1) * 4294967296 + unat (reg s B_0) = 2 ^ j * 4294967296" by (simp add: power_add)
    have "unat (reg s B_0) = (unat (reg s B_1) * 4294967296 + unat (reg s B_0)) mod 4294967296" by simp
    also have "\<dots> = 0" unfolding e by simp
    finally have z: "reg s B_0 = 0" by (simp add: unat_eq_0)
    with e have "unat (reg s B_1) = 2 ^ j" by simp
    note c = clz_power [OF this j(2)] and n = pow2_counts [OF j(2)]
    show ?thesis
      using assms(1) q r m d c n j z
      by (auto simp: pow2_code_def L_1_code_def returns_def value_defs frame_def saved_def shift_right_def shift_left_def clz_0 Let_def)
  qed
qed


lemma run_div_32_32:
  assumes "frame s0 s" and "reg s A_1 = 0" and "reg s B_1 = 0"
    and "\<And>t. stack (K Aeabi_uidivmod t) = stack t"
    and "\<And>t. reg t R1 \<noteq> 0 \<Longrightarrow> reg (K Aeabi_uidivmod t) R0 = reg t R0 div reg t R1 \<and> reg (K Aeabi_uidivmod t) R1 = reg t R0 mod reg t R1"
    and "reg s B_0 \<noteq> 0"
  shows "returns s0 (unat (va s) div unat (vb s)) (unat (va s) mod unat (vb s)) (run_blocks (Suc n) K uldivmod_code next_label L_div_32_32 s)"
proof -
  let ?t = "K Aeabi_uidivmod (set_reg R1 (reg s B_0) s)"
  have "stack ?t = stack s" "reg ?t R0 = reg s A_0 div reg s B_0" "reg ?t R1 = reg s A_0 mod reg s B_0"
    using assms(4) [of "set_reg R1 (reg s B_0) s"] assms(5) [of "set_reg R1 (reg s B_0) s"] assms(6) by simp_all
  with assms(1-3) show ?thesis
    by (simp add: div_32_32_code_def returns_def value_defs frame_def saved_def unat_pair64 unat_div unat_mod Let_def)
qed

lemma run_div_by_0:
  assumes "frame s0 s" and "\<And>t. stack (K Div0 t) = stack t"
  shows "returns s0 0 0 (run_blocks (Suc n) K uldivmod_code next_label L_div_by_0 s)"
  using assms(1) assms(2) [of s]
  by (simp add: div_by_0_code_def returns_def value_defs frame_def saved_def unat_pair64 Let_def)

section \<open>The routine\<close>

text \<open>The first block, and where it leads.\<close>

lemma run_entry:
  assumes "132 \<le> fuel"
  obtains n t where "fuel = 132 + n" and "frame s t" and "\<forall>x\<in>{A_0, A_1, B_0, B_1}. reg t x = reg s x" and "vb s \<noteq> 0 \<longrightarrow> vc t = vb s - 1"
    and "aeabi_uldivmod fuel K s = (case entry_target s t of Fall t' \<Rightarrow> run_blocks (131 + n) K uldivmod_code next_label L_div_64_64 t'
      | Goto l t' \<Rightarrow> run_blocks (131 + n) K uldivmod_code next_label l t' | Return ra t' \<Rightarrow> Some (ra, t') | Fault \<Rightarrow> None)"
proof -
  obtain t where t: "exec K entry_code s = entry_target s t" "frame s t" "\<forall>x\<in>{A_0, A_1, B_0, B_1}. reg t x = reg s x"
      "vb s \<noteq> 0 \<longrightarrow> vc t = vb s - 1"
    using exec_entry [of K s] by blast
  define n where "n = fuel - 132"
  then have n: "fuel = Suc (131 + n)" using assms by simp
  have "aeabi_uldivmod fuel K s = (case entry_target s t of Fall t' \<Rightarrow> run_blocks (131 + n) K uldivmod_code next_label L_div_64_64 t'
      | Goto l t' \<Rightarrow> run_blocks (131 + n) K uldivmod_code next_label l t' | Return ra t' \<Rightarrow> Some (ra, t') | Fault \<Rightarrow> None)"
    by (simp only: aeabi_uldivmod_def n run_blocks.simps uldivmod_code.simps next_label.simps t(1) option.case)
  with n t that [of n t] show ?thesis by simp
qed

text \<open>
  C7. The 64-bit division of the module (\<open>_uldivmod.S\<close>), as the processor executes it: on every path -- a power of two as divisor,
  two numbers of 32 bits, or the shift-and-subtract loop -- it returns to its caller after at most 132 blocks, with the quotient in
  \<open>r0, r1\<close> and the remainder in \<open>r2, r3\<close>, the registers \<open>r4\<close> to \<open>r7\<close> and the stack as the caller left them. With the divisor zero it
  calls \<open>__div0\<close> and returns zero for both. The hypotheses say what it relies on in the kernel: the called functions leave the stack
  alone, and \<open>__aeabi_uidivmod\<close> divides two numbers of 32 bits.
\<close>

theorem uldivmod_correct:
  assumes "\<And>f t. stack (K f t) = stack t"
    and "\<And>t. reg t R1 \<noteq> 0 \<Longrightarrow> reg (K Aeabi_uidivmod t) R0 = reg t R0 div reg t R1 \<and> reg (K Aeabi_uidivmod t) R1 = reg t R0 mod reg t R1"
    and "132 \<le> fuel"
  shows "returns s (unat (va s) div unat (vb s)) (if vb s = 0 then 0 else unat (va s) mod unat (vb s)) (aeabi_uldivmod fuel K s)"
proof -
  from run_entry [OF assms(3), of s K] obtain n t where t: "frame s t" "\<forall>x\<in>{A_0, A_1, B_0, B_1}. reg t x = reg s x" "vb s \<noteq> 0 \<longrightarrow> vc t = vb s - 1"
    and run: "aeabi_uldivmod fuel K s = (case entry_target s t of Fall t' \<Rightarrow> run_blocks (131 + n) K uldivmod_code next_label L_div_64_64 t'
      | Goto l t' \<Rightarrow> run_blocks (131 + n) K uldivmod_code next_label l t' | Return ra t' \<Rightarrow> Some (ra, t') | Fault \<Rightarrow> None)" by metis
  note run = run [unfolded entry_target_def]
  have v: "va t = va s" "vb t = vb s" using t(2) by (simp_all add: value_defs)
  have m: "131 + n = Suc (Suc (129 + n))" by simp
  consider "vb s = 0" | "vb s \<noteq> 0" "vb s AND (vb s - 1) = 0" | "vb s \<noteq> 0" "vb s AND (vb s - 1) \<noteq> 0" "reg s A_1 = 0 \<and> reg s B_1 = 0"
    | "vb s \<noteq> 0" "vb s AND (vb s - 1) \<noteq> 0" "\<not> (reg s A_1 = 0 \<and> reg s B_1 = 0)" by blast
  then show ?thesis
  proof cases
    case 1
    have "returns s 0 0 (run_blocks (131 + n) K uldivmod_code next_label L_div_by_0 t)"
      unfolding m by (rule run_div_by_0 [OF t(1) assms(1)])
    with 1 show ?thesis by (simp add: run)
  next
    case 2
    from power_of_two [OF 2] obtain k where k: "k < 64" "unat (vb s) = 2 ^ k" by blast
    have "returns s (unat (va t) div 2 ^ k) (unat (va t) mod 2 ^ k) (run_blocks (131 + n) K uldivmod_code next_label L_pow2 t)"
      unfolding m using k 2 t(3) v by (intro run_pow2 [OF t(1)]) simp_all
    with 2 k v show ?thesis by (simp add: run)
  next
    case 3
    then have "reg t B_0 \<noteq> 0" using t(2) by (simp add: vb_def)
    then have "returns s (unat (va t) div unat (vb t)) (unat (va t) mod unat (vb t)) (run_blocks (131 + n) K uldivmod_code next_label L_div_32_32 t)"
      unfolding m using 3 t(2) assms(1,2) by (intro run_div_32_32 [OF t(1)]) simp_all
    with 3 v show ?thesis by (simp add: run)
  next
    case 4
    with run_align [OF t(1), of n K] v show ?thesis by (auto simp: run)
  qed
qed


definition sample_callee :: "callee \<Rightarrow> arm \<Rightarrow> arm" where
  "sample_callee f t =
     (case f of Aeabi_uidivmod \<Rightarrow> set_reg R1 (reg t R0 mod reg t R1) (set_reg R0 (reg t R0 div reg t R1) t) | Div0 \<Rightarrow> t)"

definition sample_division :: arm where
  "sample_division =
     \<lparr>reg = (\<lambda>r. if r = R0 then 5 else if r = R1 then 3 else if r = R2 then 1000000 else if r = LR then 0x8000 else 0),
      flag_n = False, flag_z = False, flag_c = False, flag_v = False, stack = [7]\<rparr>"

theorem uldivmod_correct_witness:
  "returns sample_division 12884 901893 (aeabi_uldivmod 132 sample_callee sample_division)"
proof -
  have "returns sample_division (unat (va sample_division) div unat (vb sample_division))
      (if vb sample_division = 0 then 0 else unat (va sample_division) mod unat (vb sample_division))
      (aeabi_uldivmod 132 sample_callee sample_division)"
    by (rule uldivmod_correct) (auto simp: sample_callee_def split: callee.split)
  then show ?thesis by (simp add: sample_division_def value_defs unat_pair64)
qed

end
