(* ===== verification/Ioctl_Test.thy ===== *)
theory Ioctl_Test
  imports Cmidid_Main
begin

text \<open>
  The test program of the ioctl interface (\<open>module/ioctl_test.c\<close>) with the module it talks to. The answers typed by the user are a
  list: a number \<open>scanf\<close> reads, or something it cannot read as a number and leaves where it is; after the last one is the end of
  the input. \<open>value\<close> has no initial value in the source and is a parameter here. Every call of \<open>ioctl\<close> is a step of the running
  module. The lemmas show what the program prints and does to the module, and what happens in its last round, after \<open>scanf\<close> failed.
\<close>

section \<open>Input, output and the system call\<close>

datatype answer = Number "32 word" | No_number

definition EOF :: int where "EOF = - 1"

text \<open>\<open>scanf("%d", &value)\<close>: the number of values read, the variable, and the rest of the input.\<close>

fun scanf_int :: "answer list \<Rightarrow> 32 word \<Rightarrow> int \<times> 32 word \<times> answer list" where
  "scanf_int [] v = (EOF, v, [])"
| "scanf_int (Number x # rest) v = (1, x, rest)"
| "scanf_int (No_number # rest) v = (0, v, No_number # rest)"

datatype printed =
    Open_failed
  | Options
  | Min_time_set_to int
  | Max_time_set_to int
  | Curve_set VEL_CURVE
  | Current_transpose int
  | Transpose_set_to int
  | Unknown_option

text \<open>The C library returns -1 for the results the kernel uses as error codes.\<close>

definition syscall_result :: "int \<Rightarrow> int" where
  "syscall_result r = (if - 4095 \<le> r \<and> r < 0 then - 1 else r)"

definition ioctl :: "cmidid_system \<Rightarrow> u32 \<Rightarrow> 32 word \<Rightarrow> int \<times> cmidid_system" where
  "ioctl s cmd arg =
     (let (m, g, r) = cmidid_ioctl (sys_midi s) (sys_gpio s) cmd arg
      in (syscall_result r, s\<lparr>sys_midi := m, sys_gpio := g\<rparr>))"

section \<open>The program\<close>

text \<open>
  One round of the loop: the result of the last \<open>scanf\<close>, the variable, the rest of the input, what was printed, and the module. The
  calls without a third argument pass whatever is in the register; the module does not look at it. \<open>min_time\<close> is printed as an \<open>int\<close>.
\<close>

definition test_round ::
    "answer list \<Rightarrow> 32 word \<Rightarrow> cmidid_system \<Rightarrow> int \<times> 32 word \<times> answer list \<times> printed list \<times> cmidid_system" where
  "test_round input value s =
     (let (err, value, input) = scanf_int input value
      in if value = 1 then
           (let (r, s) = ioctl s CMIDID_CALIBRATE_MIN_TIME 0; min_time = (word_of_int r :: u32)
            in (err, value, input, [Options, Min_time_set_to (sint min_time)], s))
         else if value = 2 then
           (let (r, s) = ioctl s CMIDID_CALIBRATE_MAX_TIME 0; min_time = (word_of_int r :: u32)
            in (err, value, input, [Options, Max_time_set_to (sint min_time)], s))
         else if value = 3 then (err, value, input, [Options, Curve_set VEL_CURVE_LINEAR], snd (ioctl s CMIDID_VEL_CURVE_LINEAR 0))
         else if value = 4 then (err, value, input, [Options, Curve_set VEL_CURVE_CONCAVE], snd (ioctl s CMIDID_VEL_CURVE_CONCAVE 0))
         else if value = 5 then (err, value, input, [Options, Curve_set VEL_CURVE_CONVEX], snd (ioctl s CMIDID_VEL_CURVE_CONVEX 0))
         else if value = 6 then (err, value, input, [Options, Curve_set VEL_CURVE_SATURATED], snd (ioctl s CMIDID_VEL_CURVE_SATURATED 0))
         else if value = 7 then
           (let (r, s) = ioctl s CMIDID_TRANSPOSE 0;
                (err, value, input) = scanf_int input value;
                (r', s) = ioctl s CMIDID_TRANSPOSE value
            in (err, value, input, [Options, Current_transpose (r - 128), Transpose_set_to (r' - 128)], s))
         else (err, value, input, [Options, Unknown_option], s))"

lemma scanf_int_1: "scanf_int input v = (1, v', rest) \<Longrightarrow> length rest < length input"
  by (induction input v rule: scanf_int.induct) (auto simp: EOF_def)

lemma scanf_int_rest: "scanf_int input v = (e, v', rest) \<Longrightarrow> length rest \<le> length input"
  by (induction input v rule: scanf_int.induct) auto

lemma test_round_consumes:
  assumes "test_round input v s = (1, v', rest, out, s')"
  shows "length rest < length input"
proof -
  obtain e v1 i1 where 1: "scanf_int input v = (e, v1, i1)" by (cases "scanf_int input v")
  obtain e2 v2 i2 where 2: "scanf_int i1 v1 = (e2, v2, i2)" by (cases "scanf_int i1 v1")
  show ?thesis
    using assms 1 2 scanf_int_1 [of input v] scanf_int_rest [OF 1] scanf_int_1 [of i1 v1]
    by (auto simp: test_round_def split: if_splits prod.splits)
qed

function test_loop :: "answer list \<Rightarrow> 32 word \<Rightarrow> cmidid_system \<Rightarrow> printed list \<times> cmidid_system" where
  "test_loop input value s =
     (let (err, value, rest, out, s') = test_round input value s
      in if err = 1 then let (out', s'') = test_loop rest value s' in (out @ out', s'') else (out, s'))"
  by pat_completeness auto

termination
proof (relation "measure (\<lambda>(input, v, s). length input)", goal_cases)
  case (2 input v s x err y val z rest w out s')
  then have "test_round input v s = (1, val, rest, out, s')" by metis
  then show ?case by (simp add: test_round_consumes)
qed simp

declare test_loop.simps [simp del]

text \<open>\<open>main\<close>: the exit code, what was printed, and the module.\<close>

definition test_main :: "int \<Rightarrow> answer list \<Rightarrow> 32 word \<Rightarrow> cmidid_system \<Rightarrow> int \<times> printed list \<times> cmidid_system" where
  "test_main fd input value s =
     (if fd = - 1 then (2, [Open_failed], s) else let (out, s') = test_loop input value s in (0, out, s'))"

section \<open>Lemmas\<close>

lemma ioctl_is_step: "ioctl s cmd arg = (r, s') \<Longrightarrow> system_step jit s (Ioctl cmd arg) = Inr s'"
  by (auto simp: ioctl_def split: prod.splits)

lemma ioctl_reachable: "reachable jit s0 s \<Longrightarrow> ioctl s cmd arg = (r, s') \<Longrightarrow> reachable jit s0 s'"
  by (erule reachable.step [where e = "Ioctl cmd arg"]) (simp_all only: ioctl_is_step enabled.simps)

lemma test_round_reachable:
  assumes "reachable jit s0 s" and "test_round input v s = (e, v', rest, out, s')"
  shows "reachable jit s0 s'"
proof -
  obtain r t where t: "ioctl s CMIDID_TRANSPOSE 0 = (r, t)" by (cases "ioctl s CMIDID_TRANSPOSE 0")
  have snd: "reachable jit s0 (snd (ioctl u c a))" if "reachable jit s0 u" for u c a
    using ioctl_reachable [OF that] by (cases "ioctl u c a") simp
  show ?thesis
    using assms snd [OF assms(1)] snd [OF ioctl_reachable [OF assms(1) t]]
    by (auto simp: test_round_def t split: if_splits prod.splits) (metis snd_conv)+
qed

lemma test_loop_reachable:
  "reachable jit s0 s \<Longrightarrow> reachable jit s0 (snd (test_loop input v s))"
proof (induction input v s rule: test_loop.induct)
  case (1 input v s)
  obtain e v' rest out s' where r: "test_round input v s = (e, v', rest, out, s')" by (cases "test_round input v s")
  have "reachable jit s0 s'" using test_round_reachable [OF 1(2) r] .
  with 1(1) r show ?case by (subst test_loop.simps) (auto split: prod.splits dest: 1(1))
qed

lemma ioctl_transpose:
  "ioctl s CMIDID_TRANSPOSE arg =
     (sint (transpose (sys_midi s) + ucast arg) + 128,
      s\<lparr>sys_midi := (sys_midi s)\<lparr>transpose := transpose (sys_midi s) + ucast arg\<rparr>, sys_gpio := sys_gpio s\<rparr>)"
proof -
  have "- 128 \<le> sint (transpose (sys_midi s) + ucast arg :: s8)"
    using sint_ge [of "transpose (sys_midi s) + ucast arg :: s8"] by simp
  then show ?thesis by (simp add: ioctl_def ioctl_transpose_eq syscall_result_def)
qed


text \<open>What an option does to the module, and a list of numbers typed in.\<close>

definition transposed :: "32 word \<Rightarrow> cmidid_system \<Rightarrow> cmidid_system" where
  "transposed k s = s\<lparr>sys_midi := (sys_midi s)\<lparr>transpose := transpose (sys_midi s) + ucast k\<rparr>\<rparr>"

definition on_gpio :: "(cmidid_gpio_state \<Rightarrow> cmidid_gpio_state) \<Rightarrow> cmidid_system \<Rightarrow> cmidid_system" where
  "on_gpio f s = s\<lparr>sys_gpio := f (sys_gpio s)\<rparr>"

definition option_effect :: "32 word \<Rightarrow> cmidid_system \<Rightarrow> cmidid_system" where
  "option_effect k s =
     (if k = 1 then on_gpio (\<lambda>g. fst (cmidid_set_min_stroke_time g)) s
      else if k = 2 then on_gpio (\<lambda>g. fst (cmidid_set_max_stroke_time g)) s
      else if k = 3 then on_gpio cmidid_set_vel_curve_linear s
      else if k = 4 then on_gpio cmidid_set_vel_curve_concave s
      else if k = 5 then on_gpio cmidid_set_vel_curve_convex s
      else if k = 6 then on_gpio cmidid_set_vel_curve_saturated s
      else if k = 7 then transposed 7 s
      else s)"

lemma snd_ioctl:
  "snd (ioctl s CMIDID_CALIBRATE_MIN_TIME a) = on_gpio (\<lambda>g. fst (cmidid_set_min_stroke_time g)) s"
  "snd (ioctl s CMIDID_CALIBRATE_MAX_TIME a) = on_gpio (\<lambda>g. fst (cmidid_set_max_stroke_time g)) s"
  "snd (ioctl s CMIDID_VEL_CURVE_LINEAR a) = on_gpio cmidid_set_vel_curve_linear s"
  "snd (ioctl s CMIDID_VEL_CURVE_CONCAVE a) = on_gpio cmidid_set_vel_curve_concave s"
  "snd (ioctl s CMIDID_VEL_CURVE_CONVEX a) = on_gpio cmidid_set_vel_curve_convex s"
  "snd (ioctl s CMIDID_VEL_CURVE_SATURATED a) = on_gpio cmidid_set_vel_curve_saturated s"
  by (simp_all add: ioctl_def cmidid_ioctl_def ioctl_cmd_defs on_gpio_def split: prod.splits)

lemma ioctl_transposed: "ioctl s CMIDID_TRANSPOSE k = (sint (transpose (sys_midi s) + ucast k) + 128, transposed k s)"
  by (simp add: ioctl_transpose transposed_def)

lemma transposed_0 [simp]: "transposed 0 s = s"
  by (simp add: transposed_def)

text \<open>A round with a number typed in that is not 7, and the round in which the input has come to its end.\<close>

lemma test_round_number:
  assumes "k \<noteq> 7"
  shows "\<exists>out. test_round (Number k # rest) v s = (1, k, rest, out, option_effect k s)"
  using assms by (simp add: test_round_def option_effect_def snd_ioctl split_beta)

lemma test_round_end: "\<exists>out. test_round [] v s = (EOF, v, [], out, option_effect v s)"
  by (simp add: test_round_def option_effect_def snd_ioctl ioctl_transposed split_beta)

lemma test_loop_end: "snd (test_loop [] v s) = option_effect v s"
  using test_round_end [of v s] by (subst test_loop.simps) (auto simp: EOF_def)

lemma test_loop_number: "k \<noteq> 7 \<Longrightarrow> snd (test_loop (Number k # rest) v s) = snd (test_loop rest k (option_effect k s))"
  using test_round_number [of k rest v s] by (subst test_loop.simps) (auto split: prod.splits)

lemma test_round_transpose:
  "test_round (Number 7 # Number k # rest) v s =
     (1, k, rest, [Options, Current_transpose (sint (transpose (sys_midi s))),
       Transpose_set_to (sint (transpose (sys_midi (transposed k s))))], transposed k s)"
  by (simp add: test_round_def ioctl_transposed) (simp add: transposed_def)

lemma test_loop_failed:
  assumes "input = [] \<or> hd input = No_number"
  shows "snd (test_loop input v s) = option_effect v s"
proof -
  obtain e where e: "e \<noteq> 1" "\<And>w. scanf_int input w = (e, w, input)"
    using assms by (cases input) (auto simp: EOF_def)
  then have "\<exists>out. test_round input v s = (e, v, input, out, option_effect v s)"
    by (simp add: test_round_def option_effect_def snd_ioctl ioctl_transposed split_beta)
  with e(1) show ?thesis by (subst test_loop.simps) auto
qed

lemma test_loop_no_number: "snd (test_loop (No_number # rest) v s) = option_effect v s"
  by (simp add: test_loop_failed)

lemma test_loop_transpose: "snd (test_loop (Number 7 # Number k # rest) v s) = snd (test_loop rest k (transposed k s))"
  by (subst test_loop.simps) (simp add: test_round_transpose split: prod.splits)

lemma test_loop_transpose_end:
  assumes "input = [] \<or> hd input = No_number"
  shows "snd (test_loop (Number 7 # input) v s) = transposed 7 s"
proof -
  obtain e where e: "e \<noteq> 1" "\<And>w. scanf_int input w = (e, w, input)"
    using assms by (cases input) (auto simp: EOF_def)
  then have "\<exists>out. test_round (Number 7 # input) v s = (e, 7, input, out, transposed 7 s)"
    by (simp add: test_round_def ioctl_transposed)
  with e(1) show ?thesis by (subst test_loop.simps) auto
qed

text \<open>What the user asks for: an option, or a transposition with its number; and whether the input ends where that number is missing.\<close>

datatype request = Option "32 word" | Transposition "32 word"

fun requests :: "answer list \<Rightarrow> request list \<times> bool" where
  "requests [] = ([], False)"
| "requests (No_number # input) = ([], False)"
| "requests (Number k # input) =
     (if k \<noteq> 7 then (let (rs, asked) = requests input in (Option k # rs, asked))
      else (case input of
          Number t # input' \<Rightarrow> (let (rs, asked) = requests input' in (Transposition t # rs, asked))
        | _ \<Rightarrow> ([], True)))"

fun request_effect :: "request \<Rightarrow> cmidid_system \<Rightarrow> cmidid_system" where
  "request_effect (Option k) s = option_effect k s"
| "request_effect (Transposition t) s = transposed t s"

fun last_typed :: "request \<Rightarrow> 32 word" where
  "last_typed (Option k) = k"
| "last_typed (Transposition t) = t"

section \<open>Properties\<close>

text \<open>
  The test program and the module: whatever the user types, the program comes to its end and leaves the module in a state the
  running module can be in, so that all invariants of the module hold after it.
\<close>

theorem test_program_reachable:
  assumes "reachable jit s0 s" and "test_main fd input v s = (rc, out, s')"
  shows "reachable jit s0 s' \<and> rc = (if fd = - 1 then 2 else 0)"
  using assms test_loop_reachable [OF assms(1), of input v]
  by (auto simp: test_main_def split: if_splits prod.splits)

theorem test_program_reachable_witness:
  "reachable 2 sample_system (snd (snd (test_main 3 [Number 7, Number 12, No_number] 0 sample_system)))"
proof -
  obtain rc out s' where "test_main 3 [Number 7, Number 12, No_number] 0 sample_system = (rc, out, s')"
    by (rule prod_cases3)
  with test_program_reachable [OF reachable.start this] show ?thesis by simp
qed

text \<open>
  C37. The options of the test program, for every input: each option typed in is executed, in order, and 7 transposes by the number
  typed in after it. When the input ends or goes on with something that is no number, the last number typed in is executed once more as an
  option, since the program looks at the result of \<open>scanf\<close> only after it has acted on the variable: an option is repeated, and the number of a
  transposition is taken for an option; with nothing typed in the program acts on the value its variable happens to have. When the
  input ends right after a 7, the program transposes by 7 and stops.
\<close>

theorem last_option_repeated:
  "snd (test_loop input v s) =
     (let (rs, asked) = requests input; s' = fold request_effect rs s
      in if asked then transposed 7 s' else option_effect (last (v # map last_typed rs)) s')"
proof (induction input arbitrary: v s rule: requests.induct)
  case (3 k input)
  consider (option) "k \<noteq> 7" | (transposition) t rest where "k = 7" "input = Number t # rest"
    | (asked) "k = 7" "input = [] \<or> hd input = No_number"
    by (metis answer.exhaust list.exhaust list.sel(1))
  then show ?case
  proof cases
    case option
    obtain rs asked where "requests input = (rs, asked)" by (rule prod.exhaust)
    with option 3(1) show ?thesis by (simp add: test_loop_number Let_def)
  next
    case transposition
    obtain rs asked where "requests rest = (rs, asked)" by (rule prod.exhaust)
    with transposition 3(2) show ?thesis by (simp add: test_loop_transpose Let_def)
  next
    case asked
    then have "requests (Number k # input) = ([], True)" by (cases input) auto
    with asked show ?thesis by (simp add: test_loop_transpose_end del: requests.simps)
  qed
qed (simp_all add: test_loop_end test_loop_no_number)

text \<open>Maximum calibrated, transposed by 5, end of the input: the 5 is taken for an option. And a number missing after 7.\<close>

lemma last_option_repeated_examples:
  "snd (test_loop [Number 2, Number 7, Number 5] v s) = option_effect 5 (transposed 5 (option_effect 2 s))"
  "snd (test_loop [Number 1, Number 4] v s) = option_effect 4 (option_effect 4 (option_effect 1 s))"
  "snd (test_loop [Number 3, Number 7, No_number] v s) = transposed 7 (option_effect 3 s)"
  by (simp_all add: test_loop_number test_loop_transpose test_loop_transpose_end test_loop_end)

text \<open>
  Transposing with the test program: after 7 it asks for a number, adds it to the transposition, and prints the transposition before
  and after. When the input ends there, the number is taken for an option in the round that follows: 5, for example, also selects the
  convex velocity curve, and 7 transposes by 7 again.
\<close>

theorem transposition_taken_as_option:
  "\<exists>out. test_loop [Number 7, Number k] v s =
     ([Options, Current_transpose (sint (transpose (sys_midi s))), Transpose_set_to (sint (transpose (sys_midi s) + ucast k)), Options] @ out,
      option_effect k (transposed k s))"
proof -
  obtain o' where r: "test_round [] k (transposed k s) = (EOF, k, [], o', option_effect k (transposed k s))"
    using test_round_end [of k "transposed k s"] by blast
  have "\<exists>out. o' = Options # out" using r by (auto simp: test_round_def split: if_splits prod.splits)
  moreover have "transpose (sys_midi (transposed k s)) = transpose (sys_midi s) + ucast k" by (simp add: transposed_def)
  moreover have "test_loop [] k (transposed k s) = (o', option_effect k (transposed k s))"
    using r by (subst test_loop.simps) (simp add: EOF_def)
  ultimately show ?thesis by (subst test_loop.simps) (auto simp: test_round_transpose)
qed

end
