(* ===== verification/Longdiv.thy ===== *)
theory Longdiv
  imports C_Prelude
begin

text \<open>
  The kernel module that tries out 64-bit arithmetic (\<open>playground/longdiv/longdiv.c\<close>): powers, factorials and the power series of
  the exponential function in \<open>u64\<close>, with messages for the overflows it notices. \<open>div64_u64\<close> is a function of the kernel and the
  parameter \<open>D\<close>; \<open>div64_spec\<close> is its documentation. Powers and factorials are compared with the mathematical ones: exact and without a
  message as long as the result fits, a message only for a real overflow; but not every overflow has one.
\<close>

section \<open>Output\<close>

datatype line =
    Starting
  | Overflow u64 u64
  | Quotient u64 u64 u64
  | Product u64 u64 u64
  | Power u64 u64 u64
  | Factorial u64 u64
  | Exponential u64 u64

text \<open>One multiplication of the loops, and its check.\<close>

definition overflow_message :: "u64 \<Rightarrow> u64 \<Rightarrow> line list" where
  "overflow_message prev factor = (if prev * factor < prev then [Overflow prev factor] else [])"

section \<open>Power and factorial\<close>

lemma counter_decreases: "(0 :: u64) < n - 1 \<Longrightarrow> unat (n - 2) < unat (n - 1)"
proof -
  assume h: "0 < n - 1"
  then have "unat (n - 1 - 1) = unat (n - 1) - 1" by (simp only: unat_minus_one word_gt_0 not_False_eq_True)
  moreover have "0 < unat (n - 1)" using h by (simp only: unat_gt_0 word_gt_0)
  moreover have "n - 1 - 1 = n - 2" by simp
  ultimately show "unat (n - 2) < unat (n - 1)" by (simp only: diff_less zero_less_one)
qed

text \<open>\<open>while (--exponent > 0)\<close>: the counter is decremented before it is tested.\<close>

function power_loop :: "u64 \<Rightarrow> u64 \<Rightarrow> u64 \<Rightarrow> u64 \<times> line list" where
  "power_loop base exponent result =
     (let exponent = exponent - 1
      in if exponent > 0 then
           (let (r, out) = power_loop base exponent (result * base) in (r, overflow_message result base @ out))
         else (result, []))"
  by pat_completeness auto

termination
  by (relation "measure (\<lambda>(b, e, r). unat (e - 1))") (simp_all add: counter_decreases)

declare power_loop.simps [simp del]

definition power_of :: "u64 \<Rightarrow> u64 \<Rightarrow> u64 \<times> line list" where
  "power_of base exponent = (if exponent = 0 then (1, []) else power_loop base exponent base)"

function fac_loop :: "u64 \<Rightarrow> u64 \<Rightarrow> u64 \<times> line list" where
  "fac_loop n result =
     (let n = n - 1
      in if n > 0 then
           (let (r, out) = fac_loop n (result * n) in (r, overflow_message result n @ out))
         else (result, []))"
  by pat_completeness auto

termination
  by (relation "measure (\<lambda>(n, r). unat (n - 1))") (simp_all add: counter_decreases)

declare fac_loop.simps [simp del]

definition fac :: "u64 \<Rightarrow> u64 \<times> line list" where
  "fac n = (if n = 0 then (1, []) else fac_loop n n)"

section \<open>The exponential function\<close>

text \<open>
  The series is added up until the sum does not grow; the sum grows in every round, so the loop ends. Evaluation of the
  arguments of \<open>div64_u64\<close>: first the power, then the factorial.
\<close>

function e_loop :: "(u64 \<Rightarrow> u64 \<Rightarrow> u64) \<Rightarrow> u64 \<Rightarrow> u64 \<Rightarrow> u64 \<Rightarrow> (u64 \<times> line list) res" where
  "e_loop D z k result =
     (let (p, out1) = power_of z k; (f, out2) = fac k
      in if f = 0 then Inl Division_by_zero
         else if result + D p f \<le> result then Inr (result, out1 @ out2)
         else bind_res (e_loop D z (k + 1) (result + D p f)) (\<lambda>(r, out). Inr (r, out1 @ out2 @ out)))"
  by pat_completeness auto

termination
proof (relation "measure (\<lambda>(D, z, k, r). 2 ^ 64 - unat r)", goal_cases)
  case (2 D z k result pow p out1 fc f out2)
  then have "unat result < unat (result + D p f)" by (simp add: word_le_nat_alt)
  moreover have "unat (result + D p f) < 2 ^ 64" by simp
  ultimately have "2 ^ 64 - unat (result + D p f) < 2 ^ 64 - unat result" by (intro diff_less_mono2) linarith+
  then show ?case by simp
qed simp

declare e_loop.simps [simp del]

definition e_tothe_z :: "(u64 \<Rightarrow> u64 \<Rightarrow> u64) \<Rightarrow> u64 \<Rightarrow> (u64 \<times> line list) res" where
  "e_tothe_z D z = (if z = 0 then Inr (1, []) else e_loop D z 0 0)"

section \<open>The module\<close>

definition longdiv_init :: "(u64 \<Rightarrow> u64 \<Rightarrow> u64) \<Rightarrow> (int \<times> line list) res" where
  "longdiv_init D =
     (let a = 3; b = 10;
          out = [Starting, Quotient a b (D a b), Product a b (a * b)];
          (p, o1) = power_of a b;
          out = out @ o1 @ [Power a b p];
          a = 16;
          (f, o2) = fac a;
          out = out @ o2 @ [Factorial a f];
          a = 20
      in bind_res (e_tothe_z D a) (\<lambda>(e, o3). Inr (0, out @ o3 @ [Exponential a e])))"

definition div64_spec :: "(u64 \<Rightarrow> u64 \<Rightarrow> u64) \<Rightarrow> bool" where
  "div64_spec D \<longleftrightarrow> (\<forall>a b. b \<noteq> 0 \<longrightarrow> D a b = a div b)"

section \<open>The loops\<close>

lemma counter_cases:
  assumes "(n :: u64) \<noteq> 0"
  obtains "n = 1" | m where "n - 1 \<noteq> 0" "unat (n - 1) = Suc m" "unat n = Suc (Suc m)" "of_nat (Suc m) = n - 1"
proof (cases "n - 1 = 0")
  case True
  then have "n = 1" by simp
  then show ?thesis by (rule that)
next
  case False
  then obtain m where m: "unat (n - 1) = Suc m" by (metis not0_implies_Suc unat_eq_0)
  have "unat (n - 1) = unat n - 1" using assms by (rule unat_minus_one)
  with m have "unat n = Suc (Suc m)" by linarith
  moreover have "of_nat (Suc m) = n - 1" by (subst m [symmetric]) simp
  ultimately show ?thesis using that(2) False m by blast
qed

lemma power_loop_1 [simp]: "power_loop b 1 r = (r, [])"
  by (subst power_loop.simps) simp

lemma power_loop_step:
  "n - 1 \<noteq> 0 \<Longrightarrow> power_loop b n r =
     (fst (power_loop b (n - 1) (r * b)), overflow_message r b @ snd (power_loop b (n - 1) (r * b)))"
  by (subst power_loop.simps) (simp add: split_beta word_gt_0 Let_def)

lemma fac_loop_1 [simp]: "fac_loop 1 r = (r, [])"
  by (subst fac_loop.simps) simp

lemma fac_loop_step:
  "n - 1 \<noteq> 0 \<Longrightarrow> fac_loop n r =
     (fst (fac_loop (n - 1) (r * (n - 1))), overflow_message r (n - 1) @ snd (fac_loop (n - 1) (r * (n - 1))))"
  by (subst fac_loop.simps) (simp add: split_beta word_gt_0 Let_def)

lemma power_loop_fst: "unat e = Suc m \<Longrightarrow> fst (power_loop b e r) = r * b ^ m"
proof (induction m arbitrary: e r)
  case 0
  then have "e = 1" by (simp add: word_unat_eq_iff)
  then show ?case by simp
next
  case (Suc m)
  then have "e \<noteq> 0" by auto
  then show ?case
  proof (cases rule: counter_cases)
    case (2 j)
    with Suc.prems have "unat (e - 1) = Suc m" by simp
    from Suc.IH [OF this, of "r * b"] show ?thesis by (simp add: power_loop_step [OF 2(1)] mult.assoc)
  qed (use Suc.prems in simp)
qed

lemma power_of_fst: "fst (power_of b e) = b ^ unat e"
proof (cases "e = 0")
  case False
  then obtain m where "unat e = Suc m" by (metis not0_implies_Suc unat_eq_0)
  with False power_loop_fst [OF this] show ?thesis by (simp add: power_of_def)
qed (simp add: power_of_def)

lemma fac_loop_fst: "unat n = Suc m \<Longrightarrow> fst (fac_loop n r) = r * of_nat (fact m)"
proof (induction m arbitrary: n r)
  case 0
  then have "n = 1" by (simp add: word_unat_eq_iff)
  then show ?case by simp
next
  case (Suc m)
  then have "n \<noteq> 0" by auto
  then show ?case
  proof (cases rule: counter_cases)
    case (2 j)
    with Suc.prems have j: "unat (n - 1) = Suc m" "j = m" by simp_all
    have "of_nat (fact (Suc m)) = (n - 1) * of_nat (fact m)" using 2(4) j(2) by (simp only: fact_Suc of_nat_mult of_nat_id)
    with Suc.IH [OF j(1), of "r * (n - 1)"] show ?thesis by (simp only: fac_loop_step [OF 2(1)] fst_conv mult.assoc)
  qed (use Suc.prems in simp)
qed

lemma fac_fst: "fst (fac n) = of_nat (fact (unat n))"
proof (cases "n = 0")
  case False
  then obtain m where m: "unat n = Suc m" by (metis not0_implies_Suc unat_eq_0)
  have "(of_nat (fact (Suc m)) :: u64) = of_nat (Suc m) * of_nat (fact m)" by (simp only: fact_Suc of_nat_mult of_nat_id)
  moreover have "of_nat (Suc m) = n" by (subst m [symmetric]) simp
  ultimately show ?thesis using False fac_loop_fst [OF m] by (simp add: fac_def m)
qed (simp add: fac_def)


section \<open>Overflows\<close>

lemma overflow_silent:
  assumes "unat r * unat f < 2 ^ 64" and "f \<noteq> 0 \<or> r = 0"
  shows "overflow_message r f = []" and "unat (r * f) = unat r * unat f"
proof -
  show u: "unat (r * f) = unat r * unat f" using assms(1) by (simp add: unat_word_ariths)
  have "unat r = 0 \<or> 1 \<le> unat f" using assms(2) by (auto simp: Suc_le_eq unat_gt_0)
  then have "unat r \<le> unat r * unat f" by auto
  then have "\<not> r * f < r" by (simp only: word_less_nat_alt u not_less)
  then show "overflow_message r f = []" by (simp add: overflow_message_def)
qed

lemma overflow_sound:
  assumes "Overflow l g \<in> set (overflow_message r f)" and "f \<noteq> 0 \<or> r = 0"
  shows "2 ^ 64 \<le> unat l * unat g"
proof (rule ccontr)
  assume "\<not> 2 ^ 64 \<le> unat l * unat g"
  moreover have "l = r" "g = f" using assms(1) by (auto simp: overflow_message_def split: if_splits)
  ultimately have "overflow_message r f = []" using assms(2) by (intro overflow_silent(1)) simp_all
  with assms(1) show False by simp
qed

lemma power_loop_exact:
  assumes "unat e = Suc m" and "unat r * unat b ^ m < 2 ^ 64" and "b \<noteq> 0 \<or> r = 0"
  shows "unat (fst (power_loop b e r)) = unat r * unat b ^ m \<and> snd (power_loop b e r) = []"
  using assms
proof (induction m arbitrary: e r)
  case 0
  then have "e = 1" by (simp add: word_unat_eq_iff)
  then show ?case by simp
next
  case (Suc m)
  then have "e \<noteq> 0" by auto
  then show ?case
  proof (cases rule: counter_cases)
    case (2 j)
    with Suc.prems have j: "unat (e - 1) = Suc m" by simp
    have "unat r * unat b \<le> unat r * unat b * unat b ^ m" using Suc.prems(3) by (auto simp: unat_gt_0 Suc_le_eq)
    moreover have "unat r * unat b ^ Suc m = unat r * unat b * unat b ^ m" by simp
    ultimately have l: "unat r * unat b < 2 ^ 64" using Suc.prems(2) by linarith
    note s = overflow_silent [OF l Suc.prems(3)]
    have "unat (r * b) * unat b ^ m < 2 ^ 64" "b \<noteq> 0 \<or> r * b = 0" using s(2) Suc.prems(2,3) by (auto simp: mult.assoc)
    from Suc.IH [OF j this] s show ?thesis by (simp add: power_loop_step [OF 2(1)] mult.assoc)
  qed (use Suc.prems in simp)
qed

lemma fac_loop_exact:
  assumes "unat n = Suc m" and "unat r * fact m < 2 ^ 64"
  shows "unat (fst (fac_loop n r)) = unat r * fact m \<and> snd (fac_loop n r) = []"
  using assms
proof (induction m arbitrary: n r)
  case 0
  then have "n = 1" by (simp add: word_unat_eq_iff)
  then show ?case by simp
next
  case (Suc m)
  then have "n \<noteq> 0" by auto
  then show ?case
  proof (cases rule: counter_cases)
    case (2 j)
    with Suc.prems have j: "unat (n - 1) = Suc m" by simp
    have "unat r * unat (n - 1) * 1 \<le> unat r * unat (n - 1) * fact m" by (intro mult_le_mono2) (simp add: Suc_leI)
    moreover have p: "unat r * fact (Suc m) = unat r * unat (n - 1) * fact m" by (simp add: j algebra_simps)
    ultimately have l: "unat r * unat (n - 1) < 2 ^ 64" using Suc.prems(2) by linarith
    note s = overflow_silent [OF l, OF disjI1, OF 2(1)]
    have "unat (r * (n - 1)) * fact m < 2 ^ 64" using Suc.prems(2) by (simp only: s(2) p)
    from Suc.IH [OF j this] show ?thesis by (simp only: fac_loop_step [OF 2(1)] s p fst_conv snd_conv append_Nil)
  qed (use Suc.prems in simp)
qed

lemma power_loop_sound:
  "Overflow l g \<in> set (snd (power_loop b e r)) \<Longrightarrow> b \<noteq> 0 \<or> r = 0 \<Longrightarrow> 2 ^ 64 \<le> unat l * unat g"
proof (induction b e r rule: power_loop.induct)
  case (1 b e r)
  show ?case
  proof (cases "e - 1 = 0")
    case True
    then have "e = 1" by simp
    with 1(2) show ?thesis by simp
  next
    case False
    with 1(2) consider "Overflow l g \<in> set (overflow_message r b)" | "Overflow l g \<in> set (snd (power_loop b (e - 1) (r * b)))"
      by (auto simp: power_loop_step)
    then show ?thesis
    proof cases
      case 2
      with 1(1) [OF refl] 1(3) False show ?thesis by (auto simp: word_gt_0)
    qed (use 1(3) overflow_sound in blast)
  qed
qed

lemma fac_loop_sound: "Overflow l g \<in> set (snd (fac_loop n r)) \<Longrightarrow> 2 ^ 64 \<le> unat l * unat g"
proof (induction n r rule: fac_loop.induct)
  case (1 n r)
  show ?case
  proof (cases "n - 1 = 0")
    case True
    then have "n = 1" by simp
    with 1(2) show ?thesis by simp
  next
    case False
    with 1(2) consider "Overflow l g \<in> set (overflow_message r (n - 1))" | "Overflow l g \<in> set (snd (fac_loop (n - 1) (r * (n - 1))))"
      by (auto simp: fac_loop_step)
    then show ?thesis
    proof cases
      case 1
      then show ?thesis using overflow_sound False by blast
    next
      case 2
      with 1(1) [OF refl] False show ?thesis by (auto simp: word_gt_0)
    qed
  qed
qed


section \<open>The series\<close>

text \<open>The summand with the wrap-around of \<open>u64\<close>, for the division of the mathematical quotient.\<close>

definition summand :: "u64 \<Rightarrow> nat \<Rightarrow> u64" where
  "summand z k = z ^ k div of_nat (fact k)"

lemma fact_wraps: "66 \<le> n \<Longrightarrow> (of_nat (fact n) :: u64) = 0"
proof -
  assume "66 \<le> n"
  then have "(fact 66 :: nat) dvd fact n" by (rule fact_dvd)
  moreover have "(2 :: nat) ^ 64 dvd fact 66" by (simp add: fact_numeral dvd_eq_mod_eq_0)
  ultimately have "2 ^ 64 dvd (fact n :: nat)" by (rule dvd_trans [rotated])
  then show ?thesis by (simp add: word_of_nat_eq_0_iff)
qed

definition series_result :: "u64 \<Rightarrow> nat \<Rightarrow> u64 \<Rightarrow> (u64 \<times> line list) res \<Rightarrow> bool" where
  "series_result z n r res \<longleftrightarrow>
     (case res of
        Inl e \<Rightarrow> e = Division_by_zero
      | Inr (s, out) \<Rightarrow> \<exists>m. n + m < 66 \<and> s = r + (\<Sum>j<m. summand z (n + j)) \<and> s + summand z (n + m) \<le> s)"

lemma series_stop: "n < 66 \<Longrightarrow> r + summand z n \<le> r \<Longrightarrow> series_result z n r (Inr (r, out))"
  by (auto simp: series_result_def intro!: exI [of _ 0])

lemma series_grow:
  assumes "series_result z (Suc n) (r + summand z n) res"
  shows "series_result z n r (bind_res res (\<lambda>(r, out). Inr (r, before @ out)))"
proof (cases res)
  case (Inl x)
  with assms show ?thesis by (simp add: series_result_def)
next
  case (Inr y)
  obtain s out where y: "y = (s, out)" by (cases y)
  with assms Inr obtain m where m: "Suc n + m < 66" "s = r + summand z n + (\<Sum>j<m. summand z (Suc n + j))" "s + summand z (Suc n + m) \<le> s"
    by (auto simp: series_result_def)
  have "r + (\<Sum>j<Suc m. summand z (n + j)) = s"
    unfolding sum.lessThan_Suc_shift m(2) by (simp add: add.assoc)
  with m Inr y show ?thesis by (auto simp: series_result_def intro!: exI [of _ "Suc m"])
qed

lemma e_loop_sum:
  assumes "div64_spec D"
  shows "series_result z (unat k) r (e_loop D z k r)"
  using assms
proof (induction D z k r rule: e_loop.induct)
  case (1 D z k r)
  obtain p o1 f o2 where p: "power_of z k = (p, o1)" and f: "fac k = (f, o2)" by (cases "power_of z k", cases "fac k")
  show ?case
  proof (cases "f = 0")
    case True
    then show ?thesis by (subst e_loop.simps) (simp add: p f series_result_def)
  next
    case False
    have n: "unat k < 66" using fact_wraps [of "unat k"] fac_fst [of k] f False by (cases "66 \<le> unat k") auto
    have "unat (k + 1) = (unat k + 1) mod 2 ^ 64" by (simp add: unat_word_ariths)
    with n have k: "unat (k + 1) = Suc (unat k)" by simp
    have d: "D p f = summand z (unat k)"
      using 1(2) False power_of_fst [of z k] fac_fst [of k] p f by (simp add: div64_spec_def summand_def)
    show ?thesis
    proof (cases "r + D p f \<le> r")
      case True
      then show ?thesis using series_stop [OF n] False d by (subst e_loop.simps) (simp add: p f)
    next
      case grow: False
      have "series_result z (Suc (unat k)) (r + summand z (unat k)) (e_loop D z (k + 1) (r + D p f))"
        using 1(1) [OF p [symmetric] refl f [symmetric] refl False grow 1(2)] k d by simp
      from series_grow [OF this, of "o1 @ o2"] show ?thesis
        using False grow by (subst e_loop.simps) (simp add: p f)
    qed
  qed
qed

text \<open>Only the divisor zero would show how \<open>div64_u64\<close> answers it, and the loop stops before.\<close>

lemma e_loop_cong: "div64_spec D \<Longrightarrow> div64_spec D' \<Longrightarrow> e_loop D z k r = e_loop D' z k r"
proof (induction D z k r rule: e_loop.induct)
  case (1 D z k r)
  obtain p o1 f o2 where p: "power_of z k = (p, o1)" and f: "fac k = (f, o2)" by (cases "power_of z k", cases "fac k")
  show ?case
  proof (cases "f = 0")
    case False
    then have d: "D p f = D' p f" using 1(2,3) by (simp add: div64_spec_def)
    show ?thesis
    proof (cases "r + D p f \<le> r")
      case True
      then show ?thesis using d False by (subst (1 2) e_loop.simps) (simp add: p f)
    next
      case grow: False
      have "e_loop D z (k + 1) (r + D p f) = e_loop D' z (k + 1) (r + D p f)"
        using 1(1) [OF p [symmetric] refl f [symmetric] refl False grow 1(2,3)] .
      then show ?thesis using d False grow by (subst (1 2) e_loop.simps) (simp add: p f)
    qed
  qed (subst (1 2) e_loop.simps, simp add: p f)
qed


section \<open>Properties\<close>

text \<open>
  C35. The power and the factorial of the test module: each is the mathematical one modulo 2 to the 64; when that fits 64 bits the
  result is exact and nothing is printed; and every overflow that is reported is one.
\<close>

theorem products_checked:
  "fst (power_of b e) = b ^ unat e \<and> fst (fac n) = of_nat (fact (unat n)) \<and>
   (unat b ^ unat e < 2 ^ 64 \<longrightarrow> power_of b e = (of_nat (unat b ^ unat e), [])) \<and>
   (fact (unat n) < (2 ^ 64 :: nat) \<longrightarrow> fac n = (of_nat (fact (unat n)), [])) \<and>
   (\<forall>l f. Overflow l f \<in> set (snd (power_of b e) @ snd (fac n)) \<longrightarrow> 2 ^ 64 \<le> unat l * unat f)"
proof (intro conjI impI allI)
  show p: "fst (power_of b e) = b ^ unat e" by (rule power_of_fst)
  show f: "fst (fac n) = of_nat (fact (unat n))" by (rule fac_fst)
  {
    assume h: "unat b ^ unat e < 2 ^ 64"
    have "snd (power_of b e) = []"
    proof (cases "e = 0")
      case False
      then obtain m where m: "unat e = Suc m" by (metis not0_implies_Suc unat_eq_0)
      with h have "unat b * unat b ^ m < 2 ^ 64" by simp
      from power_loop_exact [OF m this] False show ?thesis by (simp add: power_of_def)
    qed (simp add: power_of_def)
    with p show "power_of b e = (of_nat (unat b ^ unat e), [])" by (simp add: prod_eq_iff)
  }
  {
    assume h: "fact (unat n) < (2 ^ 64 :: nat)"
    have "snd (fac n) = []"
    proof (cases "n = 0")
      case False
      then obtain m where m: "unat n = Suc m" by (metis not0_implies_Suc unat_eq_0)
      with h have "unat n * fact m < 2 ^ 64" by simp
      from fac_loop_exact [OF m this] False show ?thesis by (simp add: fac_def)
    qed (simp add: fac_def)
    with f show "fac n = (of_nat (fact (unat n)), [])" by (simp add: prod_eq_iff)
  }
  fix l g assume "Overflow l g \<in> set (snd (power_of b e) @ snd (fac n))"
  then show "2 ^ 64 \<le> unat l * unat g"
    using power_loop_sound [of l g b e b] fac_loop_sound [of l g n n] by (auto simp: power_of_def fac_def split: if_splits)
qed

theorem products_checked_witness:
  "power_of 3 10 = (59049, []) \<and> fac 16 = (20922789888000, [])"
proof -
  have "(fact 16 :: nat) = 20922789888000" by (simp add: fact_numeral)
  with products_checked [of 3 10 16] show ?thesis by simp
qed

text \<open>An overflow the comparison with the last value does not see: the product wraps around to something larger.\<close>

lemma overflow_missed: "snd (power_of 11 19) = []" "2 ^ 64 \<le> (11 :: nat) ^ 19"
  by code_simp simp

text \<open>
  The exponential function of the test module: it ends for every argument, and unless it meets a factorial that is zero in 64 bits
  (from 66 on), its result is the sum of the quotients of power and factorial, both wrapped around, up to the first one that does not
  make the sum larger.
\<close>

theorem exponential_series:
  assumes "div64_spec D"
  shows "if z = 0 then e_tothe_z D z = Inr (1, []) else series_result z 0 0 (e_tothe_z D z)"
  using e_loop_sum [OF assms, of z 0 0] by (simp add: e_tothe_z_def)

theorem exponential_series_witness: "series_result 20 0 0 (e_tothe_z (div) 20)"
  using exponential_series [of "(div)" 20] by (simp add: div64_spec_def)

definition is_overflow :: "line \<Rightarrow> bool" where
  "is_overflow l = (case l of Overflow a b \<Rightarrow> True | _ \<Rightarrow> False)"

lemma longdiv_run:
  "map_sum id (\<lambda>(rc, out). (rc, filter (\<lambda>l. \<not> is_overflow l) out, length (filter is_overflow out))) (longdiv_init (div)) =
   Inr (0, [Starting, Quotient 3 10 0, Product 3 10 30, Power 3 10 59049, Factorial 16 20922789888000, Exponential 20 62323573], 11)"
  by code_simp

text \<open>
  The whole run of the test module: it loads, prints the right quotient, product, power and factorial, eleven messages about
  overflows, and 62323573 for the twentieth power of e, which is 485165195.
\<close>

theorem longdiv_prints:
  assumes "div64_spec D"
  shows "\<exists>out. longdiv_init D = Inr (0, out) \<and> length (filter is_overflow out) = 11 \<and>
    filter (\<lambda>l. \<not> is_overflow l) out =
      [Starting, Quotient 3 10 0, Product 3 10 30, Power 3 10 59049, Factorial 16 20922789888000, Exponential 20 62323573]"
proof -
  have "div64_spec (div)" by (simp add: div64_spec_def)
  from e_loop_cong [OF assms this] have "e_tothe_z D 20 = e_tothe_z (div) 20" by (simp add: e_tothe_z_def)
  moreover have "D 3 10 = 3 div 10" using assms by (simp add: div64_spec_def)
  ultimately have "longdiv_init D = longdiv_init (div)" by (simp only: longdiv_init_def Let_def)
  with longdiv_run show ?thesis by (cases "longdiv_init (div)") auto
qed

theorem longdiv_prints_witness: "\<exists>out. longdiv_init (div) = Inr (0, out) \<and> Exponential 20 62323573 \<in> set out"
proof -
  have "div64_spec (div)" by (simp add: div64_spec_def)
  from longdiv_prints [OF this] obtain out where
    o: "longdiv_init (div) = Inr (0, out)" "filter (\<lambda>l. \<not> is_overflow l) out =
      [Starting, Quotient 3 10 0, Product 3 10 30, Power 3 10 59049, Factorial 16 20922789888000, Exponential 20 62323573]" by blast
  have "Exponential 20 62323573 \<in> set (filter (\<lambda>l. \<not> is_overflow l) out)" by (simp add: o(2))
  with o(1) show ?thesis by auto
qed

end
