(* ===== verification/Playground_Base.thy ===== *)
theory Playground_Base
  imports Kernel_Calls
begin

text \<open>
  What the experimental kernel modules under \<open>playground/\<close> share: the resources they take from the kernel, a log of the calls with
  their outcome, how often a resource is held after a log, and the contract of a module that is loaded and unloaded again.
\<close>

section \<open>Resources and the log\<close>

datatype holding =
    Device_number
  | Char_device
  | Device_class
  | Device_node
  | Card
  | Client int
  | Port_info
  | Rawmidi
  | Virmidi_dev
  | Gpios
  | Irq_line int
  | Platform_driver
  | Platform_device

text \<open>
  \<open>Acquire\<close>: the call returned the resource; \<open>Failed\<close>: it returned an error; \<open>Release\<close>: it was given back, whether it was held or
  not; the other calls take nothing.
\<close>

datatype action =
    Acquire holding
  | Failed holding
  | Release holding
  | Cdev_added int
  | Card_registered int
  | Port_created int
  | Gpio_read int
  | Dispatch int snd_seq_event

fun outstanding :: "holding \<Rightarrow> action list \<Rightarrow> int" where
  "outstanding r [] = 0"
| "outstanding r (Acquire q # as) = (if q = r then 1 else 0) + outstanding r as"
| "outstanding r (Release q # as) = (if q = r then - 1 else 0) + outstanding r as"
| "outstanding r (_ # as) = outstanding r as"

lemma outstanding_append [simp]: "outstanding r (as @ bs) = outstanding r as + outstanding r bs"
  by (induction r as rule: outstanding.induct) simp_all

definition attempt :: "int \<Rightarrow> holding \<Rightarrow> action" where
  "attempt err r = (if err < 0 then Failed r else Acquire r)"

lemma attempt_simps [simp]:
  "err < 0 \<Longrightarrow> attempt err r = Failed r" "\<not> err < 0 \<Longrightarrow> attempt err r = Acquire r"
  by (simp_all add: attempt_def)

text \<open>Names of fields of the kernel's answers that the modules use in the same way.\<close>

record gpio_answers =
  gpio_request_array_rc :: int
  gpio_to_irq_rc :: "int \<Rightarrow> int"
  request_irq_rc :: "int \<Rightarrow> int"

section \<open>Loading and unloading\<close>

text \<open>
  Loading in an environment gives a return code, the state of the module and the log; unloading is run on that state. In the
  environments \<open>ok\<close> after a cycle the resource \<open>r\<close> is held \<open>leak r\<close> times.
\<close>

locale loadable =
  fixes load :: "'env \<Rightarrow> int \<times> 'st \<times> action list"
    and unload :: "'st \<Rightarrow> action list"
    and ok :: "'env \<Rightarrow> bool"
    and leak :: "holding \<Rightarrow> int"
  assumes cycle: "ok E \<Longrightarrow> load E = (rc, st, as) \<Longrightarrow> outstanding r (as @ unload st) = leak r"
begin

definition life :: "'env \<Rightarrow> action list" where
  "life E = (case load E of (rc, st, as) \<Rightarrow> as @ unload st)"

lemma life_balance: "ok E \<Longrightarrow> outstanding r (life E) = leak r"
proof -
  assume "ok E"
  obtain rc st as where "load E = (rc, st, as)" by (rule prod_cases3)
  with cycle [OF \<open>ok E\<close> this] show ?thesis by (simp add: life_def)
qed

lemma lives_balance: "list_all ok Es \<Longrightarrow> outstanding r (concat (map life Es)) = int (length Es) * leak r"
  by (induction Es) (simp_all add: life_balance algebra_simps)

end

end
