(* ===== verification/New_Midi.thy ===== *)
theory New_Midi
  imports Playground_Base Cmidid_System
begin

text \<open>
  The first version of the CMIDID module (\<open>playground/new_midi/new_midi.c\<close>): a character device whose ioctl sends a fixed note to the
  sequencer. Its event is compared with that of its successor \<open>module/cmidid_midi.c\<close>, and what a load that fails leaves behind is
  shown exactly.
\<close>

section \<open>The code\<close>

definition NEWMIDI_BLA :: u32 where "NEWMIDI_BLA = IO_cmd 0 0"
definition NEWMIDI_BLUPP :: u32 where "NEWMIDI_BLUPP = IO_cmd 0 1"

text \<open>The only variable the operations look at is \<open>client\<close>; the pointers are passed to the calls that undo their creation.\<close>

definition config_note :: "int \<Rightarrow> u8 \<Rightarrow> u8 \<Rightarrow> snd_seq_event" where
  "config_note cl notevalue velocity =
     (let notevalue = (if notevalue \<le> 0 then 0 else notevalue);
          notevalue = (if notevalue \<ge> 127 then 127 else notevalue);
          velocity = (if velocity \<le> 0 then 0 else velocity);
          velocity = (if velocity \<ge> 127 then 127 else velocity)
      in \<lparr>ev_type = SNDRV_SEQ_EVENT_NOTEON,
          ev_flags = [SNDRV_SEQ_EVENT_LENGTH_FIXED, SNDRV_SEQ_PRIORITY_NORMAL],
          ev_note = notevalue, ev_channel = 0x00, ev_velocity = velocity,
          ev_duration = 0xffffff, ev_off_velocity = 0x64,
          ev_queue = SNDRV_SEQ_QUEUE_DIRECT,
          ev_dest_client = SNDRV_SEQ_ADDRESS_SUBSCRIBERS, ev_dest_port = 0,
          ev_source_client = Seq_client cl, ev_source_port = 0\<rparr>)"

text \<open>An error of the dispatch is printed only.\<close>

definition new_midi_send_note :: "int \<Rightarrow> u8 \<Rightarrow> u8 \<Rightarrow> action list" where
  "new_midi_send_note cl notevalue velocity =
     (if cl > 0 then [Dispatch cl (config_note cl notevalue velocity)] else [])"

definition new_midi_ioctl :: "int \<Rightarrow> u32 \<Rightarrow> u32 \<Rightarrow> int \<times> action list" where
  "new_midi_ioctl cl cmd arg =
     (if cmd = NEWMIDI_BLA then (0, [])
      else if cmd = NEWMIDI_BLUPP then (0, new_midi_send_note cl 0x3b 127)
      else (0, []))"

text \<open>\<open>ioctl_test.c\<close> beside it: the exit code and what the module does.\<close>

definition new_midi_ioctl_test :: "int \<Rightarrow> int \<Rightarrow> int \<times> action list" where
  "new_midi_ioctl_test fd cl = (if fd = - 1 then (2, []) else (0, snd (new_midi_ioctl cl NEWMIDI_BLUPP 0)))"

lemma new_midi_ioctl_test_note:
  "fd \<noteq> - 1 \<Longrightarrow> 0 < cl \<Longrightarrow> new_midi_ioctl_test fd cl = (0, [Dispatch cl (config_note cl 59 127)])"
  by (simp add: new_midi_ioctl_test_def new_midi_ioctl_def NEWMIDI_BLA_def NEWMIDI_BLUPP_def IO_cmd_def new_midi_send_note_def)

text \<open>The answers of the kernel.\<close>

record new_midi_env =
  nm_chrdev_region :: int
  nm_cdev_alloc :: bool
  nm_cdev_add :: int
  nm_card_create :: int
  nm_create_client :: int
  nm_kzalloc :: bool
  nm_create_port :: int

text \<open>\<open>init_midi\<close>: the return code, \<open>client\<close> and the log. When the client cannot be created \<open>err\<close> still holds the code of the card.\<close>

definition init_midi :: "new_midi_env \<Rightarrow> int \<Rightarrow> int \<times> int \<times> action list" where
  "init_midi E cl =
     (let err = nm_card_create E; as = [attempt err Card]
      in if err < 0 then (err, cl, as)
      else
      let cl = nm_create_client E; as = as @ [attempt cl (Client cl)]
      in if cl < 0 then (err, cl, as)
      else if \<not> nm_kzalloc E then (- ENOMEM, cl, as @ [Failed Port_info])
      else
      let err = nm_create_port E; as = as @ [Acquire Port_info, Port_created err]
      in if err < 0 then (err, cl, as)
      else (0, cl, as))"

definition exit_midi :: "int \<Rightarrow> action list" where
  "exit_midi cl = [Release (Client cl), Release Card]"

definition new_midi_init :: "new_midi_env \<Rightarrow> int \<times> int \<times> action list" where
  "new_midi_init E =
     (if nm_chrdev_region E < 0 then (- EIO, 0, [Failed Device_number])
      else
      let as = [Acquire Device_number]
      in if \<not> nm_cdev_alloc E then (- EIO, 0, as @ [Failed Char_device, Release Device_number])
      else
      let as = as @ [Acquire Char_device, Cdev_added (nm_cdev_add E)]
      in if nm_cdev_add E \<noteq> 0 then (- EIO, 0, as @ [Release Char_device, Release Device_number])
      else
      let as = as @ [Acquire Device_class, Acquire Device_node];
          (rc, cl, as') = init_midi E 0
      in (rc, cl, as @ as'))"

definition new_midi_exit :: "int \<Rightarrow> action list" where
  "new_midi_exit cl =
     exit_midi cl @ [Release Device_node, Release Device_class, Release Char_device, Release Device_number]"

section \<open>Loading and unloading\<close>

text \<open>Deleting the client also deletes its port; the block of memory that describes the port is never freed.\<close>

definition all_created :: "new_midi_env \<Rightarrow> bool" where
  "all_created E \<longleftrightarrow> fst (new_midi_init E) = 0 \<and> 0 \<le> nm_create_client E"

definition new_midi_leak :: "holding \<Rightarrow> int" where
  "new_midi_leak r = (if r = Port_info then 1 else 0)"

lemma new_midi_success:
  assumes "all_created E"
  shows "new_midi_init E = (0, nm_create_client E,
    [Acquire Device_number, Acquire Char_device, Cdev_added 0, Acquire Device_class, Acquire Device_node,
     Acquire Card, Acquire (Client (nm_create_client E)), Acquire Port_info, Port_created (nm_create_port E)])"
  using assms by (auto simp: all_created_def new_midi_init_def init_midi_def EIO_def ENOMEM_def Let_def split: if_splits)

interpretation nm: loadable new_midi_init new_midi_exit all_created new_midi_leak
  by unfold_locales (auto simp: new_midi_success new_midi_exit_def exit_midi_def new_midi_leak_def)

section \<open>Properties\<close>

text \<open>
  The note of the experiment is the note of the module that grew out of it: without transposition and on channel 0 the two events
  differ in the release velocity only, for every pitch and velocity.
\<close>

theorem config_note_agrees:
  assumes "transpose st = 0" and "midi_channel st = 0"
  shows "config_note (client st) n v = (config_note_event st n v SNDRV_SEQ_EVENT_NOTEON)\<lparr>ev_off_velocity := 0x64\<rparr>"
proof -
  have "n = 0" if "n \<le> 0" for n :: u8 using that by (simp add: word_le_nat_alt unat_eq_0)
  with assms show ?thesis by (simp add: config_note_def config_note_event_def Let_def)
qed

theorem config_note_agrees_witness:
  "config_note 128 200 127 = (config_note_event (midi_state_init\<lparr>client := 128\<rparr>) 200 127 SNDRV_SEQ_EVENT_NOTEON)\<lparr>ev_off_velocity := 0x64\<rparr>"
  using config_note_agrees [of "midi_state_init\<lparr>client := 128\<rparr>" 200 127] by (simp add: midi_state_init_def)

text \<open>
  C39. Loading the experiment: loaded and unloaded any number of times, each time with everything created it asks for, it gives back all
  but the description of its port, which stays allocated each time. When the MIDI part of the load fails, which shows in a negative code other
  than \<open>-EIO\<close>, the code of the parts before it, the character device, its number, class and node stay
  registered, although the kernel removes the code behind them.
\<close>

theorem new_midi_leaks:
  "(\<forall>Es r. list_all all_created Es \<longrightarrow>
      outstanding r (concat (map nm.life Es)) = (if r = Port_info then int (length Es) else 0)) \<and>
   (\<forall>E r. fst (new_midi_init E) < 0 \<longrightarrow> fst (new_midi_init E) \<noteq> - EIO \<longrightarrow> r \<in> {Device_number, Char_device, Device_class, Device_node} \<longrightarrow>
      outstanding r (snd (snd (new_midi_init E))) = 1)"
proof (intro conjI allI impI)
  fix Es r assume "list_all all_created Es"
  with nm.lives_balance [of Es r] show "outstanding r (concat (map nm.life Es)) = (if r = Port_info then int (length Es) else 0)"
    by (simp add: new_midi_leak_def)
next
  fix E r assume "fst (new_midi_init E) < 0" "fst (new_midi_init E) \<noteq> - EIO" "r \<in> {Device_number, Char_device, Device_class, Device_node}"
  then show "outstanding r (snd (snd (new_midi_init E))) = 1"
    by (auto simp: new_midi_init_def init_midi_def Let_def attempt_def split: if_splits)
qed


definition sample_new_midi :: "int \<Rightarrow> new_midi_env" where
  "sample_new_midi port =
     \<lparr>nm_chrdev_region = 0, nm_cdev_alloc = True, nm_cdev_add = 0, nm_card_create = 0, nm_create_client = 128,
      nm_kzalloc = True, nm_create_port = port\<rparr>"

theorem new_midi_leaks_witness:
  "outstanding Port_info (concat (map nm.life [sample_new_midi 0, sample_new_midi 0])) = 2 \<and>
   outstanding Device_node (snd (snd (new_midi_init (sample_new_midi (- ENOMEM))))) = 1"
proof
  have "list_all all_created [sample_new_midi 0, sample_new_midi 0]"
    by (simp add: all_created_def sample_new_midi_def new_midi_init_def init_midi_def)
  with conjunct1 [OF new_midi_leaks] have "outstanding Port_info (concat (map nm.life [sample_new_midi 0, sample_new_midi 0])) =
      (if Port_info = Port_info then int (length [sample_new_midi 0, sample_new_midi 0]) else 0)" by blast
  then show "outstanding Port_info (concat (map nm.life [sample_new_midi 0, sample_new_midi 0])) = 2" by simp
  have "fst (new_midi_init (sample_new_midi (- ENOMEM))) = - ENOMEM"
    by (simp add: sample_new_midi_def new_midi_init_def init_midi_def ENOMEM_def)
  then have "fst (new_midi_init (sample_new_midi (- ENOMEM))) < 0" "fst (new_midi_init (sample_new_midi (- ENOMEM))) \<noteq> - EIO"
    by (simp_all add: ENOMEM_def EIO_def)
  then show "outstanding Device_node (snd (snd (new_midi_init (sample_new_midi (- ENOMEM))))) = 1"
    using conjunct2 [OF new_midi_leaks] by blast
qed

end
