(* ===== verification/Playground_Gpio.thy ===== *)
theory Playground_Gpio
  imports Playground_Base
begin

text \<open>
  The experiments with GPIO interrupts: \<open>playground/gpio_irq_test/gpio_irq_test.c\<close> and \<open>playground/pi_gpio/pi_gpio.c\<close>. Each asks for
  two GPIOs and their interrupts when it is loaded and gives them back when it is unloaded. The interrupt handler of the second
  uses a variable it does not declare, so it does not compile; the other operations are modelled. The lemmas show that a successful load is
  undone by unloading, and what a load that fails leaves behind.
\<close>

section \<open>gpio_irq_test.c\<close>

definition buttons :: "int list" where
  "buttons = [4, 22]"

text \<open>The handler reads the level of the first button for its interrupt, and does nothing for the second.\<close>

definition button_isr :: "int list \<Rightarrow> int \<Rightarrow> action list" where
  "button_isr button_irqs irq = (if irq = button_irqs ! 0 then [Gpio_read (buttons ! 0)] else [])"

text \<open>
  The two interrupts are asked for one after the other. All errors lead to \<open>fail3\<close>, which frees the interrupt in \<open>button_irqs[0]\<close>,
  initially -1.
\<close>

definition fail3 :: "int list \<Rightarrow> action list" where
  "fail3 button_irqs = [Release (Irq_line (button_irqs ! 0))]"

definition gpiomode_init :: "gpio_answers \<Rightarrow> int \<times> int list \<times> action list" where
  "gpiomode_init E =
     (let irqs = [- 1, - 1]; ret = gpio_request_array_rc E
      in if ret \<noteq> 0 then (ret, irqs, Failed Gpios # fail3 irqs)
      else
      let as = [Acquire Gpios, Gpio_read (buttons ! 0)]; ret = gpio_to_irq_rc E (buttons ! 0)
      in if ret < 0 then (ret, irqs, as @ fail3 irqs)
      else
      let irqs = irqs[0 := ret]; ret = request_irq_rc E (irqs ! 0)
      in if ret \<noteq> 0 then (ret, irqs, as @ [Failed (Irq_line (irqs ! 0))] @ fail3 irqs)
      else
      let as = as @ [Acquire (Irq_line (irqs ! 0))]; ret = gpio_to_irq_rc E (buttons ! 1)
      in if ret < 0 then (ret, irqs, as @ fail3 irqs)
      else
      let irqs = irqs[1 := ret]; ret = request_irq_rc E (irqs ! 1)
      in if ret \<noteq> 0 then (ret, irqs, as @ [Failed (Irq_line (irqs ! 1))] @ fail3 irqs)
      else (0, irqs, as @ [Acquire (Irq_line (irqs ! 1))]))"

definition gpiomode_exit :: "int list \<Rightarrow> action list" where
  "gpiomode_exit button_irqs =
     [Release (Irq_line (button_irqs ! 0)), Release (Irq_line (button_irqs ! 1)), Release Gpios]"

lemma gpiomode_success:
  assumes "gpiomode_init E = (0, irqs, as)"
  shows "irqs = [gpio_to_irq_rc E 4, gpio_to_irq_rc E 22]"
    and "as = [Acquire Gpios, Gpio_read 4, Acquire (Irq_line (gpio_to_irq_rc E 4)), Acquire (Irq_line (gpio_to_irq_rc E 22))]"
  using assms by (auto simp: gpiomode_init_def buttons_def Let_def split: if_splits)

section \<open>pi_gpio.c\<close>

definition ports :: "int list" where
  "ports = [4, 22]"

record pi_gpio_state =
  port_irqs :: "int list"
  irq_times :: "s64 list"

text \<open>\<open>ARRAY_SIZE(port_irqs)\<close> rounds, from \<open>i\<close> on.\<close>

fun irq_index_from :: "int list \<Rightarrow> int \<Rightarrow> int \<Rightarrow> int" where
  "irq_index_from [] irq i = - 1"
| "irq_index_from (q # qs) irq i = (if q = irq then i else irq_index_from qs irq (i + 1))"

definition get_irq_index :: "pi_gpio_state \<Rightarrow> int \<Rightarrow> int" where
  "get_irq_index st irq = irq_index_from (port_irqs st) irq 0"

definition pi_gpio_cleanup :: "pi_gpio_state \<Rightarrow> action list" where
  "pi_gpio_cleanup st = map (\<lambda>q. Release (Irq_line q)) (port_irqs st) @ [Release Gpios]"

text \<open>The loop that asks for the interrupts: every error returns at once.\<close>

fun request_ports :: "gpio_answers \<Rightarrow> int list \<Rightarrow> nat \<Rightarrow> int list \<Rightarrow> int \<times> int list \<times> action list" where
  "request_ports E [] i irqs = (0, irqs, [])"
| "request_ports E (g # gs) i irqs =
     (let ret = gpio_to_irq_rc E g
      in if ret < 0 then (ret, irqs, [])
      else
      let irqs = irqs[i := ret]; ret = request_irq_rc E (irqs ! i)
      in if ret \<noteq> 0 then (ret, irqs, [Failed (Irq_line (irqs ! i))])
      else
      let (rc, irqs', as) = request_ports E gs (Suc i) irqs
      in (rc, irqs', Acquire (Irq_line (irqs ! i)) # as))"

text \<open>\<open>now\<close> are the times \<open>ktime_get\<close> returns, one for each port.\<close>

definition pi_gpio_init :: "s64 list \<Rightarrow> gpio_answers \<Rightarrow> int \<times> pi_gpio_state \<times> action list" where
  "pi_gpio_init now E =
     (let st = \<lparr>port_irqs = map (\<lambda>_. - 1) ports, irq_times = map (\<lambda>_. 0) ports\<rparr>;
          ret = gpio_request_array_rc E
      in if ret \<noteq> 0 then (ret, st, [Failed Gpios])
      else
      let (ret, irqs, as) = request_ports E ports 0 (port_irqs st);
          st = st\<lparr>port_irqs := irqs\<rparr>
      in if ret \<noteq> 0 then (ret, st, Acquire Gpios # as)
      else (0, st\<lparr>irq_times := now\<rparr>, Acquire Gpios # as))"

definition pi_gpio_exit :: "pi_gpio_state \<Rightarrow> action list" where
  "pi_gpio_exit st = pi_gpio_cleanup st"

lemma irq_index_from_range:
  "irq_index_from qs irq i = (if irq \<in> set qs then i + int (length (takeWhile (\<lambda>q. q \<noteq> irq) qs)) else - 1)"
  by (induction qs arbitrary: i) auto

lemma pi_gpio_success:
  assumes "pi_gpio_init now E = (0, st, as)"
  shows "st = \<lparr>port_irqs = [gpio_to_irq_rc E 4, gpio_to_irq_rc E 22], irq_times = now\<rparr>"
    and "as = [Acquire Gpios, Acquire (Irq_line (gpio_to_irq_rc E 4)), Acquire (Irq_line (gpio_to_irq_rc E 22))]"
  using assms by (auto simp: pi_gpio_init_def ports_def Let_def split: if_splits)

section \<open>Loading and unloading\<close>

interpretation gm: loadable gpiomode_init gpiomode_exit "\<lambda>E. fst (gpiomode_init E) = 0" "\<lambda>r. 0"
proof
  fix E rc st as r assume "fst (gpiomode_init E) = 0" "gpiomode_init E = (rc, st, as)"
  then have i: "gpiomode_init E = (0, st, as)" by simp
  show "outstanding r (as @ gpiomode_exit st) = 0" by (simp add: gpiomode_success [OF i] gpiomode_exit_def)
qed

interpretation pg: loadable "pi_gpio_init now" pi_gpio_exit "\<lambda>E. fst (pi_gpio_init now E) = 0" "\<lambda>r. 0"
proof
  fix E rc st as r assume "fst (pi_gpio_init now E) = 0" "pi_gpio_init now E = (rc, st, as)"
  then have i: "pi_gpio_init now E = (0, st, as)" by simp
  show "outstanding r (as @ pi_gpio_exit st) = 0" by (simp add: pi_gpio_success [OF i] pi_gpio_exit_def pi_gpio_cleanup_def)
qed

section \<open>Properties\<close>

text \<open>
  C38. The experiments with interrupts, loaded and unloaded any number of times with success, give back every GPIO and interrupt they
  took. A load that fails after the GPIOs were granted keeps them for good, in both modules; and the second one also
  keeps the interrupt of the first button when the second one cannot be had.
\<close>

theorem gpio_experiments_balanced:
  "(list_all (\<lambda>E. fst (gpiomode_init E) = 0) Es \<longrightarrow> outstanding r (concat (map gm.life Es)) = 0) \<and>
   (list_all (\<lambda>E. fst (pi_gpio_init now E) = 0) Es \<longrightarrow> outstanding r (concat (map (pg.life now) Es)) = 0) \<and>
   (gpio_request_array_rc E = 0 \<longrightarrow> fst (gpiomode_init E) \<noteq> 0 \<longrightarrow> outstanding Gpios (snd (snd (gpiomode_init E))) = 1) \<and>
   (gpio_request_array_rc E = 0 \<longrightarrow> fst (pi_gpio_init now E) \<noteq> 0 \<longrightarrow> outstanding Gpios (snd (snd (pi_gpio_init now E))) = 1) \<and>
   (gpio_request_array_rc E = 0 \<longrightarrow> gpio_to_irq_rc E 4 = n \<longrightarrow> 0 \<le> n \<longrightarrow> request_irq_rc E n = 0 \<longrightarrow> gpio_to_irq_rc E 22 < 0 \<longrightarrow>
      outstanding (Irq_line n) (snd (snd (pi_gpio_init now E))) = 1)"
proof (intro conjI impI)
  show "list_all (\<lambda>E. fst (gpiomode_init E) = 0) Es \<Longrightarrow> outstanding r (concat (map gm.life Es)) = 0"
    by (simp add: gm.lives_balance)
  show "list_all (\<lambda>E. fst (pi_gpio_init now E) = 0) Es \<Longrightarrow> outstanding r (concat (map (pg.life now) Es)) = 0"
    by (simp add: pg.lives_balance)
qed (auto simp: gpiomode_init_def fail3_def pi_gpio_init_def ports_def buttons_def Let_def split: if_splits)


definition sample_gpios :: "int \<Rightarrow> gpio_answers" where
  "sample_gpios second =
     \<lparr>gpio_request_array_rc = 0, gpio_to_irq_rc = (\<lambda>g. if g = 4 then 174 else second), request_irq_rc = (\<lambda>_. 0)\<rparr>"

theorem gpio_experiments_balanced_witness:
  "outstanding Gpios (concat (map gm.life [sample_gpios 192, sample_gpios 192])) = 0 \<and>
   outstanding (Irq_line 174) (snd (snd (pi_gpio_init [0, 0] (sample_gpios (- EINVAL))))) = 1"
proof
  have "list_all (\<lambda>E. fst (gpiomode_init E) = 0) [sample_gpios 192, sample_gpios 192]"
    by (simp add: sample_gpios_def gpiomode_init_def buttons_def)
  with gpio_experiments_balanced show "outstanding Gpios (concat (map gm.life [sample_gpios 192, sample_gpios 192])) = 0" by blast
  have "gpio_request_array_rc (sample_gpios (- EINVAL)) = 0" "gpio_to_irq_rc (sample_gpios (- EINVAL)) 4 = 174" "(0 :: int) \<le> 174"
    "request_irq_rc (sample_gpios (- EINVAL)) 174 = 0" "gpio_to_irq_rc (sample_gpios (- EINVAL)) 22 < 0"
    by (simp_all add: sample_gpios_def EINVAL_def)
  with gpio_experiments_balanced show "outstanding (Irq_line 174) (snd (snd (pi_gpio_init [0, 0] (sample_gpios (- EINVAL))))) = 1" by blast
qed

end
