(* ===== verification/Hello_Midi.thy ===== *)
theory Hello_Midi
  imports Playground_Gpio
begin

text \<open>
  The experiment \<open>playground/hello_midi/hello_midi.c\<close>: a platform driver with a sound card, a raw MIDI device whose streams
  carry nothing, a sequencer client, and a button whose interrupt sends a note. The kernel calls the probe function when the device is
  registered, the remove function when a device that was probed is unregistered, and, when the card is freed, the callbacks of
  its raw MIDI device. The lemmas show which client the interrupt handler uses in which state, that unloading undoes a load in
  which everything succeeded, and what it frees twice otherwise.
\<close>

section \<open>State\<close>

text \<open>The variables of the file: the sequencer client, and the interrupts of the buttons.\<close>

record hello_state =
  hello_client :: int
  hello_irqs :: "int list"
  drvdata :: bool
  rawmidi :: bool

text \<open>
  \<open>drvdata\<close>: the card was stored for the remove function; \<open>rawmidi\<close>: the card has a raw MIDI device with the driver's data.
\<close>

definition hello_initial :: hello_state where
  "hello_initial = \<lparr>hello_client = 0, hello_irqs = [- 1, - 1], drvdata = False, rawmidi = False\<rparr>"

record hello_env =
  card_create_rc :: int
  rawmidi_new_rc :: int
  rdev_kzalloc :: bool
  pinfo_kzalloc :: bool
  create_client_rc :: int
  create_port_rc :: int
  card_register_rc :: int
  gpio_rcs :: gpio_answers

section \<open>The interrupt\<close>

definition hello_note :: "int \<Rightarrow> snd_seq_event" where
  "hello_note cl =
     \<lparr>ev_type = SNDRV_SEQ_EVENT_NOTEON,
      ev_flags = [SNDRV_SEQ_EVENT_LENGTH_FIXED, SNDRV_SEQ_PRIORITY_NORMAL],
      ev_note = 0x3B, ev_channel = 0x00, ev_velocity = 0x64,
      ev_duration = 0xffffff, ev_off_velocity = 0x64,
      ev_queue = SNDRV_SEQ_QUEUE_DIRECT,
      ev_dest_client = SNDRV_SEQ_ADDRESS_SUBSCRIBERS, ev_dest_port = 0,
      ev_source_client = Seq_client cl, ev_source_port = 0\<rparr>"

text \<open>\<open>if (client)\<close>: any number but zero.\<close>

definition timercallback :: "hello_state \<Rightarrow> action list" where
  "timercallback st = (if hello_client st \<noteq> 0 then [Dispatch (hello_client st) (hello_note (hello_client st))] else [])"

definition hello_button_isr :: "hello_state \<Rightarrow> int \<Rightarrow> action list" where
  "hello_button_isr st irq = (if irq = hello_irqs st ! 0 then Gpio_read (buttons ! 0) # timercallback st else [])"

section \<open>The raw MIDI device\<close>

text \<open>
  Its callbacks return 0 and print; registering it does nothing else, unregistering it deletes the client, and freeing it frees the
  data of the driver.
\<close>

definition hello_midi_dev_register :: int where "hello_midi_dev_register = 0"

definition hello_midi_dev_unregister :: "hello_state \<Rightarrow> int \<times> hello_state \<times> action list" where
  "hello_midi_dev_unregister st =
     (if hello_client st \<noteq> 0 then (0, st\<lparr>hello_client := 0\<rparr>, [Release (Client (hello_client st))]) else (0, st, []))"

definition hello_midi_free :: "action list" where
  "hello_midi_free = [Release Virmidi_dev]"

text \<open>
  The operations of its two streams. A substream is a number; \<open>alsa_substream\<close> is the one variable they write, and nothing
  reads it. The output stream stores the substream it was triggered with and keeps it when the substream is closed.
\<close>

record stream_ops =
  stream_open :: "nat \<Rightarrow> int"
  stream_close :: "nat \<Rightarrow> int"
  stream_trigger :: "nat \<Rightarrow> bool \<Rightarrow> nat option \<Rightarrow> nat option"

definition hello_midi_input_open :: "nat \<Rightarrow> int" where "hello_midi_input_open substream = 0"
definition hello_midi_input_close :: "nat \<Rightarrow> int" where "hello_midi_input_close substream = 0"

definition hello_midi_input_trigger :: "nat \<Rightarrow> bool \<Rightarrow> nat option \<Rightarrow> nat option" where
  "hello_midi_input_trigger substream up alsa_substream = alsa_substream"

definition hello_midi_input_ops :: stream_ops where
  "hello_midi_input_ops = \<lparr>stream_open = hello_midi_input_open, stream_close = hello_midi_input_close,
     stream_trigger = hello_midi_input_trigger\<rparr>"

definition hello_midi_output_open :: "nat \<Rightarrow> int" where "hello_midi_output_open substream = 0"
definition hello_midi_output_close :: "nat \<Rightarrow> int" where "hello_midi_output_close substream = 0"

definition hello_midi_output_trigger :: "nat \<Rightarrow> bool \<Rightarrow> nat option \<Rightarrow> nat option" where
  "hello_midi_output_trigger substream up alsa_substream = Some substream"

definition hello_midi_output_ops :: stream_ops where
  "hello_midi_output_ops = \<lparr>stream_open = hello_midi_output_open, stream_close = hello_midi_output_close,
     stream_trigger = hello_midi_output_trigger\<rparr>"

text \<open>Any sequence of calls through the two tables of operations, with the results.\<close>

datatype stream_call = Stream_open bool nat | Stream_close bool nat | Stream_trigger bool nat bool

fun stream_table :: "bool \<Rightarrow> stream_ops" where
  "stream_table output = (if output then hello_midi_output_ops else hello_midi_input_ops)"

fun run_streams :: "stream_call list \<Rightarrow> nat option \<Rightarrow> int list \<times> nat option" where
  "run_streams [] alsa = ([], alsa)"
| "run_streams (Stream_open out n # cs) alsa =
     (case run_streams cs alsa of (rs, alsa) \<Rightarrow> (stream_open (stream_table out) n # rs, alsa))"
| "run_streams (Stream_close out n # cs) alsa =
     (case run_streams cs alsa of (rs, alsa) \<Rightarrow> (stream_close (stream_table out) n # rs, alsa))"
| "run_streams (Stream_trigger out n up # cs) alsa = run_streams cs (stream_trigger (stream_table out) n up alsa)"

lemmas stream_defs = hello_midi_input_ops_def hello_midi_output_ops_def hello_midi_input_open_def
  hello_midi_input_close_def hello_midi_input_trigger_def hello_midi_output_open_def hello_midi_output_close_def
  hello_midi_output_trigger_def

fun triggered :: "stream_call \<Rightarrow> nat list" where
  "triggered (Stream_trigger out n up) = (if out then [n] else [])"
| "triggered (Stream_open out n) = []"
| "triggered (Stream_close out n) = []"

lemma streams_succeed:
  "run_streams cs alsa = (rs, alsa') \<Longrightarrow>
     set rs \<subseteq> {0} \<and> alsa' = (if concat (map triggered cs) = [] then alsa else Some (last (concat (map triggered cs))))"
  by (induction cs alsa arbitrary: rs rule: run_streams.induct)
    (auto simp: stream_defs split: prod.splits if_splits)

text \<open>The device that \<open>rrmidi\<close> points to in the end, if any.\<close>

definition hello_midi_new :: "hello_env \<Rightarrow> int \<times> bool \<times> action list" where
  "hello_midi_new E =
     (if rawmidi_new_rc E < 0 then (rawmidi_new_rc E, False, [Failed Rawmidi])
      else if \<not> rdev_kzalloc E then (- ENOMEM, False, [Acquire Rawmidi, Failed Virmidi_dev, Release Rawmidi])
      else (0, True, [Acquire Rawmidi, Acquire Virmidi_dev]))"

definition snd_virmidi_dev_attach_seq :: "hello_env \<Rightarrow> hello_state \<Rightarrow> int \<times> hello_state \<times> action list" where
  "snd_virmidi_dev_attach_seq E st =
     (if \<not> pinfo_kzalloc E then (- ENOMEM, st, [Failed Port_info])
      else
      let st = st\<lparr>hello_client := create_client_rc E\<rparr>;
          as = [Acquire Port_info, attempt (hello_client st) (Client (hello_client st))]
      in if hello_client st < 0 then (hello_client st, st, as @ [Release Port_info])
      else
      let err = create_port_rc E; as = as @ [Port_created err]
      in if err < 0 then (err, st, as @ [Release (Client (hello_client st)), Release Port_info])
      else (0, st, as @ [Release Port_info]))"

section \<open>The platform driver\<close>

text \<open>\<open>strcpy(rmidi->name, ...)\<close> dereferences the device, which \<open>hello_midi_new\<close> has set to \<open>NULL\<close> when it fails; its result is not looked at.\<close>

definition hellomidi_probe :: "hello_env \<Rightarrow> hello_state \<Rightarrow> (int \<times> hello_state \<times> action list) res" where
  "hellomidi_probe E st =
     (if card_create_rc E < 0 then Inr (card_create_rc E, st, [Failed Card])
      else
      let (_, rmidi, as) = hello_midi_new E
      in if \<not> rmidi then Inl Null_pointer
      else
      let st = st\<lparr>rawmidi := True\<rparr>;
          (_, st, as') = snd_virmidi_dev_attach_seq E st;
          as = Acquire Card # as @ as' @ [Card_registered (card_register_rc E)]
      in if card_register_rc E < 0 then Inr (card_register_rc E, st, as)
      else Inr (0, st\<lparr>drvdata := True\<rparr>, as))"

text \<open>\<open>snd_card_free\<close> calls the callbacks of the raw MIDI device of the card.\<close>

definition hellomidi_remove :: "hello_state \<Rightarrow> int \<times> hello_state \<times> action list" where
  "hellomidi_remove st =
     (let (_, st, as) = hello_midi_dev_unregister st
      in (0, st\<lparr>rawmidi := False, drvdata := False\<rparr>, as @ hello_midi_free @ [Release Rawmidi, Release Card]))"

section \<open>Buttons\<close>

text \<open>As in \<open>gpio_irq_test.c\<close>, but an error frees both interrupts.\<close>

definition hello_fail3 :: "int list \<Rightarrow> action list" where
  "hello_fail3 irqs = [Release (Irq_line (irqs ! 0)), Release (Irq_line (irqs ! 1))]"

definition hello_gpiomode_init :: "gpio_answers \<Rightarrow> int list \<Rightarrow> int \<times> int list \<times> action list" where
  "hello_gpiomode_init E irqs =
     (let ret = gpio_request_array_rc E
      in if ret \<noteq> 0 then (ret, irqs, Failed Gpios # hello_fail3 irqs)
      else
      let as = [Acquire Gpios, Gpio_read (buttons ! 0)]; ret = gpio_to_irq_rc E (buttons ! 0)
      in if ret < 0 then (ret, irqs, as @ hello_fail3 irqs)
      else
      let irqs = irqs[0 := ret]; ret = request_irq_rc E (irqs ! 0)
      in if ret \<noteq> 0 then (ret, irqs, as @ [Failed (Irq_line (irqs ! 0))] @ hello_fail3 irqs)
      else
      let as = as @ [Acquire (Irq_line (irqs ! 0))]; ret = gpio_to_irq_rc E (buttons ! 1)
      in if ret < 0 then (ret, irqs, as @ hello_fail3 irqs)
      else
      let irqs = irqs[1 := ret]; ret = request_irq_rc E (irqs ! 1)
      in if ret \<noteq> 0 then (ret, irqs, as @ [Failed (Irq_line (irqs ! 1))] @ hello_fail3 irqs)
      else (0, irqs, as @ [Acquire (Irq_line (irqs ! 1))]))"

section \<open>Loading and unloading\<close>

text \<open>The results of registering the driver and of \<open>gpiomode_init\<close> are not looked at: the module always loads.\<close>

definition hello_midi_init :: "hello_env \<Rightarrow> (int \<times> hello_state \<times> action list) res" where
  "hello_midi_init E =
     bind_res (hellomidi_probe E hello_initial) (\<lambda>(_, st, as).
       let (_, irqs, as') = hello_gpiomode_init (gpio_rcs E) (hello_irqs st)
       in Inr (0, st\<lparr>hello_irqs := irqs\<rparr>, [Acquire Platform_driver, Acquire Platform_device] @ as @ as'))"

definition hello_midi_exit :: "hello_state \<Rightarrow> action list" where
  "hello_midi_exit st =
     (if drvdata st then snd (snd (hellomidi_remove st)) else []) @
     [Release Platform_device, Release Platform_driver,
      Release (Irq_line (hello_irqs st ! 0)), Release (Irq_line (hello_irqs st ! 1)), Release Gpios]"


section \<open>Lemmas\<close>

text \<open>The environments in which all goes well up to the sequencer client, and the state and log of the load there.\<close>

definition hello_ok :: "hello_env \<Rightarrow> bool" where
  "hello_ok E \<longleftrightarrow> 0 \<le> card_create_rc E \<and> 0 \<le> rawmidi_new_rc E \<and> rdev_kzalloc E \<and> pinfo_kzalloc E \<and>
     create_client_rc E \<noteq> 0 \<and> 0 \<le> card_register_rc E"

definition client_gone :: "hello_env \<Rightarrow> bool" where
  "client_gone E \<longleftrightarrow> create_client_rc E < 0 \<or> create_port_rc E < 0"

lemma probe_ok:
  assumes "hello_ok E"
  obtains as where "hellomidi_probe E hello_initial =
      Inr (0, \<lparr>hello_client = create_client_rc E, hello_irqs = [- 1, - 1], drvdata = True, rawmidi = True\<rparr>, as)"
    and "\<And>r. outstanding r as = (if r \<in> {Card, Rawmidi, Virmidi_dev} then 1 else 0) +
      (if r = Client (create_client_rc E) \<and> \<not> client_gone E then 1 else 0)"
proof -
  have "\<exists>as. hellomidi_probe E hello_initial =
      Inr (0, \<lparr>hello_client = create_client_rc E, hello_irqs = [- 1, - 1], drvdata = True, rawmidi = True\<rparr>, as) \<and>
    (\<forall>r. outstanding r as = (if r \<in> {Card, Rawmidi, Virmidi_dev} then 1 else 0) +
      (if r = Client (create_client_rc E) \<and> \<not> client_gone E then 1 else 0))"
    using assms
    by (cases "create_client_rc E < 0"; cases "create_port_rc E < 0")
      (simp_all add: hellomidi_probe_def hello_ok_def hello_midi_new_def snd_virmidi_dev_attach_seq_def hello_initial_def client_gone_def Let_def)
  then show ?thesis using that by blast
qed

lemma hello_gpiomode_success:
  assumes "hello_gpiomode_init G irqs = (0, irqs', as)" and "length irqs = 2"
  shows "irqs' = [gpio_to_irq_rc G 4, gpio_to_irq_rc G 22]"
    and "as = [Acquire Gpios, Gpio_read 4, Acquire (Irq_line (gpio_to_irq_rc G 4)), Acquire (Irq_line (gpio_to_irq_rc G 22))]"
  using assms by (auto simp: hello_gpiomode_init_def buttons_def Let_def length_Suc_conv numeral_2_eq_2 split: if_splits)

section \<open>Properties\<close>

text \<open>
  C36. The hello experiment: when the load goes well, unloading gives back everything it took, and the interrupt of the first button
  reads the button and sends one note to the client. When the client could not be created, or was deleted because its port could not, the load
  still succeeds, the interrupt uses the client all the same, and unloading deletes it although it does not exist.
\<close>

theorem hello_midi_life:
  assumes "hello_ok E" and "hello_gpiomode_init (gpio_rcs E) [- 1, - 1] = (0, irqs, as0)"
  shows "\<exists>st as. hello_midi_init E = Inr (0, st, as) \<and>
    hello_button_isr st (irqs ! 0) = [Gpio_read 4, Dispatch (create_client_rc E) (hello_note (create_client_rc E))] \<and>
    (\<forall>r. outstanding r (as @ hello_midi_exit st) = (if client_gone E \<and> r = Client (create_client_rc E) then - 1 else 0))"
proof -
  obtain as where p: "hellomidi_probe E hello_initial =
      Inr (0, \<lparr>hello_client = create_client_rc E, hello_irqs = [- 1, - 1], drvdata = True, rawmidi = True\<rparr>, as)"
    and b: "\<And>r. outstanding r as = (if r \<in> {Card, Rawmidi, Virmidi_dev} then 1 else 0) +
      (if r = Client (create_client_rc E) \<and> \<not> client_gone E then 1 else 0)"
    using probe_ok [OF assms(1)] by blast
  have g: "irqs = [gpio_to_irq_rc (gpio_rcs E) 4, gpio_to_irq_rc (gpio_rcs E) 22]"
      "as0 = [Acquire Gpios, Gpio_read 4, Acquire (Irq_line (gpio_to_irq_rc (gpio_rcs E) 4)), Acquire (Irq_line (gpio_to_irq_rc (gpio_rcs E) 22))]"
    using hello_gpiomode_success [OF assms(2)] by simp_all
  let ?st = "\<lparr>hello_client = create_client_rc E, hello_irqs = irqs, drvdata = True, rawmidi = True\<rparr>"
  have "hello_midi_init E = Inr (0, ?st, [Acquire Platform_driver, Acquire Platform_device] @ as @ as0)"
    by (simp add: hello_midi_init_def p assms(2))
  moreover have "create_client_rc E \<noteq> 0" using assms(1) by (simp add: hello_ok_def)
  moreover from this have "outstanding r (([Acquire Platform_driver, Acquire Platform_device] @ as @ as0) @ hello_midi_exit ?st) =
      (if client_gone E \<and> r = Client (create_client_rc E) then - 1 else 0)" for r
    by (simp add: b g hello_midi_exit_def hellomidi_remove_def hello_midi_dev_unregister_def hello_midi_free_def)
  moreover have "hello_button_isr ?st (irqs ! 0) = [Gpio_read 4, Dispatch (create_client_rc E) (hello_note (create_client_rc E))]"
    using assms(1) by (simp add: hello_button_isr_def timercallback_def buttons_def hello_ok_def)
  ultimately show ?thesis by blast
qed

definition sample_hello :: "int \<Rightarrow> hello_env" where
  "sample_hello port =
     \<lparr>card_create_rc = 0, rawmidi_new_rc = 0, rdev_kzalloc = True, pinfo_kzalloc = True, create_client_rc = 128,
      create_port_rc = port, card_register_rc = 0, gpio_rcs = sample_gpios 192\<rparr>"

theorem hello_midi_life_witness:
  "\<exists>st as. hello_midi_init (sample_hello (- ENOMEM)) = Inr (0, st, as) \<and>
     hello_button_isr st 174 = [Gpio_read 4, Dispatch 128 (hello_note 128)] \<and> outstanding (Client 128) (as @ hello_midi_exit st) = - 1"
proof -
  have "hello_ok (sample_hello (- ENOMEM))" by (simp add: hello_ok_def sample_hello_def)
  moreover have "hello_gpiomode_init (gpio_rcs (sample_hello (- ENOMEM))) [- 1, - 1] =
      (0, [174, 192], [Acquire Gpios, Gpio_read 4, Acquire (Irq_line 174), Acquire (Irq_line 192)])"
    by (simp add: hello_gpiomode_init_def sample_hello_def sample_gpios_def buttons_def)
  moreover have "client_gone (sample_hello (- ENOMEM))" "create_client_rc (sample_hello (- ENOMEM)) = 128"
    by (simp_all add: client_gone_def sample_hello_def ENOMEM_def)
  ultimately obtain st as where "hello_midi_init (sample_hello (- ENOMEM)) = Inr (0, st, as)"
      "hello_button_isr st 174 = [Gpio_read 4, Dispatch 128 (hello_note 128)]"
      "\<forall>r. outstanding r (as @ hello_midi_exit st) = (if True \<and> r = Client 128 then - 1 else 0)"
    using hello_midi_life [of "sample_hello (- ENOMEM)" "[174, 192]"] by auto
  then show ?thesis by (intro exI [of _ st] exI [of _ as]) simp
qed

text \<open>A failing raw MIDI device is not noticed: its name is written through a null pointer.\<close>

lemma probe_without_rawmidi:
  "0 \<le> card_create_rc E \<Longrightarrow> rawmidi_new_rc E < 0 \<or> \<not> rdev_kzalloc E \<Longrightarrow> hello_midi_init E = Inl Null_pointer"
  by (auto simp: hello_midi_init_def hellomidi_probe_def hello_midi_new_def)

text \<open>Without its GPIOs the module loads as well, and frees an interrupt -1 four times and the GPIOs it never had.\<close>

lemma load_without_gpios:
  assumes "hello_ok E" and "gpio_request_array_rc (gpio_rcs E) \<noteq> 0"
  shows "\<exists>st as. hello_midi_init E = Inr (0, st, as) \<and>
    outstanding Gpios (as @ hello_midi_exit st) = - 1 \<and> outstanding (Irq_line (- 1)) (as @ hello_midi_exit st) = - 4"
proof -
  obtain as where p: "hellomidi_probe E hello_initial =
      Inr (0, \<lparr>hello_client = create_client_rc E, hello_irqs = [- 1, - 1], drvdata = True, rawmidi = True\<rparr>, as)"
    and b: "\<And>r. outstanding r as = (if r \<in> {Card, Rawmidi, Virmidi_dev} then 1 else 0) +
      (if r = Client (create_client_rc E) \<and> \<not> client_gone E then 1 else 0)"
    using probe_ok [OF assms(1)] by blast
  show ?thesis
    using assms(2) by (simp add: hello_midi_init_def p hello_gpiomode_init_def hello_fail3_def hello_midi_exit_def hellomidi_remove_def
        hello_midi_dev_unregister_def hello_midi_free_def b)
qed

end
