(* ===== verification/Userspace_Midi.thy ===== *)
theory Userspace_Midi
  imports C_Prelude
begin

text \<open>
  The two programs under \<open>playground/userspace_midi/\<close> that write to a virtual raw MIDI port: \<open>main.c\<close> plays the notes of the keys
  typed in, \<open>equi.c\<close> plays random notes without end. What \<open>getchar\<close> and \<open>rand\<close> return is a list; behind the end of the keys \<open>getchar\<close>
  returns \<open>EOF\<close>. The lemmas give the bytes that are written, and how the first program ends.
\<close>

datatype user_io = Write bytes | Sleep nat

definition msleep :: "nat \<Rightarrow> user_io" where
  "msleep ms = Sleep (1000 * ms)"

section \<open>main.c\<close>

text \<open>The letters are the codes of l, k, j, h, g, f, d, s and a.\<close>

definition key_q :: int where "key_q = 113"

definition key_map :: "int list" where
  "key_map = (replicate 250 (- 1))
     [108 := 74, 107 := 72, 106 := 71, 104 := 69, 103 := 67, 102 := 65, 100 := 64, 115 := 62, 97 := 60]"

definition map_at :: "int \<Rightarrow> int res" where
  "map_at key = (if key < 0 then Inl Out_of_bounds else array_get key_map (nat key))"

text \<open>The loop: what is written, and the exit code, or the fault that ends it.\<close>

definition one_note :: "u8 \<Rightarrow> nat \<Rightarrow> bytes \<Rightarrow> bytes \<Rightarrow> user_io list" where
  "one_note inc ms noteon noteoff = [Write (noteon[1 := inc]), msleep ms, Write (noteoff[1 := inc])]"

fun play_loop :: "int list \<Rightarrow> bytes \<Rightarrow> bytes \<Rightarrow> user_io list \<times> int res" where
  "play_loop [] noteon noteoff = (case map_at (- 1) of Inl f \<Rightarrow> ([], Inl f) | Inr _ \<Rightarrow> ([], Inr 0))"
| "play_loop (key # keys) noteon noteoff =
     (case map_at key of
        Inl f \<Rightarrow> ([], Inl f)
      | Inr m \<Rightarrow>
          if m \<noteq> - 1 then
            let inc = (word_of_int m :: u8)
            in if key = key_q then ([], Inr 0)
               else let (out, r) = play_loop keys (noteon[1 := inc]) (noteoff[1 := inc])
                    in (one_note inc 500 noteon noteoff @ out, r)
          else play_loop keys noteon noteoff)"

definition user_main :: "int \<Rightarrow> int list \<Rightarrow> user_io list \<times> int res" where
  "user_main status keys = (if status < 0 then ([], Inr 1) else play_loop keys [0x99, 60, 100] [0x89, 60, 100])"

section \<open>equi.c\<close>

text \<open>As many rounds of the endless loop as there are random numbers; \<open>rand\<close> returns no negative ones.\<close>

fun equi_loop :: "nat list \<Rightarrow> bytes \<Rightarrow> bytes \<Rightarrow> user_io list" where
  "equi_loop [] noteon noteoff = []"
| "equi_loop (r # rs) noteon noteoff =
     (let inc = (of_nat (r mod 20 + 50) :: u8)
      in one_note inc 250 noteon noteoff @ equi_loop rs (noteon[1 := inc]) (noteoff[1 := inc]))"

definition equi_main :: "int \<Rightarrow> nat list \<Rightarrow> user_io list \<times> int option" where
  "equi_main status rs = (if status < 0 then ([], Some 1) else (equi_loop rs [0x99, 60, 100] [0x89, 60, 100], None))"

section \<open>Lemmas\<close>

definition pitch :: "int \<Rightarrow> u8 option" where
  "pitch key = map_of [(108, 74), (107, 72), (106, 71), (104, 69), (103, 67), (102, 65), (100, 64), (115, 62), (97, 60)] key"

definition stroke :: "nat \<Rightarrow> u8 \<Rightarrow> user_io list" where
  "stroke ms p = [Write [0x99, p, 100], Sleep (1000 * ms), Write [0x89, p, 100]]"

lemma length_key_map [simp]: "length key_map = 250"
  by (simp add: key_map_def)

lemma map_at_pitch:
  assumes "0 \<le> key" and "key < 250"
  shows "\<exists>m. map_at key = Inr m \<and> (case pitch key of None \<Rightarrow> m = - 1 | Some p \<Rightarrow> m \<noteq> - 1 \<and> word_of_int m = p \<and> key \<noteq> key_q)"
proof -
  obtain n where n: "key = int n" "n < 250" using assms by (metis nat_less_iff nonneg_int_cases of_nat_less_iff of_nat_numeral)
  have "case pitch (int n) of None \<Rightarrow> key_map ! n = - 1 | Some p \<Rightarrow> key_map ! n \<noteq> - 1 \<and> word_of_int (key_map ! n) = p \<and> int n \<noteq> key_q"
    using n(2) by (simp add: pitch_def key_map_def key_q_def nth_list_update)
  with n show ?thesis by (auto simp: map_at_def array_get_def split: option.splits)
qed

lemma map_at_outside: "\<not> (0 \<le> key \<and> key < 250) \<Longrightarrow> map_at key = Inl Out_of_bounds"
  by (auto simp: map_at_def array_get_def nat_less_iff)

text \<open>Only the pitch of the messages changes.\<close>

lemma play_loop_eq:
  "play_loop keys [0x99, p, 100] [0x89, p', 100] =
     (concat (map (\<lambda>key. case pitch key of None \<Rightarrow> [] | Some q \<Rightarrow> stroke 500 q) (takeWhile (\<lambda>key. 0 \<le> key \<and> key < 250) keys)),
      Inl Out_of_bounds)"
proof (induction keys arbitrary: p p')
  case Nil
  then show ?case by (simp add: map_at_outside)
next
  case (Cons key keys)
  show ?case
  proof (cases "0 \<le> key \<and> key < 250")
    case True
    with map_at_pitch [of key] obtain m where m: "map_at key = Inr m"
      "case pitch key of None \<Rightarrow> m = - 1 | Some q \<Rightarrow> m \<noteq> - 1 \<and> word_of_int m = q \<and> key \<noteq> key_q" by blast
    then show ?thesis using True Cons.IH
      by (cases "pitch key") (auto simp: one_note_def stroke_def msleep_def)
  next
    case False
    with map_at_outside [OF this] show ?thesis by auto
  qed
qed

lemma equi_loop_eq:
  "equi_loop rs [0x99, p, 100] [0x89, p', 100] = concat (map (\<lambda>r. stroke 250 (of_nat (r mod 20 + 50))) rs)"
  by (induction rs arbitrary: p p') (simp_all add: Let_def one_note_def stroke_def msleep_def)

section \<open>Properties\<close>

text \<open>
  C40. The keyboard player: up to the first key with a code of 250 or more, each mapped key is a note-on, half a second, and a note-off of
  its pitch, in the order typed, and the other keys are silent. It never returns: the letter q, meant to end it, is not mapped and so
  ignored, and at such a key or at the end of the input it reads outside its table.
\<close>

theorem keyboard_player:
  "user_main status keys =
     (if status < 0 then ([], Inr 1)
      else (concat (map (\<lambda>key. case pitch key of None \<Rightarrow> [] | Some p \<Rightarrow> stroke 500 p) (takeWhile (\<lambda>key. 0 \<le> key \<and> key < 250) keys)),
            Inl Out_of_bounds))"
  by (simp add: user_main_def play_loop_eq)

text \<open>The random player: a note-on, a quarter of a second, and a note-off, of a pitch from 50 to 69 each time, for as long as it runs.\<close>

lemma random_player:
  "0 \<le> status \<Longrightarrow> equi_main status rs = (concat (map (\<lambda>r. stroke 250 (of_nat (r mod 20 + 50))) rs), None)"
  by (simp add: equi_main_def equi_loop_eq)

end
