(* ===== verification/Spec2Isabelle.thy ===== *)
theory Spec2Isabelle
  imports Keyboard_Network Apple_Membership Arm_Uldivmod Ioctl_Test Longdiv New_Midi Hello_Midi Userspace_Midi
begin

text \<open>
  A verification development for the CMIDID kernel driver, which turns a self-made keyboard on
  the GPIO pins of a Linux board into a MIDI instrument, and for the AppleMIDI module beside it,
  which sends the notes of an ALSA sequencer port over the network to the hosts that joined its session.

  \<^bold>\<open>The program.\<close> \<open>module/\<close> is the keyboard driver. Each key has two buttons, hit one after the
  other by a falling key. An edge on a pin raises an interrupt (\<open>irq_handler\<close>), which starts a
  timer to wait until the contact has settled (\<open>timer_irq\<close>); then the state machine of the key
  (\<open>handle_button_event\<close>) is run, the time between the two buttons becomes a velocity
  (\<open>time_to_velocity\<close>), and note events go to the sequencer (\<open>cmidid_midi.c\<close>). A character device
  takes ioctl commands that calibrate and transpose. \<open>applemidi/\<close> takes notes from the sequencer (the
  callback of \<open>alsa.c\<close>) and sends them as RTP packets with a MIDI payload: \<open>message.c\<close> encodes a message
  with running status, \<open>rtpmidi.c\<close> a list of messages with delta times, \<open>rtp.c\<close> keeps the peers of a
  session and sends a packet to one of them, \<open>clock.c\<close> gives the time stamps. Who the peers are is the
  matter of \<open>applemidi.c\<close>: hosts invite the driver on its control port and on its RTP port and become
  peers with the second, they end their sessions with a message, and a timer goes through the peers and
  starts with each an exchange of three messages that compares the clocks. Timer, socket callback and ALSA
  callback run at any time; a spinlock in the driver keeps them apart, which the callback of the sockets and the
  timer only try to take.

  \<^bold>\<open>Theories and sources.\<close>
  \<^item> \<open>C_Prelude\<close>: faults as values of a sum type (\<open>'a res\<close>), words of the C types, buffers of bytes,
    big-endian fields, and the interfaces: \<open>stream_codec\<close> (an encoder and decoder that share a
    state and are inverse on a list when they are on an element), \<open>invariant_machine\<close> and
    \<open>serving_machine\<close> (steps that keep an invariant, and that never fault on what a caller may send), \<open>refining_machine\<close>
    (steps that follow a specification on abstract states until a named hazard), \<open>keyed_registry\<close> (adding, removing
    and finding by key), \<open>cursor_iteration\<close> (a next operation that visits a list).
  \<^item> \<open>Kernel_Calls\<close>: the calls of the kernel the code makes, as a log; their results are parameters.
  \<^item> \<open>Midi_Out\<close>: \<open>module/cmidid_midi.c\<close>. \<open>Gpio_State\<close>, \<open>Velocity\<close>, \<open>Key_Events\<close>, \<open>Gpio_Irq\<close>,
    \<open>Gpio_Init\<close>: \<open>module/cmidid_gpio.c\<close>, its data, velocity curves, key state machine, interrupt and
    timer handlers, and initialisation and exit. \<open>Cmidid_System\<close>: \<open>cmidid_ioctl\<close> of
    \<open>module/cmidid_main.c\<close> and the running module as a step relation of interrupts, timers and
    ioctl commands. \<open>Cmidid_Main\<close>: loading and unloading.
  \<^item> \<open>Midi_Message\<close>: \<open>applemidi/message.c\<close>, the operations of a format as a record of functions. \<open>Rtp_Midi\<close>: the payload part of \<open>applemidi/rtpmidi.c\<close>.
    \<open>Rtp_Session\<close>, \<open>Rtp_Packet\<close>: peers and sessions, and packets, of \<open>applemidi/rtp.c\<close>.
    \<open>Rtpmidi_Send\<close>: the session of \<open>applemidi/rtpmidi.c\<close> and its sending to all peers.
    \<open>Midi_Clock\<close>: \<open>applemidi/clock.c\<close>, with its table of time sources.
  \<^item> \<open>Apple_Calls\<close>: the kernel calls of the AppleMIDI module as a log, and which of them take and give
    back a resource. \<open>Alsa_Client\<close>: registration and removal of the client of \<open>applemidi/alsa.c\<close> and the
    driver object of \<open>applemidi/midi.c\<close>. \<open>Apple_Command\<close>: the commands of \<open>applemidi/applemidi.c\<close> and
    their messages; the union in a command is a block of bytes with its fields at their offsets.
    \<open>Apple_Session\<close>: the state of the driver (\<open>apple_state\<close>), synchronisation, answers, socket
    callback, the end of sessions and the timer, with what every handler keeps. \<open>Apple_Protocol\<close>: what the handlers
    do over the messages of the protocol. \<open>Apple_Ending\<close>: the ends of sessions, and the timer in the middle of unloading. \<open>Apple_Notes\<close>: the
    input callback of \<open>applemidi/alsa.c\<close>. \<open>Apple_System\<close>: the driver as a step relation of timer runs,
    datagrams and ALSA events. \<open>Apple_Main\<close>: opening the sockets, the life of the driver and of the module, and datagrams
    that come before the driver is complete. \<open>Apple_Handlers\<close>: each handler on messages of the protocol, with the hosts in the table
    of peers as a multiset of addresses and SSRCs (\<open>roster\<close>). \<open>Apple_Traffic\<close>: traffic that keeps to the protocol, on which every
    handler returns, and the specification \<open>membership\<close> of the hosts of the session, which \<open>Apple_Membership\<close> shows to be implemented.
  \<^item> \<open>Keyboard_Network\<close>: both modules together, from the buttons to the packets, over the event of the sequencer they share.
  \<^item> \<open>Arm_Core\<close>: registers, flags and the instructions of the ARM that \<open>applemidi/_uldivmod.S\<close> uses. \<open>Arm_Uldivmod\<close>: that
    routine, one list of instructions for each label, and its correctness.
  \<^item> \<open>Ioctl_Test\<close>: \<open>module/ioctl_test.c\<close>, run against the module of \<open>Cmidid_System\<close>.
  \<^item> \<open>Longdiv\<close>: \<open>playground/longdiv/longdiv.c\<close>. \<open>Playground_Base\<close>: resources taken and given back, and the interface
    \<open>loadable\<close> of modules that are loaded and unloaded, which \<open>New_Midi\<close> (\<open>playground/new_midi/\<close>) and \<open>Playground_Gpio\<close>
    (\<open>playground/gpio_irq_test/\<close>, \<open>playground/pi_gpio/\<close>) provide. \<open>Hello_Midi\<close>: \<open>playground/hello_midi/hello_midi.c\<close>.
    \<open>Userspace_Midi\<close>: the two programs of \<open>playground/userspace_midi/\<close>.

  Functions keep their names; a leading underscore of a static function is dropped. A struct is a
  record with fields in the order of the source, prefixed where two structs share a name. Integers
  are words of their width on the 32-bit target (\<open>unsigned long\<close> and \<open>size_t\<close> have 32 bits), \<open>int\<close> is
  an integer where its values stay small. Objects that are shared through pointers (peers, clocks)
  live in a heap, a partial map from pointers; a use of a freed object is the fault
  \<open>Use_after_free\<close>, an access beyond a buffer \<open>Out_of_bounds\<close>. Buffers are lists of bytes in a map
  of blocks. Results of \<open>kmalloc\<close>, of the network and the time are parameters, and so is what lies in an
  uninitialised local array. Locks are those of a machine with several processors: waiting for a lock that is held
  is the fault \<open>Deadlock\<close> where nobody is left to give it back.

  \<^bold>\<open>What the lemmas show.\<close> For the keyboard: the notes of a key are exactly those its history of presses and
  releases asks for, a full stroke sends one note with the interpolated velocity, bounces are ignored, every event
  in a reachable state is well formed and the only fault a running module can meet is a division by
  zero of a non-linear curve; initialisation sets up what the parameters say, and unloading, at
  any later time, gives back every resource of the kernel as often as it was taken, except after a load that could not
  create its client. For the network side: running status, variable-length numbers and the whole
  payload are read back by decoders written from the formats (\<open>dec_message\<close>, \<open>dec_varlen\<close>,
  \<open>dec_payload\<close>, \<open>dec_rtp\<close>), a packet carries its peer's next sequence number, the table of peers is
  a registry and its iteration visits every peer once, and \<open>RTPMIDISessionSend\<close> delivers the messages
  to every peer. The clock counts without drift. For the session: a command is read back from its message, the handshake
  makes a host a peer, end-of-session messages and the end of the driver remove exactly the peers they should,
  two drivers carry out the exchange of clocks, a note event reaches every peer, any traffic keeps the state well-formed,
  a loaded module serves conforming traffic without a fault for as long as no host ends its session, the peers of a loaded module
  are at any time the hosts that an account of invitations and ends of sessions names, up to the one hazard the property names,
  and whatever happened between loading and unloading the module, unloading gives back what was taken but for the global clock. Across both
  modules, every note of the keyboard reaches every peer as one packet
  with exactly its command, up to the same hazard. The division routine divides on every path, within a fixed number of blocks, and keeps the registers
  and the stack of its caller. For the test program and the experiments the lemmas compare arithmetic with the mathematical
  functions, the first note event with its successor, and loading with unloading. Further properties pin down the behaviour of the
  code where it does not do what it means to: see the texts before them.

  \<^bold>\<open>Loops and fuel.\<close> The loop over the peers in \<open>RTPMIDISessionSend\<close> takes fuel; \<open>RTP_MAX_PEERS + 1\<close>
  is enough because the iteration yields each of at most \<open>RTP_MAX_PEERS\<close> slots once, and the
  property states the result for this fuel. The loop that ends all sessions takes \<open>RTP_MAX_PEERS\<close> rounds, each of which
  removes a peer. The loops of the clock's fractions are partial functions
  into an option, and the property states that they return. The division routine takes fuel for its blocks; 132 is
  enough because the loop runs at most once for each of 64 bits, in two blocks each. The loops of the test
  program, of the powers, factorials and the series end by a measure: the rest of the input, the counter, and the room the growing sum has
  left. All other loops are structural.

  \<^bold>\<open>Not modelled.\<close> Events of the ALSA port that come while the AppleMIDI driver is still
  being created (the memory of its sessions is then not initialised); the differences of clocks
  \<open>_applemidi_sync\<close> computes, which nothing uses; the queues of messages, whose code is commented out. Log output is left out, and so are
  functions that do nothing else, the macros of \<open>module/cmidid_util.h\<close>, and the interrupt handler of \<open>playground/pi_gpio/pi_gpio.c\<close>,
  which does not compile. Interrupts that arrive while the test program runs are those of \<open>Cmidid_System\<close>; between two of
  its calls no other step is interleaved. The instructions the division routine does not use are not part of the model of the processor.
\<close>

end
